(* ===== verification/Prelude.thy ===== *)
theory Prelude
  imports Main "HOL-Library.AList" "HOL-Library.Multiset"
begin

text \<open>
  Shared base of the development: the effect type in which every Go function of the
  operator is written, the loop combinators, Go's built-in map, and the fact collections
  the component proofs use.

  A Go function that touches globals or the outside world is a function of an environment
  (everything the program can only ask: services, files, processes, the clock) and of the
  program state; it returns an outcome and the new state. A panic is an outcome: the state
  reached so far is kept, because a panicking goroutine does not undo its effects.
\<close>

named_theorems go_simps \<open>unfolding of the effect combinators on concrete steps\<close>
named_theorems preserves_intros \<open>rules that establish that an operation keeps an invariant\<close>
named_theorems op_defs \<open>definitions of the model's small operations\<close>

section \<open>Effects\<close>

text \<open>The run-time panics the modelled code can raise.\<close>

datatype panic =
    SliceBounds        \<comment> \<open>\<open>s[0:-1]\<close>\<close>
  | NilDeref           \<comment> \<open>dereference of a nil pointer\<close>
  | TypeAssertion      \<comment> \<open>\<open>x.(T)\<close> on a value of another dynamic type\<close>
  | LogPanic           \<comment> \<open>\<open>log.Panicf\<close>\<close>

datatype 'a outcome = Ok 'a | Panic panic

type_synonym ('e, 's, 'a) go = "'e \<Rightarrow> 's \<Rightarrow> 'a outcome \<times> 's"

definition ret :: "'a \<Rightarrow> ('e, 's, 'a) go" where
  "ret a = (\<lambda>e s. (Ok a, s))"

definition raise_panic :: "panic \<Rightarrow> ('e, 's, 'a) go" where
  "raise_panic p = (\<lambda>e s. (Panic p, s))"

definition bind_go :: "('e, 's, 'a) go \<Rightarrow> ('a \<Rightarrow> ('e, 's, 'b) go) \<Rightarrow> ('e, 's, 'b) go" where
  "bind_go m f = (\<lambda>e s. case m e s of
       (Ok a, s') \<Rightarrow> f a e s'
     | (Panic p, s') \<Rightarrow> (Panic p, s'))"

text \<open>Reading a global, and assigning globals.\<close>

definition gets :: "('s \<Rightarrow> 'a) \<Rightarrow> ('e, 's, 'a) go" where
  "gets f = (\<lambda>e s. (Ok (f s), s))"

definition modify :: "('s \<Rightarrow> 's) \<Rightarrow> ('e, 's, unit) go" where
  "modify f = (\<lambda>e s. (Ok (), f s))"

text \<open>Sequencing without a result, as a statement followed by the rest of the block.\<close>

definition then_go :: "('e, 's, 'a) go \<Rightarrow> ('e, 's, 'b) go \<Rightarrow> ('e, 's, 'b) go" where
  "then_go m n = bind_go m (\<lambda>_. n)"

text \<open>\<open>for _, x := range xs\<close> with a loop body that updates local variables.\<close>

primrec for_range :: "'x list \<Rightarrow> 'a \<Rightarrow> ('x \<Rightarrow> 'a \<Rightarrow> ('e, 's, 'a) go) \<Rightarrow> ('e, 's, 'a) go" where
  "for_range [] acc body = ret acc"
| "for_range (x # xs) acc body = bind_go (body x acc) (\<lambda>acc'. for_range xs acc' body)"

subsection \<open>Stepping through a block\<close>

lemma ret_run [simp]: "ret a e s = (Ok a, s)"
  by (simp add: ret_def)

lemma raise_panic_run [simp]: "raise_panic p e s = (Panic p, s)"
  by (simp add: raise_panic_def)

lemma gets_run [simp]: "gets f e s = (Ok (f s), s)"
  by (simp add: gets_def)

lemma modify_run [simp]: "modify f e s = (Ok (), f s)"
  by (simp add: modify_def)

lemma bind_go_run [go_simps]:
  "bind_go m f e s =
     (case m e s of (Ok a, s') \<Rightarrow> f a e s' | (Panic p, s') \<Rightarrow> (Panic p, s'))"
  by (simp add: bind_go_def)

lemma bind_go_Ok: "m e s = (Ok a, s') \<Longrightarrow> bind_go m f e s = f a e s'"
  by (simp add: bind_go_def)

lemma bind_go_Panic: "m e s = (Panic p, s') \<Longrightarrow> bind_go m f e s = (Panic p, s')"
  by (simp add: bind_go_def)

lemma bind_ret [simp]: "bind_go (ret a) f = f a"
  by (simp add: bind_go_def fun_eq_iff)

lemma bind_gets [simp]: "bind_go (gets g) f e s = f (g s) e s"
  by (simp add: bind_go_def)

lemma bind_modify [simp]: "bind_go (modify g) f e s = f () e (g s)"
  by (simp add: bind_go_def)

lemma bind_raise [simp]: "bind_go (raise_panic p) f e s = (Panic p, s)"
  by (simp add: bind_go_def)

lemma bind_assoc [simp]:
  "bind_go (bind_go m f) g e s = bind_go m (\<lambda>a. bind_go (f a) g) e s"
  by (simp add: bind_go_def split: prod.splits outcome.splits)

lemma bind_go_assoc: "bind_go (bind_go m f) g = bind_go m (\<lambda>a. bind_go (f a) g)"
  by (intro ext) simp

lemma bind_OkE:
  assumes "bind_go m f e s = (Ok b, t)"
  obtains a u where "m e s = (Ok a, u)" and "f a e u = (Ok b, t)"
  using assms by (auto simp: bind_go_def split: prod.splits outcome.splits)

lemma bind_PanicE:
  assumes "bind_go m f e s = (Panic p, t)"
  obtains "m e s = (Panic p, t)"
  | a u where "m e s = (Ok a, u)" and "f a e u = (Panic p, t)"
  using assms by (auto simp: bind_go_def split: prod.splits outcome.splits)

lemma then_modify [simp]: "then_go (modify g) m e s = m e (g s)"
  by (simp add: then_go_def)

lemma then_ret [simp]: "then_go (ret a) m e s = m e s"
  by (simp add: then_go_def)

lemma then_go_run [go_simps]:
  "then_go m n e s = (case m e s of (Ok a, s') \<Rightarrow> n e s' | (Panic p, s') \<Rightarrow> (Panic p, s'))"
  by (simp add: then_go_def bind_go_def)

lemma then_go_Ok: "m e s = (Ok a, s') \<Longrightarrow> then_go m n e s = n e s'"
  by (simp add: then_go_run)

subsection \<open>Keeping an invariant\<close>

text \<open>
  An operation keeps \<open>I\<close> if it holds again afterwards, whatever the environment answers and
  also when the operation panics.
\<close>

definition preserves :: "('s \<Rightarrow> bool) \<Rightarrow> ('e, 's, 'a) go \<Rightarrow> bool" where
  "preserves I m \<longleftrightarrow> (\<forall>e s. I s \<longrightarrow> I (snd (m e s)))"

lemma preservesI: "(\<And>e s. I s \<Longrightarrow> I (snd (m e s))) \<Longrightarrow> preserves I m"
  by (simp add: preserves_def)

lemma preservesD: "preserves I m \<Longrightarrow> I s \<Longrightarrow> I (snd (m e s))"
  by (simp add: preserves_def)

lemma preserves_ret [preserves_intros]: "preserves I (ret a)"
  by (simp add: preserves_def)

lemma preserves_raise [preserves_intros]: "preserves I (raise_panic p)"
  by (simp add: preserves_def)

lemma preserves_gets [preserves_intros]: "preserves I (gets f)"
  by (simp add: preserves_def)

lemma preserves_modify [preserves_intros]: "(\<And>s. I s \<Longrightarrow> I (f s)) \<Longrightarrow> preserves I (modify f)"
  by (simp add: preserves_def)

lemma preserves_bind [preserves_intros]:
  assumes "preserves I m" and "\<And>a. preserves I (f a)"
  shows "preserves I (bind_go m f)"
proof (rule preservesI)
  fix e s
  assume "I s"
  with assms(1) have "I (snd (m e s))" by (rule preservesD)
  with assms(2) show "I (snd (bind_go m f e s))"
    by (auto simp: bind_go_def preserves_def split: prod.splits outcome.splits)
qed

lemma preserves_then [preserves_intros]:
  "preserves I m \<Longrightarrow> preserves I n \<Longrightarrow> preserves I (then_go m n)"
  by (simp add: then_go_def preserves_bind)

lemma preserves_if [preserves_intros]:
  "(b \<Longrightarrow> preserves I m) \<Longrightarrow> (\<not> b \<Longrightarrow> preserves I n) \<Longrightarrow> preserves I (if b then m else n)"
  by simp

lemma preserves_case_option [preserves_intros]:
  "preserves I m \<Longrightarrow> (\<And>x. preserves I (f x)) \<Longrightarrow>
     preserves I (case v of None \<Rightarrow> m | Some x \<Rightarrow> f x)"
  by (cases v) auto

lemma preserves_case_sum [preserves_intros]:
  "(\<And>x. preserves I (f x)) \<Longrightarrow> (\<And>y. preserves I (g y)) \<Longrightarrow>
     preserves I (case v of Inl x \<Rightarrow> f x | Inr y \<Rightarrow> g y)"
  by (cases v) auto

lemma preserves_case_prod [preserves_intros]:
  "(\<And>a b. preserves I (f a b)) \<Longrightarrow> preserves I (case v of (a, b) \<Rightarrow> f a b)"
  by (cases v) auto

lemma preserves_let [preserves_intros]:
  "(\<And>x. preserves I (f x)) \<Longrightarrow> preserves I (let x = v in f x)"
  by simp

lemma preserves_for_range [preserves_intros]:
  assumes "\<And>x acc. preserves I (body x acc)"
  shows "preserves I (for_range xs acc body)"
  using assms by (induction xs arbitrary: acc) (auto intro: preserves_intros)

text \<open>A loop whose body never panics and depends on no effect is a fold.\<close>

lemma for_range_pure:
  "for_range xs acc (\<lambda>x a. ret (f x a)) e s = (Ok (fold f xs acc), s)"
  by (induction xs arbitrary: acc) auto

section \<open>Go maps\<close>

text \<open>
  A Go map is an association list with distinct keys; its order is the order in which
  \<open>range\<close> happens to visit it. Theorems speak about any such list, so about every order.
\<close>

type_synonym ('k, 'v) gomap = "('k \<times> 'v) list"

definition wf_map :: "('k, 'v) gomap \<Rightarrow> bool" where
  "wf_map m \<longleftrightarrow> distinct (map fst m)"

abbreviation map_set :: "'k \<Rightarrow> 'v \<Rightarrow> ('k, 'v) gomap \<Rightarrow> ('k, 'v) gomap" where
  "map_set \<equiv> AList.update"

abbreviation map_delete :: "'k \<Rightarrow> ('k, 'v) gomap \<Rightarrow> ('k, 'v) gomap" where
  "map_delete \<equiv> AList.delete"

definition has_key :: "('k, 'v) gomap \<Rightarrow> 'k \<Rightarrow> bool" where
  "has_key m k \<longleftrightarrow> map_of m k \<noteq> None"

abbreviation map_values :: "('k, 'v) gomap \<Rightarrow> 'v list" where
  "map_values m \<equiv> map snd m"

abbreviation map_keys :: "('k, 'v) gomap \<Rightarrow> 'k list" where
  "map_keys m \<equiv> map fst m"

lemma has_key_iff: "has_key m k \<longleftrightarrow> k \<in> set (map_keys m)"
  by (simp add: has_key_def map_of_eq_None_iff)

lemma wf_map_Nil [simp]: "wf_map []"
  by (simp add: wf_map_def)

lemma wf_map_set [simp]: "wf_map m \<Longrightarrow> wf_map (map_set k v m)"
  by (simp add: wf_map_def distinct_update)

lemma wf_map_delete [simp]: "wf_map m \<Longrightarrow> wf_map (map_delete k m)"
  by (simp add: wf_map_def distinct_delete)

lemma has_key_set [simp]: "has_key (map_set k v m) k' \<longleftrightarrow> k' = k \<or> has_key m k'"
  by (auto simp: has_key_def update_conv')

lemma has_key_delete [simp]: "has_key (map_delete k m) k' \<longleftrightarrow> k' \<noteq> k \<and> has_key m k'"
  by (auto simp: has_key_def delete_conv')

text \<open>Building a map by storing the elements of a list under their key: the last one wins.\<close>

definition index_by :: "('v \<Rightarrow> 'k) \<Rightarrow> 'v list \<Rightarrow> ('k, 'v) gomap" where
  "index_by key xs = fold (\<lambda>x m. map_set (key x) x m) xs []"

lemma find_snoc:
  "find P (xs @ [x]) = (case find P xs of Some y \<Rightarrow> Some y | None \<Rightarrow> if P x then Some x else None)"
  by (induction xs) auto

lemma find_SomeD: "find P xs = Some x \<Longrightarrow> x \<in> set xs \<and> P x"
  by (induction xs) (auto split: if_splits)

lemma map_of_index_fold:
  "map_of (fold (\<lambda>x m. map_set (key x) x m) xs m) k =
     (case find (\<lambda>x. key x = k) (rev xs) of Some x \<Rightarrow> Some x | None \<Rightarrow> map_of m k)"
proof (induction xs arbitrary: m)
  case Nil
  then show ?case by simp
next
  case (Cons x xs)
  then show ?case
    by (auto simp: find_snoc update_conv' split: option.split)
qed

lemma map_of_index_by:
  "map_of (index_by key xs) k = find (\<lambda>x. key x = k) (rev xs)"
  by (simp add: index_by_def map_of_index_fold split: option.split)

lemma wf_index_by [simp]: "wf_map (index_by key xs)"
proof -
  have "wf_map m \<Longrightarrow> wf_map (fold (\<lambda>x m. map_set (key x) x m) xs m)" for m
    by (induction xs arbitrary: m) auto
  then show ?thesis by (simp add: index_by_def)
qed

lemma find_None_all: "find P xs = None \<longleftrightarrow> (\<forall>x \<in> set xs. \<not> P x)"
  by (auto simp: find_None_iff)

lemma has_key_index_by [simp]: "has_key (index_by key xs) k \<longleftrightarrow> k \<in> key ` set xs"
  by (auto simp: has_key_def map_of_index_by find_None_all)

lemma index_by_lookup:
  "map_of (index_by key xs) k = Some x \<Longrightarrow> x \<in> set xs \<and> key x = k"
  by (auto simp: map_of_index_by dest: find_SomeD)

text \<open>Every entry of a map built by \<open>index_by\<close> is stored under its own key.\<close>

definition keyed_by :: "('v \<Rightarrow> 'k) \<Rightarrow> ('k, 'v) gomap \<Rightarrow> bool" where
  "keyed_by key m \<longleftrightarrow> wf_map m \<and> (\<forall>(k, v) \<in> set m. key v = k)"

lemma keyed_by_Nil [simp]: "keyed_by key []"
  by (simp add: keyed_by_def)

lemma wf_map_in_set: "wf_map m \<Longrightarrow> (k, v) \<in> set m \<longleftrightarrow> map_of m k = Some v"
  by (simp add: wf_map_def map_of_eq_Some_iff)

lemma keyed_by_index [simp]: "keyed_by key (index_by key xs)"
  by (auto simp: keyed_by_def wf_map_in_set dest: index_by_lookup)

lemma keyed_by_values:
  "keyed_by key m \<Longrightarrow> key ` set (map_values m) = set (map_keys m)"
  by (force simp: keyed_by_def)

lemma keyed_by_value_iff:
  assumes "keyed_by key m"
  shows "v \<in> set (map_values m) \<longleftrightarrow> map_of m (key v) = Some v"
  using assms by (force simp: keyed_by_def wf_map_in_set[symmetric])

end
