(* ===== verification/Go_Strings.thy ===== *)
theory Go_Strings
  imports Prelude
begin

text \<open>
  The parts of Go's \<open>strconv\<close>, \<open>strings\<close>, \<open>bytes\<close> and \<open>fmt\<close> packages the operator relies
  on: decimal integers in both directions, \<open>strings.LastIndex\<close> with a one-byte separator,
  \<open>strings.Fields\<close> and \<open>Buffer.ReadString\<close>. Strings are byte strings, as in Go.
\<close>

section \<open>Decimal integers\<close>

definition is_digit :: "char \<Rightarrow> bool" where
  "is_digit c \<longleftrightarrow> 48 \<le> (of_char c :: nat) \<and> (of_char c :: nat) \<le> 57"

definition digit_value :: "char \<Rightarrow> nat" where
  "digit_value c = of_char c - 48"

definition digit_char :: "nat \<Rightarrow> char" where
  "digit_char d = char_of (48 + d)"

primrec parse_digits :: "string \<Rightarrow> nat \<Rightarrow> nat option" where
  "parse_digits [] acc = Some acc"
| "parse_digits (c # cs) acc =
     (if is_digit c then parse_digits cs (10 * acc + digit_value c) else None)"

text \<open>
  \<open>strconv.Atoi\<close> on a platform with 64-bit \<open>int\<close>: an optional sign, at least one digit,
  nothing else, and the value must fit. A failed conversion is \<open>None\<close>.
\<close>

definition Atoi :: "string \<Rightarrow> int option" where
  "Atoi s =
     (let neg = (s \<noteq> [] \<and> hd s = CHR ''-'');
          ds = (if s \<noteq> [] \<and> (hd s = CHR ''-'' \<or> hd s = CHR ''+'') then tl s else s)
      in if ds = [] then None
         else case parse_digits ds 0 of
           None \<Rightarrow> None
         | Some n \<Rightarrow>
             if neg then (if n \<le> 2 ^ 63 then Some (- int n) else None)
             else (if n < 2 ^ 63 then Some (int n) else None))"

fun show_nat :: "nat \<Rightarrow> string" where
  "show_nat n =
     (if n < 10 then [digit_char n] else show_nat (n div 10) @ [digit_char (n mod 10)])"

declare show_nat.simps [simp del]

text \<open>\<open>fmt.Sprintf("%d", n)\<close>.\<close>

definition show_int :: "int \<Rightarrow> string" where
  "show_int n = (if n < 0 then CHR ''-'' # show_nat (nat (- n)) else show_nat (nat n))"

definition fits_int :: "int \<Rightarrow> bool" where
  "fits_int n \<longleftrightarrow> - (2 ^ 63) \<le> n \<and> n < 2 ^ 63"

lemma digit_char_value:
  assumes "d < 10"
  shows "is_digit (digit_char d)" and "digit_value (digit_char d) = d"
proof -
  from assms have "(of_char (digit_char d) :: nat) = 48 + d"
    by (simp add: digit_char_def)
  with assms show "is_digit (digit_char d)" and "digit_value (digit_char d) = d"
    by (simp_all add: is_digit_def digit_value_def)
qed

lemma parse_digits_snoc:
  "parse_digits (xs @ [c]) acc =
     (case parse_digits xs acc of None \<Rightarrow> None
      | Some n \<Rightarrow> if is_digit c then Some (10 * n + digit_value c) else None)"
  by (induction xs arbitrary: acc) auto

lemma parse_show_nat: "parse_digits (show_nat n) 0 = Some n"
proof (induction n rule: show_nat.induct)
  case (1 n)
  show ?case
  proof (cases "n < 10")
    case True
    then show ?thesis by (simp add: show_nat.simps [of n] digit_char_value)
  next
    case False
    with 1 have "parse_digits (show_nat (n div 10)) 0 = Some (n div 10)" by simp
    with False show ?thesis
      by (simp add: show_nat.simps [of n] parse_digits_snoc digit_char_value)
  qed
qed

lemma show_nat_not_Nil [simp]: "show_nat n \<noteq> []"
  by (subst show_nat.simps) simp

lemma show_nat_digits: "\<forall>c \<in> set (show_nat n). is_digit c"
proof (induction n rule: show_nat.induct)
  case (1 n)
  then show ?case
    by (cases "n < 10") (auto simp: show_nat.simps [of n] digit_char_value)
qed

lemma not_digit_sign: "\<not> is_digit (CHR ''-'')" "\<not> is_digit (CHR ''+'')"
  by (simp_all add: is_digit_def)

lemma hd_show_nat: "hd (show_nat n) \<noteq> CHR ''-''" "hd (show_nat n) \<noteq> CHR ''+''"
  using show_nat_digits [of n] not_digit_sign hd_in_set [OF show_nat_not_Nil, of n]
  by metis+

lemma Atoi_show_int:
  assumes "fits_int n"
  shows "Atoi (show_int n) = Some n"
proof (cases "n < 0")
  case True
  with assms have "nat (- n) \<le> 2 ^ 63" by (simp add: fits_int_def nat_le_iff)
  with True show ?thesis by (simp add: Atoi_def show_int_def parse_show_nat)
next
  case False
  with assms have "nat n < 2 ^ 63" by (simp add: fits_int_def nat_less_iff)
  with False show ?thesis
    by (simp add: Atoi_def show_int_def parse_show_nat hd_show_nat)
qed

lemma Atoi_fits: "Atoi s = Some n \<Longrightarrow> fits_int n"
  by (auto simp: Atoi_def Let_def fits_int_def split: if_splits option.splits)

section \<open>Searching and splitting\<close>

text \<open>\<open>strings.LastIndex(s, string(c))\<close>: \<open>-1\<close> when the byte does not occur.\<close>

fun LastIndex :: "string \<Rightarrow> char \<Rightarrow> int" where
  "LastIndex [] c = -1"
| "LastIndex (x # xs) c =
     (let i = LastIndex xs c in if 0 \<le> i then i + 1 else if x = c then 0 else -1)"

lemma LastIndex_ge: "-1 \<le> LastIndex s c"
  by (induction s) (auto simp: Let_def)

lemma LastIndex_none: "LastIndex s c < 0 \<longleftrightarrow> c \<notin> set s"
  by (induction s) (auto simp: Let_def)

lemma LastIndex_split:
  assumes "c \<notin> set suf"
  shows "LastIndex (pre @ c # suf) c = int (length pre)"
proof (induction pre)
  case Nil
  from assms have "LastIndex suf c < 0" by (simp add: LastIndex_none)
  then show ?case by simp
next
  case (Cons x pre)
  then show ?case by (simp add: Let_def)
qed

text \<open>The slice \<open>s[0:i]\<close>: a panic unless \<open>0 \<le> i \<le> len(s)\<close>.\<close>

definition slice_prefix :: "string \<Rightarrow> int \<Rightarrow> ('e, 's, string) go" where
  "slice_prefix s i =
     (if 0 \<le> i \<and> i \<le> int (length s) then ret (take (nat i) s) else raise_panic SliceBounds)"

definition is_space :: "char \<Rightarrow> bool" where
  "is_space c \<longleftrightarrow> (of_char c :: nat) \<in> {9, 10, 11, 12, 13, 32}"

text \<open>\<open>strings.Fields\<close> on ASCII input.\<close>

function Fields :: "string \<Rightarrow> string list" where
  "Fields s =
     (let r = dropWhile is_space s
      in if r = [] then []
         else takeWhile (\<lambda>c. \<not> is_space c) r # Fields (dropWhile (\<lambda>c. \<not> is_space c) r))"
  by pat_completeness auto
termination
proof (relation "measure length")
  fix s r :: string
  assume r: "r = dropWhile is_space s" and ne: "r \<noteq> []"
  then have "\<not> is_space (hd r)" by (metis hd_dropWhile)
  with ne have "length (dropWhile (\<lambda>c. \<not> is_space c) r) < length r"
    by (cases r) (simp_all add: le_imp_less_Suc length_dropWhile_le)
  also have "length r \<le> length s" by (simp add: r length_dropWhile_le)
  finally show "(dropWhile (\<lambda>c. \<not> is_space c) r, s) \<in> measure length" by simp
qed simp

declare Fields.simps [simp del]

text \<open>\<open>Buffer.ReadString(delim)\<close>: the line, the unread rest, and whether EOF was hit first.\<close>

definition ReadString :: "char \<Rightarrow> string \<Rightarrow> string \<times> string \<times> bool" where
  "ReadString d s =
     (case dropWhile (\<lambda>c. c \<noteq> d) s of
        [] \<Rightarrow> (s, [], True)
      | _ # rest \<Rightarrow> (takeWhile (\<lambda>c. c \<noteq> d) s @ [d], rest, False))"

lemma ReadString_shorter:
  "ReadString d s = (l, rest, False) \<Longrightarrow> length rest < length s"
  by (auto simp: ReadString_def split: list.splits)
    (metis Suc_le_lessD length_Cons length_dropWhile_le)

lemma ReadString_line:
  assumes "d \<notin> set l"
  shows "ReadString d (l @ d # rest) = (l @ [d], rest, False)"
proof -
  from assms have "dropWhile (\<lambda>c. c \<noteq> d) (l @ d # rest) = d # rest"
    and "takeWhile (\<lambda>c. c \<noteq> d) (l @ d # rest) = l"
    by (induction l) auto
  then show ?thesis by (simp add: ReadString_def)
qed

text \<open>A line made of words separated by single blanks is split into these words.\<close>

lemma Fields_word:
  assumes "w \<noteq> []" and "\<forall>c \<in> set w. \<not> is_space c" and "rest = [] \<or> is_space (hd rest)"
  shows "Fields (w @ rest) = w # Fields rest"
proof -
  from assms(1,2) have d: "dropWhile is_space (w @ rest) = w @ rest"
    by (cases w) simp_all
  from assms(2,3) have "takeWhile (\<lambda>c. \<not> is_space c) (w @ rest) = w"
    and "dropWhile (\<lambda>c. \<not> is_space c) (w @ rest) = rest"
    by (cases rest; simp add: takeWhile_append dropWhile_append)+
  with d assms(1) show ?thesis by (simp add: Fields.simps [of "w @ rest"])
qed

lemma Fields_blank: "is_space c \<Longrightarrow> Fields (c # s) = Fields s"
  by (simp add: Fields.simps [of "c # s"] Fields.simps [of s])

lemma Fields_Nil [simp]: "Fields [] = []"
  by (simp add: Fields.simps)

end
