(* ===== verification/Json.thy ===== *)
theory Json
  imports Go_Strings
begin

text \<open>
  JSON documents and the behaviour of Go's \<open>encoding/json\<close> that the operator relies on.

  A message body (\<open>[]byte\<close>) is either a JSON document or bytes that are no JSON text; a
  number keeps its literal, because whether it fits a Go \<open>int\<close> is decided when it is
  decoded. Decoding follows \<open>json.Unmarshal\<close>: object keys are matched with the struct's
  field names exactly first and then ignoring case, unknown keys are skipped, \<open>null\<close> leaves
  a field as it is, a value of the wrong kind is recorded as an error and decoding goes on
  with the rest, so a partially filled value comes back together with the error. Where one
  document repeats the key of an array-valued field, the second array is decoded from zero
  elements.
\<close>

datatype json =
    JNull
  | JBool bool
  | JNum string
  | JStr string
  | JArr "json list"
  | JObj "(string \<times> json) list"

datatype payload = Json json | NotJson string

section \<open>Field matching\<close>

definition lower :: "char \<Rightarrow> char" where
  "lower c = (if 65 \<le> (of_char c :: nat) \<and> (of_char c :: nat) \<le> 90
              then char_of ((of_char c :: nat) + 32) else c)"

definition equal_fold :: "string \<Rightarrow> string \<Rightarrow> bool" where
  "equal_fold a b \<longleftrightarrow> map lower a = map lower b"

lemma equal_fold_refl [simp]: "equal_fold a a"
  by (simp add: equal_fold_def)

text \<open>A decoder updates a value from a document and tells whether an error was recorded.\<close>

type_synonym 'a decoder = "json \<Rightarrow> 'a \<Rightarrow> 'a \<times> bool"

definition find_field :: "(string \<times> 'a decoder) list \<Rightarrow> string \<Rightarrow> 'a decoder option" where
  "find_field fields key =
     (case map_of fields key of
        Some d \<Rightarrow> Some d
      | None \<Rightarrow> map_option snd (find (\<lambda>f. equal_fold (fst f) key) fields))"

section \<open>Decoders\<close>

definition dec_string :: "(string \<Rightarrow> 'a \<Rightarrow> 'a) \<Rightarrow> 'a decoder" where
  "dec_string upd j v =
     (case j of JStr s \<Rightarrow> (upd s v, False) | JNull \<Rightarrow> (v, False) | _ \<Rightarrow> (v, True))"

definition dec_int :: "(int \<Rightarrow> 'a \<Rightarrow> 'a) \<Rightarrow> 'a decoder" where
  "dec_int upd j v =
     (case j of
        JNum lit \<Rightarrow> (case Atoi lit of Some n \<Rightarrow> (upd n v, False) | None \<Rightarrow> (v, True))
      | JNull \<Rightarrow> (v, False)
      | _ \<Rightarrow> (v, True))"

fun dec_members :: "(string \<times> 'a decoder) list \<Rightarrow> (string \<times> json) list \<Rightarrow> 'a \<Rightarrow> 'a \<times> bool" where
  "dec_members fields [] v = (v, False)"
| "dec_members fields ((k, j) # kvs) v =
     (case find_field fields k of
        None \<Rightarrow> dec_members fields kvs v
      | Some d \<Rightarrow>
          (let (v1, e1) = d j v; (v2, e2) = dec_members fields kvs v1 in (v2, e1 \<or> e2)))"

definition dec_struct :: "(string \<times> 'a decoder) list \<Rightarrow> 'a decoder" where
  "dec_struct fields j v =
     (case j of JObj kvs \<Rightarrow> dec_members fields kvs v | JNull \<Rightarrow> (v, False) | _ \<Rightarrow> (v, True))"

text \<open>A struct-valued field: the inner value is decoded in place.\<close>

definition dec_sub :: "('a \<Rightarrow> 'b) \<Rightarrow> ('b \<Rightarrow> 'a \<Rightarrow> 'a) \<Rightarrow> 'b decoder \<Rightarrow> 'a decoder" where
  "dec_sub get upd d j v = (let (b, err) = d j (get v) in (upd b v, err))"

text \<open>A slice: every element is decoded from the zero value; \<open>null\<close> makes the slice nil.\<close>

definition dec_slice :: "'b \<Rightarrow> 'b decoder \<Rightarrow> 'b list decoder" where
  "dec_slice zero d j v =
     (case j of
        JArr js \<Rightarrow> (map (\<lambda>x. fst (d x zero)) js, list_ex (\<lambda>x. snd (d x zero)) js)
      | JNull \<Rightarrow> ([], False)
      | _ \<Rightarrow> (v, True))"

text \<open>
  \<open>map[string]interface{}\<close>: an object becomes a map (the last of equal keys wins), \<open>null\<close> the
  nil map, which reads like the empty one.
\<close>

definition dec_map :: "(string, json) gomap decoder" where
  "dec_map j v =
     (case j of
        JObj kvs \<Rightarrow> (fold (\<lambda>(k, x) m. map_set k x m) kvs v, False)
      | JNull \<Rightarrow> ([], False)
      | _ \<Rightarrow> (v, True))"

text \<open>
  \<open>json.Unmarshal(data, &v)\<close> with \<open>v\<close> initially \<open>zero\<close>. Bytes that are not JSON, and a nil
  slice, fail before anything is stored.
\<close>

datatype json_error = SyntaxError | UnmarshalTypeError

definition unmarshal :: "'a decoder \<Rightarrow> 'a \<Rightarrow> payload option \<Rightarrow> 'a \<times> json_error option" where
  "unmarshal d zero body =
     (case body of
        Some (Json j) \<Rightarrow>
          (let (v, err) = d j zero in (v, if err then Some UnmarshalTypeError else None))
      | _ \<Rightarrow> (zero, Some SyntaxError))"

section \<open>Encoding helpers\<close>

definition enc_int :: "int \<Rightarrow> json" where
  "enc_int n = JNum (show_int n)"

section \<open>Facts\<close>

lemma dec_string_JStr [simp]: "dec_string upd (JStr s) v = (upd s v, False)"
  by (simp add: dec_string_def)

lemma dec_int_enc [simp]: "fits_int n \<Longrightarrow> dec_int upd (enc_int n) v = (upd n v, False)"
  by (simp add: dec_int_def enc_int_def Atoi_show_int)

lemma find_field_exact: "map_of fields key = Some d \<Longrightarrow> find_field fields key = Some d"
  by (simp add: find_field_def)

lemma dec_members_step:
  assumes "find_field fields k = Some d" and "d j v = (v', False)"
  shows "dec_members fields ((k, j) # kvs) v = dec_members fields kvs v'"
  using assms by simp

lemma dec_slice_map:
  assumes "\<And>x. x \<in> set xs \<Longrightarrow> d (enc x) zero = (x, False)"
  shows "dec_slice zero d (JArr (map enc xs)) v = (xs, False)"
proof -
  from assms have "map (\<lambda>j. fst (d j zero)) (map enc xs) = xs"
    by (induction xs) auto
  moreover from assms have "\<not> list_ex (\<lambda>j. snd (d j zero)) (map enc xs)"
    by (induction xs) auto
  ultimately show ?thesis by (simp add: dec_slice_def)
qed

lemma unmarshal_ok:
  "unmarshal d zero body = (v, None) \<longleftrightarrow>
     (\<exists>j. body = Some (Json j) \<and> d j zero = (v, False))"
  by (auto simp: unmarshal_def Let_def split: option.splits payload.splits prod.splits)

end
