(* ===== verification/Operator_State.thy ===== *)
theory Operator_State
  imports Json "HOL-Library.Word"
begin

text \<open>
  The program state of the operator: the package-level variables of
  \<open>src/src/console_op/*.go\<close>, the channel between the hardware watcher and the key worker,
  and the sequence of calls made so far to the world outside the process.

  The outside world is a parameter, the record \<open>env\<close>: for every kind of call it gives the
  answer, which may depend on all calls made before. Nothing is assumed of it here; a
  theorem that needs a service to behave in a certain way says so in its hypotheses.
\<close>

section \<open>Data shared by the components\<close>

text \<open>\<open>nodes.go\<close>: what is needed to form a console connection.\<close>

record nodeConsoleInfo =
  NodeName :: string
  BmcName :: string
  BmcFqdn :: string
  Class :: string
  NID :: int
  Role :: string

definition zero_node :: nodeConsoleInfo where
  "zero_node = \<lparr>NodeName = '''', BmcName = '''', BmcFqdn = '''', Class = '''', NID = 0, Role = ''''\<rparr>"

definition isMountain :: "nodeConsoleInfo \<Rightarrow> bool" where
  "isMountain node \<longleftrightarrow> Class node = ''Mountain'' \<or> Class node = ''Hill''"

definition isRiver :: "nodeConsoleInfo \<Rightarrow> bool" where
  "isRiver node \<longleftrightarrow> Class node = ''River''"

definition isParadise :: "nodeConsoleInfo \<Rightarrow> bool" where
  "isParadise node \<longleftrightarrow> Class node = ''Paradise''"

text \<open>\<open>json.Marshal\<close> of a \<open>nodeConsoleInfo\<close>: the struct has no tags, so the field names are the keys.\<close>

definition enc_node :: "nodeConsoleInfo \<Rightarrow> json" where
  "enc_node n = JObj
     [(''NodeName'', JStr (NodeName n)), (''BmcName'', JStr (BmcName n)),
      (''BmcFqdn'', JStr (BmcFqdn n)), (''Class'', JStr (Class n)),
      (''NID'', enc_int (NID n)), (''Role'', JStr (Role n))]"

definition marshal_nodes :: "nodeConsoleInfo list \<Rightarrow> payload" where
  "marshal_nodes ns = Json (JArr (map enc_node ns))"

section \<open>Errors\<close>

text \<open>
  Error values, by origin. The strings are the texts the failing library or service
  supplied; errors built with \<open>fmt.Errorf\<close> keep the values they format.
\<close>

datatype go_error =
    NewRequestError string
  | TransportError string
  | ReadBodyError string
  | JsonError json_error
  | OsError string
  | ExecError string
  | K8sNotFound string
  | K8sStatusError string
  | K8sOtherError string
  | VaultGetError go_error
  | VaultMissingElement
  | VaultUnexpected "payload option" int
  | VaultGenerateUnexpected "payload option" int
  | VaultRequestUnexpected "payload option" int
  | VaultTokenUnreadable go_error
  | VaultAuthError go_error
  | VaultAuthRejected int "payload option"
  | KeygenError go_error

section \<open>Calls to the outside\<close>

record http_request =
  req_method :: string
  req_url :: string
  req_headers :: "(string \<times> string) list"
  req_body :: "payload option"

text \<open>The part of a Kubernetes StatefulSet the operator reads and writes: \<open>Spec.Replicas\<close> is a
  pointer to an \<open>int32\<close>.\<close>

record statefulSet =
  Replicas :: "32 word option"

datatype stat_result = StatOk | StatNotExist | StatError string

datatype event =
    HttpDo http_request
  | StatefulSetGet
  | StatefulSetUpdate statefulSet
  | PodGet string
  | PodList
  | OsStat string
  | OsMkdirAll string
  | OsOpenFile string
  | FileWriteString string string
  | OsReadFile string
  | OsWriteFile string string
  | ExecRun "string list"
  | OsFindProcess int
  | ProcessWait int
  | TimeNow
  | TimeSleep int

type_synonym history = "event list"

record env =
  http_new_request :: "string \<Rightarrow> string \<Rightarrow> go_error option"
  http_client_do :: "history \<Rightarrow> http_request \<Rightarrow> go_error + (int \<times> (go_error + payload))"
  os_getenv :: "string \<Rightarrow> string"
  time_now :: "history \<Rightarrow> string"
  os_stat :: "history \<Rightarrow> string \<Rightarrow> stat_result"
  os_mkdir_all :: "history \<Rightarrow> string \<Rightarrow> go_error option"
  os_open_file :: "history \<Rightarrow> string \<Rightarrow> go_error option"
  file_write_string :: "history \<Rightarrow> string \<Rightarrow> string \<Rightarrow> go_error option"
  os_read_file :: "history \<Rightarrow> string \<Rightarrow> go_error + string"
  os_write_file :: "history \<Rightarrow> string \<Rightarrow> string \<Rightarrow> go_error option"
  exec_run :: "history \<Rightarrow> string list \<Rightarrow> string \<times> go_error option"
  os_find_process :: "history \<Rightarrow> int \<Rightarrow> go_error option"
  process_wait :: "history \<Rightarrow> int \<Rightarrow> go_error option"
  gjson_get :: "payload option \<Rightarrow> string \<Rightarrow> string"
  error_text :: "go_error \<Rightarrow> string"

section \<open>Package-level variables\<close>

text \<open>The last two fields are not variables of the program: the calls made so far, and the nodes that
  the key worker took from the full channel while the hardware watcher was waiting to send.\<close>

record op_state =
  debugOnly :: bool
  nodeCache :: "(string, nodeConsoleInfo) gomap"
  numNodePods :: int
  numRvrNodesPerPod :: int
  numMtnNodesPerPod :: int
  totalRvrNodes :: int
  totalMtnNodes :: int
  maxMtnNodesPerPod :: int
  maxRvrNodesPerPod :: int
  newHardwareCheckPeriodSec :: int
  hardwareUpdateTime :: string
  heartbeatStaleMinutes :: int
  heartbeatCheckPeriodSec :: int
  inShutdown :: bool
  numFileErrors :: int
  mountainCredsUpdateChannel :: "nodeConsoleInfo list"
  trace :: history
  creds_taken :: "nodeConsoleInfo list"

type_synonym 'a op = "(env, op_state, 'a) go"

text \<open>The values at program start.\<close>

definition init_state :: op_state where
  "init_state = \<lparr>
     debugOnly = False, nodeCache = [], numNodePods = -1,
     numRvrNodesPerPod = -1, numMtnNodesPerPod = -1, totalRvrNodes = -1, totalMtnNodes = -1,
     maxMtnNodesPerPod = 750, maxRvrNodesPerPod = 2000,
     newHardwareCheckPeriodSec = 30, hardwareUpdateTime = ''Unknown'',
     heartbeatStaleMinutes = 3, heartbeatCheckPeriodSec = 15,
     inShutdown = False, numFileErrors = 0, mountainCredsUpdateChannel = [], trace = [],
     creds_taken = []\<rparr>"

section \<open>Making a call\<close>

text \<open>A call is recorded, and answered from what was called before it.\<close>

definition syscall :: "event \<Rightarrow> (env \<Rightarrow> history \<Rightarrow> 'a) \<Rightarrow> 'a op" where
  "syscall ev answer = (\<lambda>e s. (Ok (answer e (trace s)), s\<lparr>trace := trace s @ [ev]\<rparr>))"

lemma syscall_run [simp]:
  "syscall ev answer e s = (Ok (answer e (trace s)), s\<lparr>trace := trace s @ [ev]\<rparr>)"
  by (simp add: syscall_def)

lemma bind_syscall [simp]:
  "bind_go (syscall ev answer) f e s =
     f (answer e (trace s)) e (s\<lparr>trace := trace s @ [ev]\<rparr>)"
  by (simp add: bind_go_def)

lemma then_syscall [simp]:
  "then_go (syscall ev answer) n e s = n e (s\<lparr>trace := trace s @ [ev]\<rparr>)"
  by (simp add: then_go_def)

definition ask_env :: "(env \<Rightarrow> 'a) \<Rightarrow> 'a op" where
  "ask_env f = (\<lambda>e s. (Ok (f e), s))"

lemma ask_env_run [simp]: "ask_env f e s = (Ok (f e), s)"
  by (simp add: ask_env_def)

lemma bind_ask_env [simp]: "bind_go (ask_env g) f e s = f (g e) e s"
  by (simp add: bind_go_def)

lemma preserves_ask_env [preserves_intros]: "preserves I (ask_env f)"
  by (simp add: preserves_def)

lemma preserves_syscall [preserves_intros]:
  "(\<And>s t. I s \<Longrightarrow> I (s\<lparr>trace := t\<rparr>)) \<Longrightarrow> preserves I (syscall ev answer)"
  by (simp add: preserves_def)

subsection \<open>Operations that only call out\<close>

text \<open>
  Most helpers change no variable of the program: they extend the trace, and they return
  without a panic. Clients need nothing more of them to see what the globals are afterwards.
\<close>

definition only_calls :: "'a op \<Rightarrow> bool" where
  "only_calls m \<longleftrightarrow>
     (\<forall>e s. \<exists>a evs. m e s = (Ok a, s\<lparr>trace := trace s @ evs\<rparr>))"

named_theorems calls_intros \<open>rules that establish that an operation only calls out\<close>

lemma only_callsE:
  assumes "only_calls m"
  obtains a evs where "m e s = (Ok a, s\<lparr>trace := trace s @ evs\<rparr>)"
  using assms unfolding only_calls_def by blast

lemma only_calls_same:
  assumes "\<And>e s. \<exists>a. m e s = (Ok a, s)"
  shows "only_calls m"
  unfolding only_calls_def
proof (intro allI)
  fix e s
  obtain a where "m e s = (Ok a, s)" using assms by blast
  then have "m e s = (Ok a, s\<lparr>trace := trace s @ []\<rparr>)" by simp
  then show "\<exists>a evs. m e s = (Ok a, s\<lparr>trace := trace s @ evs\<rparr>)" by blast
qed

lemma only_calls_ret [calls_intros]: "only_calls (ret a)"
  by (rule only_calls_same) simp

lemma only_calls_gets [calls_intros]: "only_calls (gets f)"
  by (rule only_calls_same) simp

lemma only_calls_ask_env [calls_intros]: "only_calls (ask_env f)"
  by (rule only_calls_same) simp

lemma only_calls_syscall [calls_intros]: "only_calls (syscall ev answer)"
  unfolding only_calls_def by auto

lemma only_calls_bind [calls_intros]:
  assumes "only_calls m" and "\<And>a. only_calls (f a)"
  shows "only_calls (bind_go m f)"
  unfolding only_calls_def
proof (intro allI)
  fix e s
  obtain a evs where m: "m e s = (Ok a, s\<lparr>trace := trace s @ evs\<rparr>)"
    using assms(1) by (rule only_callsE)
  obtain b evs' where "f a e (s\<lparr>trace := trace s @ evs\<rparr>) =
      (Ok b, s\<lparr>trace := trace s @ evs\<rparr>\<lparr>trace := trace (s\<lparr>trace := trace s @ evs\<rparr>) @ evs'\<rparr>)"
    using assms(2) by (rule only_callsE)
  with m have "bind_go m f e s = (Ok b, s\<lparr>trace := trace s @ (evs @ evs')\<rparr>)"
    by (simp add: bind_go_def)
  then show "\<exists>b evs. bind_go m f e s = (Ok b, s\<lparr>trace := trace s @ evs\<rparr>)" by blast
qed

lemma only_calls_then [calls_intros]:
  "only_calls m \<Longrightarrow> only_calls n \<Longrightarrow> only_calls (then_go m n)"
  by (simp add: then_go_def only_calls_bind)

lemma only_calls_if [calls_intros]:
  "(b \<Longrightarrow> only_calls m) \<Longrightarrow> (\<not> b \<Longrightarrow> only_calls n) \<Longrightarrow> only_calls (if b then m else n)"
  by simp

lemma only_calls_case_option [calls_intros]:
  "only_calls m \<Longrightarrow> (\<And>x. only_calls (f x)) \<Longrightarrow>
     only_calls (case v of None \<Rightarrow> m | Some x \<Rightarrow> f x)"
  by (cases v) auto

lemma only_calls_case_sum [calls_intros]:
  "(\<And>x. only_calls (f x)) \<Longrightarrow> (\<And>y. only_calls (g y)) \<Longrightarrow>
     only_calls (case v of Inl x \<Rightarrow> f x | Inr y \<Rightarrow> g y)"
  by (cases v) auto

lemma only_calls_case_prod [calls_intros]:
  "(\<And>a b. only_calls (f a b)) \<Longrightarrow> only_calls (case v of (a, b) \<Rightarrow> f a b)"
  by (cases v) auto

lemma only_calls_let [calls_intros]:
  "(\<And>x. only_calls (f x)) \<Longrightarrow> only_calls (let x = v in f x)"
  by simp

lemma only_calls_for_range [calls_intros]:
  assumes "\<And>x acc. only_calls (body x acc)"
  shows "only_calls (for_range xs acc body)"
  using assms by (induction xs arbitrary: acc) (auto intro: calls_intros)

text \<open>What the globals are after such an operation.\<close>

lemma only_calls_preserves:
  assumes "only_calls m" and "\<And>s t. I s \<Longrightarrow> I (s\<lparr>trace := t\<rparr>)"
  shows "preserves I m"
proof (rule preservesI)
  fix e s
  assume "I s"
  moreover obtain a evs where "m e s = (Ok a, s\<lparr>trace := trace s @ evs\<rparr>)"
    using assms(1) by (rule only_callsE)
  ultimately show "I (snd (m e s))" using assms(2) by simp
qed

subsection \<open>Which calls an operation makes\<close>

text \<open>From \<open>s\<close> to \<open>t\<close> the trace has grown, and by events that satisfy \<open>P\<close> only.\<close>

definition emits :: "(event \<Rightarrow> bool) \<Rightarrow> op_state \<Rightarrow> op_state \<Rightarrow> bool" where
  "emits P s t \<longleftrightarrow> (\<exists>evs. trace t = trace s @ evs \<and> list_all P evs)"

definition not_http :: "event \<Rightarrow> bool" where
  "not_http ev \<longleftrightarrow> (case ev of HttpDo req \<Rightarrow> False | _ \<Rightarrow> True)"

lemma not_http_simps [simp]:
  "\<not> not_http (HttpDo req)"
  "not_http StatefulSetGet" "not_http (StatefulSetUpdate d)" "not_http (PodGet p)" "not_http PodList"
  "not_http (OsStat f)" "not_http (OsMkdirAll f)" "not_http (OsOpenFile f)"
  "not_http (FileWriteString f l)" "not_http (OsReadFile f)" "not_http (OsWriteFile f l)"
  "not_http (ExecRun c)" "not_http (OsFindProcess n)" "not_http (ProcessWait n)"
  "not_http TimeNow" "not_http (TimeSleep n)"
  by (simp_all add: not_http_def)

lemma emits_refl [simp]: "emits P s s"
  by (simp add: emits_def)

lemma emits_more:
  assumes "emits P s t" and "trace u = trace t @ evs" and "list_all P evs"
  shows "emits P s u"
  using assms by (auto simp: emits_def)

lemma emits_trans: "emits P s t \<Longrightarrow> emits P t u \<Longrightarrow> emits P s u"
  unfolding emits_def by fastforce

lemma emits_mono: "emits P s t \<Longrightarrow> (\<And>ev. P ev \<Longrightarrow> Q ev) \<Longrightarrow> emits Q s t"
  by (auto simp: emits_def list_all_iff)

lemma emits_syscall: "P ev \<Longrightarrow> preserves (emits P s0) (syscall ev answer)"
  by (rule preservesI) (auto intro: emits_more)

lemma emits_modify: "(\<And>s. trace (f s) = trace s) \<Longrightarrow> preserves (emits P s0) (modify f)"
  by (rule preservesI) (auto simp: emits_def)

lemma emits_weaken:
  assumes "\<And>s0. preserves (emits P s0) m" and "\<And>ev. P ev \<Longrightarrow> Q ev"
  shows "preserves (emits Q s0) m"
proof (rule preservesI)
  fix e s
  assume "emits Q s0 s"
  moreover have "emits P s (snd (m e s))" using assms(1) by (rule preservesD) simp
  then have "emits Q s (snd (m e s))" using assms(2) by (rule emits_mono)
  ultimately show "emits Q s0 (snd (m e s))" by (rule emits_trans)
qed

text \<open>Events that cannot change what another service stores: everything but a request with a
  method other than GET.\<close>

definition read_only :: "event \<Rightarrow> bool" where
  "read_only ev \<longleftrightarrow> (case ev of HttpDo req \<Rightarrow> req_method req = ''GET'' | _ \<Rightarrow> True)"

lemma read_only_http [simp]: "read_only (HttpDo req) \<longleftrightarrow> req_method req = ''GET''"
  by (simp add: read_only_def)

lemma not_http_read_only: "not_http ev \<Longrightarrow> read_only ev"
  by (cases ev) (simp_all add: read_only_def)

end
