(* ===== verification/Http_Utils.thy ===== *)
theory Http_Utils
  imports Operator_State
begin

text \<open>
  \<open>httpUtils.go\<close>: the four client helpers around \<open>http.NewRequest\<close> and \<open>client.Do\<close>, and the
  helpers that write a handler's response. A response writer records what \<open>net/http\<close> puts on
  the wire: the first status written counts, later ones are ignored, and headers set after
  the status are not sent.
\<close>

section \<open>Client side\<close>

text \<open>The common tail of the helpers: \<open>client.Do(req)\<close> and \<open>ioutil.ReadAll(resp.Body)\<close>.\<close>

definition do_and_read :: "http_request \<Rightarrow> (payload option \<times> int \<times> go_error option) op" where
  "do_and_read req =
     bind_go (syscall (HttpDo req) (\<lambda>e h. http_client_do e h req)) (\<lambda>r.
       case r of
         Inl err \<Rightarrow> ret (None, -1, Some err)
       | Inr (code, Inl err) \<Rightarrow> ret (None, code, Some err)
       | Inr (code, Inr data) \<Rightarrow> ret (Some data, code, None))"

definition added_headers :: "(string, string) gomap option \<Rightarrow> (string \<times> string) list" where
  "added_headers hs = (case hs of None \<Rightarrow> [] | Some m \<Rightarrow> m)"

definition getURL ::
    "string \<Rightarrow> (string, string) gomap option \<Rightarrow> (payload option \<times> int \<times> go_error option) op" where
  "getURL URL requestHeaders =
     bind_go (ask_env (\<lambda>e. http_new_request e ''GET'' URL)) (\<lambda>err.
       case err of
         Some x \<Rightarrow> ret (None, -1, Some x)
       | None \<Rightarrow> do_and_read
           \<lparr>req_method = ''GET'', req_url = URL, req_headers = added_headers requestHeaders,
            req_body = None\<rparr>)"

definition postURL ::
    "string \<Rightarrow> payload option \<Rightarrow> (string, string) gomap option \<Rightarrow>
       (payload option \<times> int \<times> go_error option) op" where
  "postURL URL requestBody requestHeaders =
     bind_go (ask_env (\<lambda>e. http_new_request e ''POST'' URL)) (\<lambda>err.
       case err of
         Some x \<Rightarrow> ret (None, -1, Some x)
       | None \<Rightarrow> do_and_read
           \<lparr>req_method = ''POST'', req_url = URL,
            req_headers = (''Content-Type'', ''application/json'') # added_headers requestHeaders,
            req_body = requestBody\<rparr>)"

definition putURL ::
    "string \<Rightarrow> payload option \<Rightarrow> (string, string) gomap option \<Rightarrow>
       (payload option \<times> int \<times> go_error option) op" where
  "putURL URL requestBody requestHeaders =
     bind_go (ask_env (\<lambda>e. http_new_request e ''PUT'' URL)) (\<lambda>err.
       case err of
         Some x \<Rightarrow> ret (None, -1, Some x)
       | None \<Rightarrow> do_and_read
           \<lparr>req_method = ''PUT'', req_url = URL,
            req_headers = (''Content-Type'', ''application/json'') # added_headers requestHeaders,
            req_body = requestBody\<rparr>)"

definition deleteURL ::
    "string \<Rightarrow> payload option \<Rightarrow> (string, string) gomap option \<Rightarrow>
       (payload option \<times> int \<times> go_error option) op" where
  "deleteURL URL requestBody requestHeaders =
     bind_go (ask_env (\<lambda>e. http_new_request e ''DELETE'' URL)) (\<lambda>err.
       case err of
         Some x \<Rightarrow> ret (None, -1, Some x)
       | None \<Rightarrow> do_and_read
           \<lparr>req_method = ''DELETE'', req_url = URL,
            req_headers = (''Content-Type'', ''application/json'') # added_headers requestHeaders,
            req_body = requestBody\<rparr>)"

lemma only_calls_do_and_read [calls_intros]: "only_calls (do_and_read req)"
proof -
  have "only_calls (case r of Inl err \<Rightarrow> ret (None, -1, Some err)
      | Inr (code, Inl err) \<Rightarrow> ret (None, code, Some err)
      | Inr (code, Inr data) \<Rightarrow> ret (Some data, code, None))" for r
    by (auto intro: calls_intros split: sum.split prod.split)
  then show ?thesis unfolding do_and_read_def by (intro calls_intros)
qed

lemma only_calls_getURL [calls_intros]: "only_calls (getURL URL hs)"
  unfolding getURL_def by (intro calls_intros)

lemma only_calls_postURL [calls_intros]: "only_calls (postURL URL b hs)"
  unfolding postURL_def by (intro calls_intros)

lemma only_calls_putURL [calls_intros]: "only_calls (putURL URL b hs)"
  unfolding putURL_def by (intro calls_intros)

lemma only_calls_deleteURL [calls_intros]: "only_calls (deleteURL URL b hs)"
  unfolding deleteURL_def by (intro calls_intros)

text \<open>
  The value a helper returns for a request, and the event it leaves behind, as functions of
  the environment and the history.
\<close>

definition reply :: "env \<Rightarrow> history \<Rightarrow> http_request \<Rightarrow> payload option \<times> int \<times> go_error option" where
  "reply e h req =
     (case http_new_request e (req_method req) (req_url req) of
        Some x \<Rightarrow> (None, -1, Some x)
      | None \<Rightarrow>
          (case http_client_do e h req of
             Inl err \<Rightarrow> (None, -1, Some err)
           | Inr (code, Inl err) \<Rightarrow> (None, code, Some err)
           | Inr (code, Inr data) \<Rightarrow> (Some data, code, None)))"

definition sent :: "env \<Rightarrow> http_request \<Rightarrow> event list" where
  "sent e req =
     (if http_new_request e (req_method req) (req_url req) = None then [HttpDo req] else [])"

lemma reply_error_iff_no_data:
  assumes "reply e h req = (data, code, err)"
  shows "data = None \<longleftrightarrow> err \<noteq> None"
proof (cases "http_new_request e (req_method req) (req_url req)")
  case (Some x)
  then have "reply e h req = (None, -1, Some x)" by (simp add: reply_def)
  with assms show ?thesis by auto
next
  case None
  with assms show ?thesis by (auto simp: reply_def split: sum.splits prod.splits)
qed

lemma reply_answered:
  "http_new_request e (req_method req) (req_url req) = None \<Longrightarrow>
   http_client_do e h req = Inr (code, Inr data) \<Longrightarrow> reply e h req = (Some data, code, None)"
  by (simp add: reply_def)

lemma sent_accepted [simp]:
  "http_new_request e (req_method req) (req_url req) = None \<Longrightarrow> sent e req = [HttpDo req]"
  by (simp add: sent_def)

lemma sent_length: "length (sent e req) \<le> 1"
  by (simp add: sent_def)

text \<open>
  What every client helper promises its callers, whichever method it uses: a URL that does
  not parse is reported without sending anything, otherwise the request is sent once and the
  response read.
\<close>

locale http_call =
  fixes call :: "string \<Rightarrow> payload option \<Rightarrow> (string, string) gomap option \<Rightarrow>
      (payload option \<times> int \<times> go_error option) op"
    and request_for :: "string \<Rightarrow> payload option \<Rightarrow> (string, string) gomap option \<Rightarrow> http_request"
  assumes request_url: "req_url (request_for u b hs) = u"
    and call_refused:
      "http_new_request e (req_method (request_for u b hs)) u = Some x \<Longrightarrow>
         call u b hs e s = (Ok (None, -1, Some x), s)"
    and call_sent:
      "http_new_request e (req_method (request_for u b hs)) u = None \<Longrightarrow>
         call u b hs e s = do_and_read (request_for u b hs) e s"
begin

lemma call_run:
  "call u b hs e s =
     (Ok (reply e (trace s) (request_for u b hs)),
      s\<lparr>trace := trace s @ sent e (request_for u b hs)\<rparr>)"
proof (cases "http_new_request e (req_method (request_for u b hs)) u")
  case (Some x)
  then show ?thesis by (simp add: call_refused reply_def sent_def request_url)
next
  case None
  then show ?thesis
    by (simp add: call_sent do_and_read_def reply_def sent_def request_url
        split: sum.split prod.split)
qed

lemma bind_call_run:
  "bind_go (call u b hs) f e s =
     f (reply e (trace s) (request_for u b hs)) e
       (s\<lparr>trace := trace s @ sent e (request_for u b hs)\<rparr>)"
  by (simp add: bind_go_def call_run)

lemma call_at_most_one_request:
  "call u b hs e s = (Ok r, t) \<Longrightarrow> \<exists>evs. t = s\<lparr>trace := trace s @ evs\<rparr> \<and> length evs \<le> 1"
  by (auto simp: call_run sent_def)

end

definition get_request :: "string \<Rightarrow> (string, string) gomap option \<Rightarrow> http_request" where
  "get_request u hs = \<lparr>req_method = ''GET'', req_url = u, req_headers = added_headers hs,
     req_body = None\<rparr>"

definition body_request ::
    "string \<Rightarrow> string \<Rightarrow> payload option \<Rightarrow> (string, string) gomap option \<Rightarrow> http_request" where
  "body_request m u b hs = \<lparr>req_method = m, req_url = u,
     req_headers = (''Content-Type'', ''application/json'') # added_headers hs, req_body = b\<rparr>"

interpretation get: http_call "\<lambda>u b hs. getURL u hs" "\<lambda>u b hs. get_request u hs"
  by unfold_locales (auto simp: getURL_def get_request_def)

interpretation post: http_call postURL "body_request ''POST''"
  by unfold_locales (auto simp: postURL_def body_request_def)

interpretation put: http_call putURL "body_request ''PUT''"
  by unfold_locales (auto simp: putURL_def body_request_def)

interpretation delete: http_call deleteURL "body_request ''DELETE''"
  by unfold_locales (auto simp: deleteURL_def body_request_def)

lemmas url_runs = get.bind_call_run post.bind_call_run put.bind_call_run delete.bind_call_run

text \<open>The only call a helper can make is the request it was asked for.\<close>

context http_call
begin

lemma emits_call:
  assumes "P (HttpDo (request_for u b hs))"
  shows "preserves (emits P s0) (call u b hs)"
  using assms by (intro preservesI) (auto simp: call_run sent_def intro: emits_more)

end

lemmas url_emits = get.emits_call post.emits_call put.emits_call delete.emits_call

lemma request_fields [simp]:
  "req_method (get_request u hs) = ''GET''" "req_url (get_request u hs) = u"
  "req_method (body_request m u b hs) = m" "req_url (body_request m u b hs) = u"
  "req_body (body_request m u b hs) = b"
  by (simp_all add: get_request_def body_request_def)

section \<open>Server side\<close>

record request =
  r_Method :: string
  r_URLPath :: string
  r_URLParam :: "string \<Rightarrow> string"
  r_Header :: "string \<Rightarrow> string"
  r_Body :: "go_error + payload"

record response_writer =
  w_headers :: "(string, string) gomap"
  w_status :: "int option"
  w_sent_headers :: "(string, string) gomap"
  w_body :: "json list"

definition new_writer :: response_writer where
  "new_writer = \<lparr>w_headers = [], w_status = None, w_sent_headers = [], w_body = []\<rparr>"

definition header_set :: "string \<Rightarrow> string \<Rightarrow> response_writer \<Rightarrow> response_writer" where
  "header_set k v w = w\<lparr>w_headers := map_set k v (w_headers w)\<rparr>"

definition write_header :: "int \<Rightarrow> response_writer \<Rightarrow> response_writer" where
  "write_header sc w =
     (if w_status w = None then w\<lparr>w_status := Some sc, w_sent_headers := w_headers w\<rparr> else w)"

text \<open>\<open>json.NewEncoder(w).Encode(data)\<close>: a write before any status implies 200.\<close>

definition encode_body :: "json \<Rightarrow> response_writer \<Rightarrow> response_writer" where
  "encode_body data w = (let w' = write_header 200 w in w'\<lparr>w_body := w_body w' @ [data]\<rparr>)"

definition SendResponseJSON :: "response_writer \<Rightarrow> int \<Rightarrow> json option \<Rightarrow> response_writer" where
  "SendResponseJSON w sc data =
     (let w' = write_header sc (header_set ''Content-Type'' ''application/json'' w)
      in case data of None \<Rightarrow> w' | Some d \<Rightarrow> encode_body d w')"

definition sendJSONError :: "response_writer \<Rightarrow> int \<Rightarrow> string \<Rightarrow> response_writer" where
  "sendJSONError w ecode message =
     (let httpCode = ecode;
          ecode' = (if 200 \<le> ecode \<and> ecode \<le> 299 then 0 else ecode)
      in SendResponseJSON w httpCode
           (Some (JObj [(''e'', enc_int ecode'), (''err_msg'', JStr message)])))"

text \<open>\<open>BaseResponse\<close>, the error body of the handlers.\<close>

definition base_response :: "string \<Rightarrow> json" where
  "base_response msg = JObj [(''message'', JStr msg)]"

text \<open>The guard every handler starts with.\<close>

definition not_allowed :: "string \<Rightarrow> request \<Rightarrow> response_writer \<Rightarrow> response_writer" where
  "not_allowed allow r w =
     sendJSONError (header_set ''Allow'' allow w) 405 (''('' @ r_Method r @ '') Not Allowed'')"

type_synonym handler = "request \<Rightarrow> response_writer \<Rightarrow> response_writer op"

text \<open>The status the client sees once the handler has returned.\<close>

definition final_status :: "response_writer \<Rightarrow> int" where
  "final_status w = (case w_status w of None \<Rightarrow> 200 | Some c \<Rightarrow> c)"

lemma write_header_status [simp]:
  "w_status (write_header sc w) = (case w_status w of None \<Rightarrow> Some sc | Some c \<Rightarrow> Some c)"
  by (simp add: write_header_def split: option.split)

lemma header_set_status [simp]:
  "w_status (header_set k v w) = w_status w" "w_body (header_set k v w) = w_body w"
  by (simp_all add: header_set_def)

lemma write_header_body [simp]: "w_body (write_header sc w) = w_body w"
  by (simp add: write_header_def)

lemma encode_body_body [simp]: "w_body (encode_body d w) = w_body w @ [d]"
  by (simp add: encode_body_def Let_def)

lemma encode_body_status [simp]:
  "w_status (encode_body d w) = (case w_status w of None \<Rightarrow> Some 200 | Some c \<Rightarrow> Some c)"
  by (simp add: encode_body_def Let_def)

lemma new_writer_status [simp]: "w_status new_writer = None" "w_body new_writer = []"
  by (simp_all add: new_writer_def)

lemma SendResponseJSON_status [simp]:
  "w_status (SendResponseJSON w sc d) = (case w_status w of None \<Rightarrow> Some sc | Some c \<Rightarrow> Some c)"
  by (simp add: SendResponseJSON_def Let_def split: option.split)

lemma SendResponseJSON_body [simp]:
  "w_body (SendResponseJSON w sc d) = w_body w @ (case d of None \<Rightarrow> [] | Some j \<Rightarrow> [j])"
  by (simp add: SendResponseJSON_def Let_def split: option.split)

lemma not_allowed_status [simp]: "w_status w = None \<Longrightarrow> w_status (not_allowed a r w) = Some 405"
  by (simp add: not_allowed_def sendJSONError_def Let_def)

end
