(* ===== verification/K8s.thy ===== *)
theory K8s
  imports Http_Utils
begin

text \<open>
  \<open>k8s.go\<close>: the \<open>K8Service\<close> interface as a record of operations, the \<open>K8Manager\<close> that
  implements it on top of a Kubernetes clientset, and the contract its clients rely on. The
  clientset itself (\<open>client-go\<close>) is a parameter: a record of the calls the operator makes.
\<close>

section \<open>Interface and implementation data\<close>

record k8Service =
  k8_printK8sInfo :: "unit op"
  k8_getReplicaCount :: "(int \<times> go_error option) op"
  k8_updateReplicaCount :: "int \<Rightarrow> unit op"
  k8_updateNodesPerPod :: "int \<Rightarrow> int \<Rightarrow> unit op"
  k8_getPodLocationAlias :: "string \<Rightarrow> (string \<times> go_error option) op"

text \<open>Only the presence of the configuration is ever inspected.\<close>

datatype rest_config = RestConfig

record pod =
  pod_NodeName :: string

record clientset =
  sts_Get :: "history \<Rightarrow> go_error + statefulSet"
  sts_Update :: "history \<Rightarrow> statefulSet \<Rightarrow> go_error + statefulSet"
  pods_Get :: "history \<Rightarrow> string \<Rightarrow> go_error + pod"
  pods_List :: "history \<Rightarrow> go_error + string list"

record k8Manager =
  k8_config :: "rest_config option"
  k8_clientset :: "clientset option"

text \<open>\<open>rest.InClusterConfig\<close> and \<open>kubernetes.NewForConfig\<close> are library calls, so arguments.\<close>

definition NewK8Manager ::
    "go_error + rest_config \<Rightarrow> (rest_config \<Rightarrow> go_error + clientset) \<Rightarrow> go_error + k8Manager" where
  "NewK8Manager inClusterConfig newForConfig =
     (case inClusterConfig of
        Inl err \<Rightarrow> Inl err
      | Inr config \<Rightarrow>
          (case newForConfig config of
             Inl err \<Rightarrow> Inl err
           | Inr cs \<Rightarrow> Inr \<lparr>k8_config = Some config, k8_clientset = Some cs\<rparr>))"

definition targetNodeFile :: string where
  "targetNodeFile = ''/var/log/console/TargetNodes.txt''"

text \<open>Conversion of an \<open>int\<close> to \<open>int32\<close> keeps the low 32 bits.\<close>

definition int32 :: "int \<Rightarrow> 32 word" where
  "int32 n = word_of_int n"

section \<open>Operations\<close>

definition initialized :: "k8Manager \<Rightarrow> clientset option" where
  "initialized k8s = (if k8_config k8s = None then None else k8_clientset k8s)"

definition printK8sInfo :: "k8Manager \<Rightarrow> unit op" where
  "printK8sInfo k8s =
     (case initialized k8s of
        None \<Rightarrow> ret ()
      | Some cs \<Rightarrow>
          then_go (syscall PodList (\<lambda>e h. pods_List cs h))
          (then_go (syscall (PodGet ''cray-console-node'')
                     (\<lambda>e h. pods_Get cs h ''cray-console-node''))
          (ret ())))"

text \<open>The three error branches of the source differ in their log line only.\<close>

definition getReplicaCount :: "k8Manager \<Rightarrow> (int \<times> go_error option) op" where
  "getReplicaCount k8s =
     (case k8_clientset k8s of
        None \<Rightarrow> raise_panic NilDeref
      | Some cs \<Rightarrow>
          bind_go (syscall StatefulSetGet (\<lambda>e h. sts_Get cs h)) (\<lambda>r.
            case r of
              Inl err \<Rightarrow> ret (-1, Some err)
            | Inr dep \<Rightarrow>
                (case Replicas dep of
                   None \<Rightarrow> raise_panic NilDeref
                 | Some n \<Rightarrow> ret (sint n, None))))"

definition updateReplicaCount :: "k8Manager \<Rightarrow> int \<Rightarrow> unit op" where
  "updateReplicaCount k8s newReplicaCnt =
     (case initialized k8s of
        None \<Rightarrow> ret ()
      | Some cs \<Rightarrow>
          bind_go (syscall StatefulSetGet (\<lambda>e h. sts_Get cs h)) (\<lambda>r.
            case r of
              Inl err \<Rightarrow> ret ()
            | Inr dep \<Rightarrow>
                (case Replicas dep of
                   None \<Rightarrow> raise_panic NilDeref
                 | Some currReplicas \<Rightarrow>
                     if int32 newReplicaCnt \<noteq> currReplicas then
                       (let dep' = dep\<lparr>Replicas := Some (int32 newReplicaCnt)\<rparr>
                        in bind_go (syscall (StatefulSetUpdate dep') (\<lambda>e h. sts_Update cs h dep'))
                             (\<lambda>u. case u of
                                Inl err \<Rightarrow> ret ()
                              | Inr newDep \<Rightarrow>
                                  (case Replicas newDep of
                                     None \<Rightarrow> raise_panic NilDeref
                                   | Some _ \<Rightarrow> modify (\<lambda>s. s\<lparr>numNodePods := newReplicaCnt\<rparr>))))
                     else modify (\<lambda>s. s\<lparr>numNodePods := newReplicaCnt\<rparr>))))"

text \<open>The bookkeeping after a failed file access: complain loudly after too many attempts.\<close>

definition file_access_failed :: "unit op" where
  "file_access_failed =
     bind_go (gets numFileErrors) (\<lambda>n.
       if n > 3 then raise_panic LogPanic
       else modify (\<lambda>s. s\<lparr>numFileErrors := numFileErrors s + 1\<rparr>))"

text \<open>\<open>WriteString\<close> on the open target file. The code looks at neither of its results.\<close>

definition write_string :: "string \<Rightarrow> go_error option op" where
  "write_string l =
     syscall (FileWriteString targetNodeFile l) (\<lambda>e h. file_write_string e h targetNodeFile l)"

definition write_target_file :: "int \<Rightarrow> int \<Rightarrow> unit op" where
  "write_target_file newNumMtn newNumRvr =
     bind_go (syscall (OsOpenFile targetNodeFile) (\<lambda>e h. os_open_file e h targetNodeFile)) (\<lambda>err.
       case err of
         Some x \<Rightarrow> file_access_failed
       | None \<Rightarrow>
           then_go (modify (\<lambda>s. s\<lparr>numFileErrors := 0\<rparr>))
           (then_go (write_string (''River:'' @ show_int newNumRvr @ [CHR 0x0A]))
           (then_go (write_string (''Mountain:'' @ show_int newNumMtn @ [CHR 0x0A]))
           (modify (\<lambda>s. s\<lparr>numMtnNodesPerPod := newNumMtn, numRvrNodesPerPod := newNumRvr\<rparr>)))))"

definition updateNodesPerPod :: "int \<Rightarrow> int \<Rightarrow> unit op" where
  "updateNodesPerPod newNumMtn newNumRvr =
     (let pos = LastIndex targetNodeFile (CHR ''/'')
      in if pos < 0 then ret ()
         else
           (let targetNodeDir = take (nat pos) targetNodeFile
            in bind_go (syscall (OsStat targetNodeDir) (\<lambda>e h. os_stat e h targetNodeDir)) (\<lambda>st.
                 if st = StatNotExist then
                   bind_go (syscall (OsMkdirAll targetNodeDir)
                              (\<lambda>e h. os_mkdir_all e h targetNodeDir)) (\<lambda>err.
                     case err of
                       Some x \<Rightarrow> file_access_failed
                     | None \<Rightarrow> write_target_file newNumMtn newNumRvr)
                 else write_target_file newNumMtn newNumRvr)))"

definition getPodLocationAlias :: "k8Manager \<Rightarrow> string \<Rightarrow> (string \<times> go_error option) op" where
  "getPodLocationAlias k8s podID =
     (case k8_clientset k8s of
        None \<Rightarrow> raise_panic NilDeref
      | Some cs \<Rightarrow>
          bind_go (syscall (PodGet podID) (\<lambda>e h. pods_Get cs h podID)) (\<lambda>r.
            case r of
              Inl err \<Rightarrow> ret ('''', Some err)
            | Inr p \<Rightarrow> ret (pod_NodeName p, None)))"

text \<open>\<open>*K8Manager\<close> as a value of the interface.\<close>

definition K8Manager_service :: "k8Manager \<Rightarrow> k8Service" where
  "K8Manager_service k8s = \<lparr>
     k8_printK8sInfo = printK8sInfo k8s,
     k8_getReplicaCount = getReplicaCount k8s,
     k8_updateReplicaCount = updateReplicaCount k8s,
     k8_updateNodesPerPod = updateNodesPerPod,
     k8_getPodLocationAlias = getPodLocationAlias k8s\<rparr>"

section \<open>The contract of the interface\<close>

text \<open>
  What the node and data managers rely on: which globals an operation may change and to
  which values, and what an error is paired with.
\<close>

locale k8_service =
  fixes k8 :: k8Service
  assumes getReplicaCount_frame:
      "\<exists>evs. snd (k8_getReplicaCount k8 e s) = s\<lparr>trace := trace s @ evs\<rparr>"
    and getReplicaCount_error:
      "k8_getReplicaCount k8 e s = (Ok (n, Some err), t) \<Longrightarrow> n = -1"
    and updateReplicaCount_frame:
      "\<exists>p evs. snd (k8_updateReplicaCount k8 n e s) = s\<lparr>numNodePods := p, trace := trace s @ evs\<rparr>
         \<and> p \<in> {n, numNodePods s}"
    and updateNodesPerPod_frame:
      "\<exists>m r c evs. snd (k8_updateNodesPerPod k8 mtn rvr e s) =
           s\<lparr>numMtnNodesPerPod := m, numRvrNodesPerPod := r, numFileErrors := c,
             trace := trace s @ evs\<rparr>
         \<and> (m, r) \<in> {(mtn, rvr), (numMtnNodesPerPod s, numRvrNodesPerPod s)}"
    and getPodLocationAlias_frame:
      "\<exists>evs. snd (k8_getPodLocationAlias k8 podID e s) = s\<lparr>trace := trace s @ evs\<rparr>"
    and getPodLocationAlias_error:
      "k8_getPodLocationAlias k8 podID e s = (Ok (loc, Some err), t) \<Longrightarrow> loc = ''''"
    and getReplicaCount_no_http: "preserves (emits not_http s0) (k8_getReplicaCount k8)"
    and updateReplicaCount_no_http: "preserves (emits not_http s0) (k8_updateReplicaCount k8 n)"
    and updateNodesPerPod_no_http: "preserves (emits not_http s0) (k8_updateNodesPerPod k8 mtn rvr)"
    and getPodLocationAlias_no_http: "preserves (emits not_http s0) (k8_getPodLocationAlias k8 podID)"
begin

lemma preserves_getReplicaCount:
  assumes "\<And>s t. I s \<Longrightarrow> I (s\<lparr>trace := t\<rparr>)"
  shows "preserves I (k8_getReplicaCount k8)"
  using getReplicaCount_frame assms by (metis preservesI)

lemma preserves_getPodLocationAlias:
  assumes "\<And>s t. I s \<Longrightarrow> I (s\<lparr>trace := t\<rparr>)"
  shows "preserves I (k8_getPodLocationAlias k8 podID)"
  using getPodLocationAlias_frame assms by (metis preservesI)

lemma preserves_updateReplicaCount:
  assumes "\<And>s p t. I s \<Longrightarrow> p \<in> {n, numNodePods s} \<Longrightarrow> I (s\<lparr>numNodePods := p, trace := t\<rparr>)"
  shows "preserves I (k8_updateReplicaCount k8 n)"
  using updateReplicaCount_frame assms by (metis preservesI)

lemma preserves_updateNodesPerPod:
  assumes "\<And>s m r c t. I s \<Longrightarrow> (m, r) \<in> {(mtn, rvr), (numMtnNodesPerPod s, numRvrNodesPerPod s)} \<Longrightarrow>
      I (s\<lparr>numMtnNodesPerPod := m, numRvrNodesPerPod := r, numFileErrors := c, trace := t\<rparr>)"
  shows "preserves I (k8_updateNodesPerPod k8 mtn rvr)"
proof (rule preservesI)
  fix e s
  assume "I s"
  obtain m r c evs where "snd (k8_updateNodesPerPod k8 mtn rvr e s) =
        s\<lparr>numMtnNodesPerPod := m, numRvrNodesPerPod := r, numFileErrors := c,
          trace := trace s @ evs\<rparr>"
      and "(m, r) \<in> {(mtn, rvr), (numMtnNodesPerPod s, numRvrNodesPerPod s)}"
    using updateNodesPerPod_frame by blast
  with \<open>I s\<close> assms show "I (snd (k8_updateNodesPerPod k8 mtn rvr e s))" by simp
qed

end

subsection \<open>The manager keeps the contract\<close>

lemma getReplicaCount_run:
  "getReplicaCount k8s e s =
     (case k8_clientset k8s of
        None \<Rightarrow> (Panic NilDeref, s)
      | Some cs \<Rightarrow>
          (case sts_Get cs (trace s) of
             Inl err \<Rightarrow> Ok (-1, Some err)
           | Inr dep \<Rightarrow>
               (case Replicas dep of None \<Rightarrow> Panic NilDeref | Some n \<Rightarrow> Ok (sint n, None)),
           s\<lparr>trace := trace s @ [StatefulSetGet]\<rparr>))"
  by (simp add: getReplicaCount_def split: option.split sum.split)

lemma updateReplicaCount_cases:
  "updateReplicaCount k8s n e s =
     (case initialized k8s of
        None \<Rightarrow> (Ok (), s)
      | Some cs \<Rightarrow>
          (let h1 = trace s @ [StatefulSetGet]
           in case sts_Get cs (trace s) of
             Inl err \<Rightarrow> (Ok (), s\<lparr>trace := h1\<rparr>)
           | Inr dep \<Rightarrow>
               (case Replicas dep of
                  None \<Rightarrow> (Panic NilDeref, s\<lparr>trace := h1\<rparr>)
                | Some cur \<Rightarrow>
                    if int32 n = cur then (Ok (), s\<lparr>numNodePods := n, trace := h1\<rparr>)
                    else
                      (let dep' = dep\<lparr>Replicas := Some (int32 n)\<rparr>;
                           h2 = h1 @ [StatefulSetUpdate dep']
                       in case sts_Update cs h1 dep' of
                            Inl err \<Rightarrow> (Ok (), s\<lparr>trace := h2\<rparr>)
                          | Inr d \<Rightarrow> (if Replicas d = None then (Panic NilDeref, s\<lparr>trace := h2\<rparr>)
                                      else (Ok (), s\<lparr>numNodePods := n, trace := h2\<rparr>))))))"
  by (cases s) (simp add: updateReplicaCount_def Let_def split: option.split sum.split)

text \<open>The globals after an update of the replica count.\<close>

definition replica_frame :: "int \<Rightarrow> op_state \<Rightarrow> op_state \<Rightarrow> bool" where
  "replica_frame n s t \<longleftrightarrow>
     (\<exists>p evs. t = s\<lparr>numNodePods := p, trace := trace s @ evs\<rparr> \<and> p \<in> {n, numNodePods s})"

lemma replica_frame_set: "replica_frame n s (s\<lparr>numNodePods := n, trace := trace s @ evs\<rparr>)"
  unfolding replica_frame_def by blast

lemma replica_frame_keep: "replica_frame n s (s\<lparr>trace := trace s @ evs\<rparr>)"
  unfolding replica_frame_def by (intro exI [of _ "numNodePods s"] exI [of _ evs]) simp

lemma replica_frame_same: "replica_frame n s s"
  using replica_frame_keep [of n s "[]"] by simp

lemma replica_frame_update: "replica_frame n s (snd (updateReplicaCount k8s n e s))"
  by (simp add: updateReplicaCount_cases Let_def replica_frame_same replica_frame_set
      replica_frame_keep split: option.split sum.split)

lemma file_access_failed_run:
  "file_access_failed e s =
     (if numFileErrors s > 3 then (Panic LogPanic, s)
      else (Ok (), s\<lparr>numFileErrors := numFileErrors s + 1\<rparr>))"
  by (simp add: file_access_failed_def)

lemma targetNodeDir_facts:
  "LastIndex targetNodeFile (CHR ''/'') = 16"
  "take 16 targetNodeFile = ''/var/log/console''"
  by (simp_all add: targetNodeFile_def)

text \<open>The two lines of the target file, in the order they are written.\<close>

definition target_lines :: "int \<Rightarrow> int \<Rightarrow> event list" where
  "target_lines mtn rvr =
     [FileWriteString targetNodeFile (''River:'' @ show_int rvr @ [CHR 0x0A]),
      FileWriteString targetNodeFile (''Mountain:'' @ show_int mtn @ [CHR 0x0A])]"

lemma write_target_file_run:
  "write_target_file mtn rvr e s =
     (let s1 = s\<lparr>trace := trace s @ [OsOpenFile targetNodeFile]\<rparr>
      in if os_open_file e (trace s) targetNodeFile = None
         then (Ok (), s\<lparr>numMtnNodesPerPod := mtn, numRvrNodesPerPod := rvr, numFileErrors := 0,
                         trace := trace s @ OsOpenFile targetNodeFile # target_lines mtn rvr\<rparr>)
         else file_access_failed e s1)"
  by (cases s) (simp add: write_target_file_def write_string_def Let_def target_lines_def split: option.split)

lemma updateNodesPerPod_run:
  "updateNodesPerPod mtn rvr e s =
     (let dir = ''/var/log/console'';
          s1 = s\<lparr>trace := trace s @ [OsStat dir]\<rparr>;
          s2 = s1\<lparr>trace := trace s1 @ [OsMkdirAll dir]\<rparr>
      in if os_stat e (trace s) dir \<noteq> StatNotExist then write_target_file mtn rvr e s1
         else if os_mkdir_all e (trace s1) dir = None then write_target_file mtn rvr e s2
         else file_access_failed e s2)"
  by (simp add: updateNodesPerPod_def targetNodeDir_facts Let_def split: option.split)

text \<open>Frames of the file operations.\<close>

definition target_frame :: "int \<Rightarrow> int \<Rightarrow> op_state \<Rightarrow> op_state \<Rightarrow> bool" where
  "target_frame mtn rvr s t \<longleftrightarrow>
     (\<exists>m r c evs. t = s\<lparr>numMtnNodesPerPod := m, numRvrNodesPerPod := r, numFileErrors := c,
                        trace := trace s @ evs\<rparr>
        \<and> (m, r) \<in> {(mtn, rvr), (numMtnNodesPerPod s, numRvrNodesPerPod s)})"

lemma target_frameI:
  "t = s\<lparr>numMtnNodesPerPod := m, numRvrNodesPerPod := r, numFileErrors := c, trace := trace s @ evs\<rparr> \<Longrightarrow>
   (m, r) \<in> {(mtn, rvr), (numMtnNodesPerPod s, numRvrNodesPerPod s)} \<Longrightarrow> target_frame mtn rvr s t"
  unfolding target_frame_def by blast

lemma target_frame_later:
  assumes "target_frame mtn rvr (s\<lparr>trace := trace s @ evs\<rparr>) t"
  shows "target_frame mtn rvr s t"
proof -
  from assms obtain m r c evs' where
    "t = s\<lparr>trace := trace s @ evs\<rparr>\<lparr>numMtnNodesPerPod := m, numRvrNodesPerPod := r,
           numFileErrors := c, trace := trace (s\<lparr>trace := trace s @ evs\<rparr>) @ evs'\<rparr>"
    and "(m, r) \<in> {(mtn, rvr), (numMtnNodesPerPod s, numRvrNodesPerPod s)}"
    unfolding target_frame_def by auto
  then show ?thesis by (intro target_frameI [where evs = "evs @ evs'"]) simp_all
qed

lemma target_frame_failed: "target_frame mtn rvr s (snd (file_access_failed e s))"
  by (rule target_frameI [where evs = "[]" and m = "numMtnNodesPerPod s"
        and r = "numRvrNodesPerPod s"
        and c = "if numFileErrors s > 3 then numFileErrors s else numFileErrors s + 1"])
    (simp_all add: file_access_failed_run)

lemma target_frame_write: "target_frame mtn rvr s (snd (write_target_file mtn rvr e s))"
proof (cases "os_open_file e (trace s) targetNodeFile = None")
  case True
  show ?thesis
    unfolding write_target_file_run Let_def if_P [OF True] snd_conv
    by (rule target_frameI [OF refl]) simp
next
  case False
  show ?thesis
    unfolding write_target_file_run Let_def if_not_P [OF False]
    by (rule target_frame_later, rule target_frame_failed)
qed

lemma target_frame_update: "target_frame mtn rvr s (snd (updateNodesPerPod mtn rvr e s))"
proof -
  let ?dir = "''/var/log/console''"
  have "target_frame mtn rvr (s\<lparr>trace := trace s @ evs\<rparr>)
      (snd (write_target_file mtn rvr e (s\<lparr>trace := trace s @ evs\<rparr>)))"
    and "target_frame mtn rvr (s\<lparr>trace := trace s @ evs\<rparr>)
      (snd (file_access_failed e (s\<lparr>trace := trace s @ evs\<rparr>)))" for evs
    by (rule target_frame_write, rule target_frame_failed)
  then have w: "target_frame mtn rvr s
      (snd (write_target_file mtn rvr e (s\<lparr>trace := trace s @ evs\<rparr>)))"
    and f: "target_frame mtn rvr s
      (snd (file_access_failed e (s\<lparr>trace := trace s @ evs\<rparr>)))" for evs
    by (blast intro: target_frame_later)+
  show ?thesis
    using w [of "[OsStat ?dir]"] w [of "[OsStat ?dir, OsMkdirAll ?dir]"]
      f [of "[OsStat ?dir, OsMkdirAll ?dir]"]
    by (simp add: updateNodesPerPod_run Let_def)
qed

lemmas k8s_emits = preserves_intros emits_syscall emits_modify

lemma emits_getReplicaCount: "preserves (emits not_http s0) (getReplicaCount k8s)"
  unfolding getReplicaCount_def by (intro k8s_emits) simp_all

lemma emits_getPodLocationAlias: "preserves (emits not_http s0) (getPodLocationAlias k8s podID)"
  unfolding getPodLocationAlias_def by (intro k8s_emits) simp_all

lemma emits_updateReplicaCount: "preserves (emits not_http s0) (updateReplicaCount k8s n)"
  unfolding updateReplicaCount_def Let_def by (intro k8s_emits) simp_all

lemma emits_file_access_failed: "preserves (emits not_http s0) file_access_failed"
  unfolding file_access_failed_def by (intro k8s_emits) simp_all

lemma emits_write_target_file: "preserves (emits not_http s0) (write_target_file mtn rvr)"
  unfolding write_target_file_def write_string_def
  by (intro k8s_emits emits_file_access_failed) simp_all

lemma emits_updateNodesPerPod: "preserves (emits not_http s0) (updateNodesPerPod mtn rvr)"
  unfolding updateNodesPerPod_def Let_def
  by (intro k8s_emits emits_file_access_failed emits_write_target_file) simp_all

interpretation k8m: k8_service "K8Manager_service k8s" for k8s
proof
  fix e s
  have "snd (getReplicaCount k8s e s) =
      s\<lparr>trace := trace s @ (if k8_clientset k8s = None then [] else [StatefulSetGet])\<rparr>"
    by (simp add: getReplicaCount_run split: option.split)
  then show "\<exists>evs. snd (k8_getReplicaCount (K8Manager_service k8s) e s) = s\<lparr>trace := trace s @ evs\<rparr>"
    unfolding K8Manager_service_def k8Service.select_convs by (rule exI)
next
  fix e s n err t
  assume "k8_getReplicaCount (K8Manager_service k8s) e s = (Ok (n, Some err), t)"
  then show "n = -1"
    by (auto simp: K8Manager_service_def getReplicaCount_run split: option.splits sum.splits)
next
  fix n e s
  show "\<exists>p evs. snd (k8_updateReplicaCount (K8Manager_service k8s) n e s) =
        s\<lparr>numNodePods := p, trace := trace s @ evs\<rparr> \<and> p \<in> {n, numNodePods s}"
    using replica_frame_update [of n s k8s e]
    by (simp only: K8Manager_service_def k8Service.select_convs replica_frame_def)
next
  fix mtn rvr e s
  show "\<exists>m r c evs. snd (k8_updateNodesPerPod (K8Manager_service k8s) mtn rvr e s) =
           s\<lparr>numMtnNodesPerPod := m, numRvrNodesPerPod := r, numFileErrors := c,
             trace := trace s @ evs\<rparr>
         \<and> (m, r) \<in> {(mtn, rvr), (numMtnNodesPerPod s, numRvrNodesPerPod s)}"
    using target_frame_update [of mtn rvr s e]
    by (simp only: K8Manager_service_def k8Service.select_convs target_frame_def)
next
  fix podID e s
  have "snd (getPodLocationAlias k8s podID e s) =
      s\<lparr>trace := trace s @ (if k8_clientset k8s = None then [] else [PodGet podID])\<rparr>"
    by (simp add: getPodLocationAlias_def split: option.split sum.split)
  then show "\<exists>evs. snd (k8_getPodLocationAlias (K8Manager_service k8s) podID e s) =
      s\<lparr>trace := trace s @ evs\<rparr>"
    unfolding K8Manager_service_def k8Service.select_convs by (rule exI)
next
  fix podID e s loc err t
  assume "k8_getPodLocationAlias (K8Manager_service k8s) podID e s = (Ok (loc, Some err), t)"
  then show "loc = ''''"
    by (auto simp: K8Manager_service_def getPodLocationAlias_def split: option.splits sum.splits)
qed (simp_all add: K8Manager_service_def emits_getReplicaCount emits_updateReplicaCount
    emits_updateNodesPerPod emits_getPodLocationAlias)

section \<open>Properties\<close>

text \<open>C23: Scaling succeeds. When the StatefulSet can be read and written, \<open>updateReplicaCount\<close> sends
  an update exactly when the current replica count differs from the requested one, asks for
  the requested count, changes nothing else of the StatefulSet, and records the new count in
  \<open>numNodePods\<close>; no other global changes.\<close>

theorem updateReplicaCount_scales:
  assumes "initialized k8s = Some cs"
    and "sts_Get cs (trace s) = Inr dep" and "Replicas dep = Some cur"
    and "sts_Update cs (trace s @ [StatefulSetGet]) (dep\<lparr>Replicas := Some (int32 n)\<rparr>) = Inr newDep"
    and "Replicas newDep = Some x"
  shows "updateReplicaCount k8s n e s =
    (Ok (), s\<lparr>numNodePods := n,
              trace := trace s @ StatefulSetGet #
                (if int32 n = cur then []
                 else [StatefulSetUpdate (dep\<lparr>Replicas := Some (int32 n)\<rparr>)])\<rparr>)"
  using assms by (simp add: updateReplicaCount_cases)

text \<open>A scripted API server for the witnesses: it stores the last StatefulSet it was sent.\<close>

fun stored :: "32 word \<Rightarrow> history \<Rightarrow> 32 word option" where
  "stored n [] = Some n"
| "stored n (StatefulSetUpdate d # h) =
     (case Replicas d of None \<Rightarrow> stored n h | Some m \<Rightarrow> stored m h)"
| "stored n (_ # h) = stored n h"

definition api_server :: "32 word \<Rightarrow> clientset" where
  "api_server n = \<lparr>
     sts_Get = (\<lambda>h. Inr \<lparr>Replicas = stored n h\<rparr>),
     sts_Update = (\<lambda>h d. Inr d),
     pods_Get = (\<lambda>h p. Inr \<lparr>pod_NodeName = ''ncn-w001''\<rparr>),
     pods_List = (\<lambda>h. Inr [])\<rparr>"

definition api_manager :: "32 word \<Rightarrow> k8Manager" where
  "api_manager n = \<lparr>k8_config = Some RestConfig, k8_clientset = Some (api_server n)\<rparr>"

definition quiet_env :: env where
  "quiet_env = \<lparr>
     http_new_request = (\<lambda>m u. None),
     http_client_do = (\<lambda>h r. Inl (TransportError ''no route'')),
     os_getenv = (\<lambda>v. ''''), time_now = (\<lambda>h. ''2024-12-19T00:00:00Z''),
     os_stat = (\<lambda>h p. StatOk), os_mkdir_all = (\<lambda>h p. None), os_open_file = (\<lambda>h p. None),
     file_write_string = (\<lambda>h p l. None),
     os_read_file = (\<lambda>h p. Inr ''key''), os_write_file = (\<lambda>h p c. None),
     exec_run = (\<lambda>h c. ('''', None)),
     os_find_process = (\<lambda>h p. None), process_wait = (\<lambda>h p. None),
     gjson_get = (\<lambda>b p. ''''), error_text = (\<lambda>x. ''error'')\<rparr>"

theorem updateReplicaCount_scales_witness:
  "updateReplicaCount (api_manager 3) 5 quiet_env init_state =
     (Ok (), init_state\<lparr>numNodePods := 5,
        trace := [StatefulSetGet, StatefulSetUpdate \<lparr>Replicas = Some 5\<rparr>]\<rparr>)"
  using updateReplicaCount_scales
    [of "api_manager 3" "api_server 3" init_state "\<lparr>Replicas = Some 3\<rparr>" 3 5 "\<lparr>Replicas = Some 5\<rparr>" 5 quiet_env]
  by (simp add: api_manager_def api_server_def initialized_def init_state_def int32_def)

text \<open>A failed scaling attempt is retried. If the StatefulSet cannot be read, or cannot be
  written, \<open>updateReplicaCount\<close> returns normally and leaves every global, \<open>numNodePods\<close>
  included, as it was.\<close>

lemma updateReplicaCount_failure_keeps_globals:
  assumes "initialized k8s = Some cs"
    and "sts_Get cs (trace s) = Inl err \<or>
      (\<exists>dep cur. sts_Get cs (trace s) = Inr dep \<and> Replicas dep = Some cur \<and> cur \<noteq> int32 n \<and>
         sts_Update cs (trace s @ [StatefulSetGet]) (dep\<lparr>Replicas := Some (int32 n)\<rparr>) = Inl err)"
  shows "\<exists>evs. updateReplicaCount k8s n e s = (Ok (), s\<lparr>trace := trace s @ evs\<rparr>)"
proof -
  from assms have "updateReplicaCount k8s n e s = (Ok (), s\<lparr>trace := trace s @ [StatefulSetGet]\<rparr>) \<or>
      (\<exists>d. updateReplicaCount k8s n e s =
         (Ok (), s\<lparr>trace := trace s @ [StatefulSetGet, StatefulSetUpdate d]\<rparr>))"
    by (auto simp: updateReplicaCount_cases)
  then show ?thesis by blast
qed

definition dead_server :: clientset where
  "dead_server = (api_server 3)\<lparr>sts_Get := (\<lambda>h. Inl (K8sOtherError ''timeout''))\<rparr>"

lemma stored_append: "stored n (h @ h') = (case stored n h of None \<Rightarrow> None | Some m \<Rightarrow> stored m h')"
  by (induction n h rule: stored.induct) (auto split: option.split)

lemma stored_Some: "\<exists>m. stored n h = Some m"
  by (induction n h rule: stored.induct) (auto split: option.split)

text \<open>What a Kubernetes API server promises about the replicas of the StatefulSet: a read leaves them as
  they are, and after an update that was answered without an error a read returns the replicas
  that were sent. Nothing is promised of an update that was answered with an error.\<close>

definition current_replicas :: "clientset \<Rightarrow> history \<Rightarrow> 32 word option" where
  "current_replicas cs h = (case sts_Get cs h of Inl err \<Rightarrow> None | Inr dep \<Rightarrow> Replicas dep)"

definition replicas_stored :: "clientset \<Rightarrow> bool" where
  "replicas_stored cs \<longleftrightarrow>
     (\<forall>h. current_replicas cs (h @ [StatefulSetGet]) = current_replicas cs h) \<and>
     (\<forall>h d d' m. sts_Update cs h d = Inr d' \<and> Replicas d = Some m \<longrightarrow>
        current_replicas cs (h @ [StatefulSetUpdate d]) = Some m \<and> Replicas d' = Some m)"

lemma replicas_storedD:
  assumes "replicas_stored cs"
  shows "current_replicas cs (h @ [StatefulSetGet]) = current_replicas cs h"
    and "sts_Update cs h d = Inr d' \<Longrightarrow> Replicas d = Some m \<Longrightarrow>
      current_replicas cs (h @ [StatefulSetUpdate d]) = Some m"
    and "sts_Update cs h d = Inr d' \<Longrightarrow> Replicas d = Some m \<Longrightarrow> Replicas d' = Some m"
  using assms unfolding replicas_stored_def by blast+

lemma getReplicaCount_current:
  assumes "initialized k8s = Some cs" and "current_replicas cs (trace s) = Some n"
  shows "getReplicaCount k8s e s = (Ok (sint n, None), s\<lparr>trace := trace s @ [StatefulSetGet]\<rparr>)"
  using assms
  by (auto simp: getReplicaCount_run current_replicas_def initialized_def split: sum.splits if_splits)

lemma sint_int32: "sint (int32 n) = n \<longleftrightarrow> - (2 ^ 31) \<le> n \<and> n < 2 ^ 31"
proof
  assume "sint (int32 n) = n"
  then show "- (2 ^ 31) \<le> n \<and> n < 2 ^ 31"
    using sint_range_size [of "int32 n"] by (simp add: word_size)
next
  assume "- (2 ^ 31) \<le> n \<and> n < 2 ^ 31"
  then show "sint (int32 n) = n"
    by (simp add: int32_def signed_of_int signed_take_bit_int_eq_self)
qed

text \<open>C24: The replica count survives the trip through Kubernetes. Against every API server that keeps
  the promise \<open>replicas_stored\<close>, whose StatefulSet can be read and which accepts the update, the
  count set by \<open>updateReplicaCount\<close> is read back by \<open>getReplicaCount\<close> as its value in 32 bits; that
  is the count itself exactly when it fits an \<open>int32\<close>, while \<open>numNodePods\<close> records the count
  before the conversion in any case.\<close>

theorem replica_count_roundtrip:
  assumes "initialized k8s = Some cs" and "replicas_stored cs"
    and "sts_Get cs (trace s) = Inr dep" and "Replicas dep = Some cur"
    and "sts_Update cs (trace s @ [StatefulSetGet]) (dep\<lparr>Replicas := Some (int32 n)\<rparr>) = Inr newDep"
  shows "\<exists>t. bind_go (updateReplicaCount k8s n) (\<lambda>_. getReplicaCount k8s) e s =
      (Ok (sint (int32 n), None), t) \<and> numNodePods t = n \<and>
    (sint (int32 n) = n \<longleftrightarrow> - (2 ^ 31) \<le> n \<and> n < 2 ^ 31)"
proof -
  note laws = replicas_storedD [OF assms(2)]
  let ?d = "dep\<lparr>Replicas := Some (int32 n)\<rparr>"
  let ?evs = "StatefulSetGet # (if int32 n = cur then [] else [StatefulSetUpdate ?d])"
  let ?t = "s\<lparr>numNodePods := n, trace := trace s @ ?evs\<rparr>"
  have "Replicas newDep = Some (int32 n)" using laws(3) [OF assms(5)] by simp
  then have up: "updateReplicaCount k8s n e s = (Ok (), ?t)"
    using assms by (simp add: updateReplicaCount_cases)
  have "current_replicas cs (trace s) = Some cur" using assms(3,4) by (simp add: current_replicas_def)
  then have "current_replicas cs (trace ?t) = Some (int32 n)"
    using laws(1) [of "trace s"] laws(2) [OF assms(5)] by simp
  from getReplicaCount_current [OF assms(1) this, of e] up sint_int32 show ?thesis
    by (simp add: bind_go_def)
qed

lemma api_server_stores: "replicas_stored (api_server k)"
proof -
  have "stored k h = None \<longleftrightarrow> False" for h using stored_Some [of k h] by auto
  then show ?thesis
    by (auto simp: replicas_stored_def current_replicas_def api_server_def stored_append
        simp del: not_None_eq split: option.split)
qed

theorem replica_count_roundtrip_witness:
  "\<exists>t. bind_go (updateReplicaCount (api_manager 3) 7) (\<lambda>_. getReplicaCount (api_manager 3))
     quiet_env init_state = (Ok (7, None), t)"
  using replica_count_roundtrip [OF _ api_server_stores [of 3], of "api_manager 3" init_state
      "\<lparr>Replicas = Some 3\<rparr>" 3 7 "\<lparr>Replicas = Some 7\<rparr>" quiet_env]
  by (auto simp: api_manager_def api_server_def initialized_def init_state_def int32_def)

text \<open>The last of the calls made is an attempt to open the file or to create its directory, and it was
  answered with an error.\<close>

definition file_call_failed :: "env \<Rightarrow> history \<Rightarrow> event list \<Rightarrow> bool" where
  "file_call_failed e h evs \<longleftrightarrow>
     (\<exists>pre. evs = pre @ [OsOpenFile targetNodeFile] \<and> os_open_file e (h @ pre) targetNodeFile \<noteq> None) \<or>
     (\<exists>pre. evs = pre @ [OsMkdirAll ''/var/log/console''] \<and> os_mkdir_all e (h @ pre) ''/var/log/console'' \<noteq> None)"

lemma target_lines_not_failed: "\<not> file_call_failed e h (pre @ target_lines mtn rvr)"
  by (auto simp: file_call_failed_def target_lines_def append_eq_append_conv2 Cons_eq_append_conv append_eq_Cons_conv)

text \<open>C25: The target file and the recorded targets. \<open>updateNodesPerPod\<close> records the numbers in the
  globals exactly when the file was opened: then the calls made are checks of the directory, the
  opening (which truncates) and the writing of the River line and the Mountain line with the
  given numbers, and the error count is cleared. Otherwise its last call, the creation of the
  directory or the opening, was answered with an error, no line was written, no target changed,
  and the failure is counted, with a panic after more than three earlier ones. The answers to
  the two writes play no role: the numbers are recorded although a write failed, unlike the
  comment says.\<close>

theorem updateNodesPerPod_writes:
  "\<exists>evs. if file_call_failed e (trace s) evs
    then set evs \<subseteq> {OsStat ''/var/log/console'', OsMkdirAll ''/var/log/console'', OsOpenFile targetNodeFile} \<and>
      updateNodesPerPod mtn rvr e s =
        (if numFileErrors s > 3 then (Panic LogPanic, s\<lparr>trace := trace s @ evs\<rparr>)
         else (Ok (), s\<lparr>numFileErrors := numFileErrors s + 1, trace := trace s @ evs\<rparr>))
    else (\<exists>pre. evs = pre @ [OsOpenFile targetNodeFile,
              FileWriteString targetNodeFile (''River:'' @ show_int rvr @ [CHR 0x0A]),
              FileWriteString targetNodeFile (''Mountain:'' @ show_int mtn @ [CHR 0x0A])] \<and>
            set pre \<subseteq> {OsStat ''/var/log/console'', OsMkdirAll ''/var/log/console''} \<and>
            os_open_file e (trace s @ pre) targetNodeFile = None) \<and>
      updateNodesPerPod mtn rvr e s =
        (Ok (), s\<lparr>numMtnNodesPerPod := mtn, numRvrNodesPerPod := rvr, numFileErrors := 0,
           trace := trace s @ evs\<rparr>)"
proof -
  let ?dir = "''/var/log/console''" and ?op = "OsOpenFile targetNodeFile"
  let ?ok = "\<lambda>pre. set pre \<subseteq> {OsStat ?dir, OsMkdirAll ?dir}"
  have written: ?thesis if "?ok pre" and "os_open_file e (trace s @ pre) targetNodeFile = None"
    and "updateNodesPerPod mtn rvr e s = write_target_file mtn rvr e (s\<lparr>trace := trace s @ pre\<rparr>)" for pre
    using that target_lines_not_failed [of e "trace s" "pre @ [?op]" mtn rvr]
    by (intro exI [of _ "pre @ ?op # target_lines mtn rvr"]) (simp add: write_target_file_run target_lines_def)
  have refused: ?thesis if "file_call_failed e (trace s) evs" and "set evs \<subseteq> {OsStat ?dir, OsMkdirAll ?dir, ?op}"
    and "updateNodesPerPod mtn rvr e s = file_access_failed e (s\<lparr>trace := trace s @ evs\<rparr>)" for evs
    using that by (intro exI [of _ evs]) (cases s, simp add: file_access_failed_run)
  have opened: ?thesis if "?ok pre"
    and "updateNodesPerPod mtn rvr e s = write_target_file mtn rvr e (s\<lparr>trace := trace s @ pre\<rparr>)" for pre
  proof (cases "os_open_file e (trace s @ pre) targetNodeFile = None")
    case True
    show ?thesis using that(1) True that(2) by (rule written)
  next
    case False
    with that show ?thesis
      by (intro refused [of "pre @ [?op]"]) (auto simp: file_call_failed_def write_target_file_run)
  qed
  let ?h = "trace s @ [OsStat ?dir]"
  consider "os_stat e (trace s) ?dir \<noteq> StatNotExist"
    | "os_stat e (trace s) ?dir = StatNotExist" "os_mkdir_all e ?h ?dir = None"
    | "os_stat e (trace s) ?dir = StatNotExist" "os_mkdir_all e ?h ?dir \<noteq> None" by blast
  then show ?thesis
  proof cases
    case 1
    then show ?thesis by (intro opened [of "[OsStat ?dir]"]) (simp_all add: updateNodesPerPod_run Let_def)
  next
    case 2
    then show ?thesis
      by (intro opened [of "[OsStat ?dir, OsMkdirAll ?dir]"]) (simp_all add: updateNodesPerPod_run Let_def)
  next
    case 3
    then show ?thesis
      by (intro refused [of "[OsStat ?dir, OsMkdirAll ?dir]"])
        (auto simp: updateNodesPerPod_run file_call_failed_def Let_def)
  qed
qed

text \<open>Repeating an operation, as the periodic hardware check does.\<close>

primrec repeat_op :: "nat \<Rightarrow> unit op \<Rightarrow> unit op" where
  "repeat_op 0 m = ret ()"
| "repeat_op (Suc n) m = bind_go m (\<lambda>_. repeat_op n m)"

definition target_file_locked :: "env \<Rightarrow> bool" where
  "target_file_locked e \<longleftrightarrow>
     (\<forall>h. os_stat e h ''/var/log/console'' = StatOk \<and> os_open_file e h targetNodeFile \<noteq> None)"

lemma updateNodesPerPod_locked:
  assumes "target_file_locked e"
  shows "\<exists>h. updateNodesPerPod mtn rvr e s =
    (if numFileErrors s > 3 then (Panic LogPanic, s\<lparr>trace := h\<rparr>)
     else (Ok (), s\<lparr>numFileErrors := numFileErrors s + 1, trace := h\<rparr>))"
proof -
  from assms have st: "os_stat e h ''/var/log/console'' = StatOk"
    and op: "(os_open_file e h targetNodeFile = None) = False" for h
    by (auto simp: target_file_locked_def)
  show ?thesis
    by (intro exI [of _ "trace s @ [OsStat ''/var/log/console'', OsOpenFile targetNodeFile]"], cases s)
      (simp add: updateNodesPerPod_run write_target_file_run file_access_failed_run Let_def st op
        del: not_None_eq)
qed

text \<open>C26: Persistent file errors end the program, but only after four tolerated failures. While the
  target file cannot be opened, each attempt leaves the targets alone and counts one failure;
  \<open>n\<close> attempts return normally for \<open>n \<le> 4\<close>, and from the fifth on the operator panics.\<close>

theorem updateNodesPerPod_gives_up:
  assumes "target_file_locked e" and "0 \<le> numFileErrors s"
  shows "fst (repeat_op n (updateNodesPerPod mtn rvr) e s) =
    (if int n + numFileErrors s \<le> 4 \<or> n = 0 then Ok () else Panic LogPanic)"
  using assms(2)
proof (induction n arbitrary: s)
  case 0
  then show ?case by simp
next
  case (Suc n)
  obtain h where h: "updateNodesPerPod mtn rvr e s =
    (if numFileErrors s > 3 then (Panic LogPanic, s\<lparr>trace := h\<rparr>)
     else (Ok (), s\<lparr>numFileErrors := numFileErrors s + 1, trace := h\<rparr>))"
    using updateNodesPerPod_locked [OF assms(1)] by blast
  show ?case
  proof (cases "numFileErrors s > 3")
    case True
    with h show ?thesis by (simp add: bind_go_run)
  next
    case False
    let ?t = "s\<lparr>numFileErrors := numFileErrors s + 1, trace := h\<rparr>"
    have "fst (repeat_op n (updateNodesPerPod mtn rvr) e ?t) =
      (if int n + numFileErrors ?t \<le> 4 \<or> n = 0 then Ok () else Panic LogPanic)"
      using Suc.prems by (intro Suc.IH) simp
    with h False show ?thesis by (auto simp: bind_go_run)
  qed
qed

definition locked_env :: env where
  "locked_env = quiet_env\<lparr>os_open_file := (\<lambda>h p. Some (OsError ''permission denied''))\<rparr>"

theorem updateNodesPerPod_gives_up_witness:
  "fst (repeat_op 4 (updateNodesPerPod 10 20) locked_env init_state) = Ok () \<and>
   fst (repeat_op 5 (updateNodesPerPod 10 20) locked_env init_state) = Panic LogPanic"
proof -
  have "target_file_locked locked_env" and "0 \<le> numFileErrors init_state"
    by (simp_all add: target_file_locked_def locked_env_def quiet_env_def init_state_def)
  from updateNodesPerPod_gives_up [OF this, of 4 10 20] updateNodesPerPod_gives_up [OF this, of 5 10 20]
  show ?thesis by (simp add: init_state_def)
qed

end
