(* ===== verification/Sls.thy ===== *)
theory Sls
  imports K8s
begin

text \<open>
  \<open>sls.go\<close>: the table of node aliases kept by the system layout service (SLS). The reply is
  decoded to generic maps and picked apart with type assertions, so its shape decides whether
  the handler that asked for it survives: the unchecked assertions panic.
\<close>

section \<open>Interface and data\<close>

record xnameNodeAlias =
  xa_xname :: string
  xa_alias :: string

record slsService =
  sls_getXnameAlias :: "(xnameNodeAlias list \<times> go_error option) op"

record slsManager =
  baseUrl :: string

section \<open>Reading the table\<close>

text \<open>An object decoded to \<open>map[string]interface{}\<close>.\<close>

definition go_map_of :: "(string \<times> json) list \<Rightarrow> (string, json) gomap" where
  "go_map_of kvs = fst (dec_map (JObj kvs) [])"

text \<open>\<open>epMap["Aliases"].([]interface{})\<close> with the check: any other value leaves the slice nil.\<close>

definition aliases_of :: "(string, json) gomap \<Rightarrow> json list" where
  "aliases_of epMap =
     (case map_of epMap ''Aliases'' of Some (JArr xs) \<Rightarrow> xs | _ \<Rightarrow> [])"

text \<open>The loop body; a nil slice and an empty one are skipped alike.\<close>

definition add_element ::
    "(string, json) gomap \<Rightarrow> xnameNodeAlias list \<Rightarrow> xnameNodeAlias list op" where
  "add_element element xnameAlias =
     (case map_of element ''Xname'' of
        Some (JStr xn) \<Rightarrow>
          bind_go
            (case map_of element ''ExtraProperties'' of
               None \<Rightarrow> ret []
             | Some (JObj kvs) \<Rightarrow> ret (aliases_of (go_map_of kvs))
             | Some _ \<Rightarrow> raise_panic TypeAssertion)
            (\<lambda>aliases.
               if xn \<noteq> '''' \<and> aliases \<noteq> [] then
                 (case hd aliases of
                    JStr a \<Rightarrow> ret (xnameAlias @ [\<lparr>xa_xname = xn, xa_alias = a\<rparr>])
                  | _ \<Rightarrow> raise_panic TypeAssertion)
               else ret xnameAlias)
      | _ \<Rightarrow> raise_panic TypeAssertion)"

definition getXnameAlias :: "slsManager \<Rightarrow> (xnameNodeAlias list \<times> go_error option) op" where
  "getXnameAlias sls =
     (let hwUrl = baseUrl sls @ ''/hardware''
      in bind_go (getURL hwUrl None) (\<lambda>(data, _, err).
           case err of
             Some x \<Rightarrow> ret ([], Some x)
           | None \<Rightarrow>
               (let slsRespMap = fst (unmarshal (dec_slice [] dec_map) [] data)
                in bind_go (for_range slsRespMap [] add_element)
                     (\<lambda>xnameAlias. ret (xnameAlias, None)))))"

definition NewSlsManager :: slsManager where
  "NewSlsManager = \<lparr>baseUrl = ''http://cray-sls/v1''\<rparr>"

definition SlsManager_service :: "slsManager \<Rightarrow> slsService" where
  "SlsManager_service sls = \<lparr>sls_getXnameAlias = getXnameAlias sls\<rparr>"

section \<open>Reference definition\<close>

text \<open>The entry an element contributes: \<open>Inl\<close> if an assertion fails on it.\<close>

definition element_entry :: "(string, json) gomap \<Rightarrow> unit + xnameNodeAlias option" where
  "element_entry element =
     (case map_of element ''Xname'' of
        Some (JStr xn) \<Rightarrow>
          (case map_of element ''ExtraProperties'' of
             None \<Rightarrow> Inr None
           | Some (JObj kvs) \<Rightarrow>
               (case (xn, aliases_of (go_map_of kvs)) of
                  ([], _) \<Rightarrow> Inr None
                | (_, []) \<Rightarrow> Inr None
                | (_, JStr a # _) \<Rightarrow> Inr (Some \<lparr>xa_xname = xn, xa_alias = a\<rparr>)
                | _ \<Rightarrow> Inl ())
           | Some _ \<Rightarrow> Inl ())
      | _ \<Rightarrow> Inl ())"

definition bad_element :: "(string, json) gomap \<Rightarrow> bool" where
  "bad_element element \<longleftrightarrow> element_entry element = Inl ()"

definition entry_list :: "(string, json) gomap \<Rightarrow> xnameNodeAlias list" where
  "entry_list element = (case element_entry element of Inr (Some x) \<Rightarrow> [x] | _ \<Rightarrow> [])"

lemma add_element_run:
  "add_element element acc e s =
     (if bad_element element then (Panic TypeAssertion, s) else (Ok (acc @ entry_list element), s))"
  by (simp add: add_element_def bad_element_def entry_list_def element_entry_def bind_go_run
      split: option.split json.split list.split)

lemma element_loop:
  "for_range els acc add_element e s =
     (if list_ex bad_element els then (Panic TypeAssertion, s)
      else (Ok (acc @ concat (map entry_list els)), s))"
  by (induction els arbitrary: acc) (auto simp: bind_go_run add_element_run)

abbreviation sls_request :: "slsManager \<Rightarrow> http_request" where
  "sls_request sls \<equiv> get_request (baseUrl sls @ ''/hardware'') None"

definition sls_elements :: "payload option \<Rightarrow> (string, json) gomap list" where
  "sls_elements data = fst (unmarshal (dec_slice [] dec_map) [] data)"

lemma getXnameAlias_run:
  "getXnameAlias sls e s =
     (case reply e (trace s) (sls_request sls) of
        (data, _, Some x) \<Rightarrow> Ok ([], Some x)
      | (data, _, None) \<Rightarrow>
          (if list_ex bad_element (sls_elements data) then Panic TypeAssertion
           else Ok (concat (map entry_list (sls_elements data)), None)),
      s\<lparr>trace := trace s @ sent e (sls_request sls)\<rparr>)"
  by (simp add: getXnameAlias_def Let_def bind_go_def get.call_run element_loop sls_elements_def
      split: prod.split option.split)

section \<open>The contract of the interface\<close>

locale sls_service =
  fixes sls :: slsService
  assumes getXnameAlias_frame:
      "\<exists>evs. snd (sls_getXnameAlias sls e s) = s\<lparr>trace := trace s @ evs\<rparr>"
    and getXnameAlias_error:
      "sls_getXnameAlias sls e s = (Ok (xs, Some err), t) \<Longrightarrow> xs = []"
    and getXnameAlias_named:
      "sls_getXnameAlias sls e s = (Ok (xs, None), t) \<Longrightarrow> x \<in> set xs \<Longrightarrow> xa_xname x \<noteq> ''''"
    and getXnameAlias_reads: "preserves (emits read_only s0) (sls_getXnameAlias sls)"
begin

lemma preserves_getXnameAlias:
  assumes "\<And>s t. I s \<Longrightarrow> I (s\<lparr>trace := t\<rparr>)"
  shows "preserves I (sls_getXnameAlias sls)"
  using getXnameAlias_frame assms by (metis preservesI)

end

lemma entry_list_named: "x \<in> set (entry_list el) \<Longrightarrow> xa_xname x \<noteq> ''''"
  by (auto simp: entry_list_def element_entry_def
      split: sum.splits option.splits json.splits list.splits)

interpretation slsm: sls_service "SlsManager_service sls" for sls
proof
  fix e s
  show "\<exists>evs. snd (sls_getXnameAlias (SlsManager_service sls) e s) = s\<lparr>trace := trace s @ evs\<rparr>"
    by (rule exI [of _ "sent e (sls_request sls)"]) (simp add: SlsManager_service_def getXnameAlias_run)
next
  fix e s xs err t
  assume "sls_getXnameAlias (SlsManager_service sls) e s = (Ok (xs, Some err), t)"
  then show "xs = []"
    by (auto simp: SlsManager_service_def getXnameAlias_run split: prod.splits option.splits if_splits)
next
  fix e s xs t x
  assume "sls_getXnameAlias (SlsManager_service sls) e s = (Ok (xs, None), t)" and "x \<in> set xs"
  then show "xa_xname x \<noteq> ''''"
    by (auto simp: SlsManager_service_def getXnameAlias_run entry_list_named
        split: prod.splits option.splits if_splits)
next
  fix s0
  show "preserves (emits read_only s0) (sls_getXnameAlias (SlsManager_service sls))"
    by (rule preservesI)
      (auto simp: SlsManager_service_def getXnameAlias_run sent_def intro: emits_more)
qed

section \<open>Documents of the layout service\<close>

lemma map_of_go_map_of: "map_of (go_map_of kvs) k = map_of (rev kvs) k"
proof -
  have "map_of (fold (\<lambda>(k, x) m. map_set k x m) kvs m) k =
      (case map_of (rev kvs) k of Some x \<Rightarrow> Some x | None \<Rightarrow> map_of m k)" for m
    by (induction kvs arbitrary: m)
      (auto simp: update_conv' map_of_append map_add_def split: option.splits)
  then show ?thesis by (simp add: go_map_of_def dec_map_def split: option.split)
qed

text \<open>
  The part of SLS's \<open>GenericHardware\<close> that matters: the name, the aliases if the extra
  properties have any, and whatever other members the two objects carry.
\<close>

record genericHardware =
  gh_Xname :: string
  gh_Other :: "(string \<times> json) list"
  gh_Aliases :: "string list option"
  gh_Extra :: "(string \<times> json) list"

definition enc_gh :: "genericHardware \<Rightarrow> json" where
  "enc_gh h = JObj (gh_Other h @
     [(''Xname'', JStr (gh_Xname h)),
      (''ExtraProperties'', JObj (gh_Extra h @
         (case gh_Aliases h of None \<Rightarrow> [] | Some as \<Rightarrow> [(''Aliases'', JArr (map JStr as))])))])"

definition sls_doc :: "genericHardware list \<Rightarrow> payload" where
  "sls_doc hs = Json (JArr (map enc_gh hs))"

definition has_alias :: "genericHardware \<Rightarrow> bool" where
  "has_alias h \<longleftrightarrow> gh_Xname h \<noteq> '''' \<and> gh_Aliases h \<noteq> None \<and> gh_Aliases h \<noteq> Some []"

definition alias_entry :: "genericHardware \<Rightarrow> xnameNodeAlias" where
  "alias_entry h = \<lparr>xa_xname = gh_Xname h, xa_alias = hd (the (gh_Aliases h))\<rparr>"

definition gh_map :: "genericHardware \<Rightarrow> (string, json) gomap" where
  "gh_map h = fst (dec_map (enc_gh h) [])"

lemma sls_elements_doc: "sls_elements (Some (sls_doc hs)) = map gh_map hs"
  by (simp add: sls_elements_def sls_doc_def unmarshal_def dec_slice_def gh_map_def case_prod_unfold)

lemma aliases_of_gh:
  assumes "''Aliases'' \<notin> fst ` set (gh_Extra h)"
  shows "aliases_of (go_map_of (gh_Extra h @
      (case gh_Aliases h of None \<Rightarrow> [] | Some as \<Rightarrow> [(''Aliases'', JArr (map JStr as))]))) =
    (case gh_Aliases h of None \<Rightarrow> [] | Some as \<Rightarrow> map JStr as)"
proof -
  have "map_of (rev (gh_Extra h)) ''Aliases'' = None"
    using assms by (simp add: map_of_eq_None_iff)
  then show ?thesis by (simp add: aliases_of_def map_of_go_map_of map_of_append split: option.split)
qed

lemma element_entry_gh:
  assumes "''Aliases'' \<notin> fst ` set (gh_Extra h)"
  shows "element_entry (gh_map h) = Inr (if has_alias h then Some (alias_entry h) else None)"
proof -
  have "gh_map h = go_map_of (gh_Other h @ [(''Xname'', JStr (gh_Xname h)), (''ExtraProperties'',
      JObj (gh_Extra h @ (case gh_Aliases h of None \<Rightarrow> [] | Some as \<Rightarrow> [(''Aliases'', JArr (map JStr as))])))])"
    by (simp add: gh_map_def enc_gh_def go_map_of_def)
  then show ?thesis
    by (auto simp: element_entry_def map_of_go_map_of aliases_of_gh [OF assms] has_alias_def
        alias_entry_def split: list.splits option.splits)
qed

lemma getXnameAlias_entries:
  assumes "reply e (trace s) (sls_request sls) = (Some (sls_doc hs), c, None)"
    and "\<forall>h \<in> set hs. ''Aliases'' \<notin> fst ` set (gh_Extra h)"
  shows "fst (getXnameAlias sls e s) =
    Ok (map (\<lambda>h. \<lparr>xa_xname = gh_Xname h, xa_alias = hd (the (gh_Aliases h))\<rparr>)
          (filter (\<lambda>h. gh_Xname h \<noteq> '''' \<and> gh_Aliases h \<noteq> None \<and> gh_Aliases h \<noteq> Some []) hs), None)"
proof -
  have "\<not> list_ex bad_element (map gh_map hs)"
    using assms(2) by (auto simp: list_ex_iff bad_element_def element_entry_gh)
  moreover have "concat (map entry_list (map gh_map hs)) = map alias_entry (filter has_alias hs)"
    using assms(2) by (induction hs) (auto simp: entry_list_def element_entry_gh)
  ultimately show ?thesis
    using assms(1)
    by (simp add: getXnameAlias_run sls_elements_doc alias_entry_def has_alias_def cong: filter_cong)
qed

text \<open>C27: The alias table. If SLS answers with hardware elements whose extra properties name their
  aliases at most once, \<open>getXnameAlias\<close> returns, in the order of the reply, one pair of name
  and first alias for every element that has a name and at least one alias, and nothing for
  the other elements, whatever other members the elements have.\<close>

theorem getXnameAlias_table:
  assumes "reply e (trace s) (sls_request sls) = (Some (sls_doc hs), c, None)"
    and "\<forall>h \<in> set hs. ''Aliases'' \<notin> fst ` set (gh_Extra h)"
  shows "fst (getXnameAlias sls e s) =
    Ok (map (\<lambda>h. \<lparr>xa_xname = gh_Xname h, xa_alias = hd (the (gh_Aliases h))\<rparr>)
          (filter (\<lambda>h. gh_Xname h \<noteq> '''' \<and> gh_Aliases h \<noteq> None \<and> gh_Aliases h \<noteq> Some []) hs), None)"
  using assms by (rule getXnameAlias_entries)

text \<open>The elements of the mock reply in \<open>sls_test.go\<close>: four elements, two with an alias.\<close>

definition slsHardwareMock :: "genericHardware list" where
  "slsHardwareMock =
     [\<lparr>gh_Xname = ''x3000c0s17b1n0'',
       gh_Other = [(''Parent'', JStr ''x3000c0s17b1''), (''Type'', JStr ''comptype_node''),
         (''Class'', JStr ''River''), (''TypeString'', JStr ''Node''), (''LastUpdated'', JNum ''1672845536'')],
       gh_Aliases = Some [''nid000001''], gh_Extra = [(''NID'', JNum ''1''), (''Role'', JStr ''Compute'')]\<rparr>,
      \<lparr>gh_Xname = ''x3000c0w14j25'', gh_Other = [(''Parent'', JStr ''x3000c0w14'')],
       gh_Aliases = None,
       gh_Extra = [(''NodeNics'', JArr [JStr ''x3000c0s2b0'']), (''VendorName'', JStr ''1/1/25'')]\<rparr>,
      \<lparr>gh_Xname = ''x3000c0w14j36'', gh_Other = [(''Parent'', JStr ''x3000c0w14'')],
       gh_Aliases = None,
       gh_Extra = [(''NodeNics'', JArr [JStr ''x3000c0s17b1'']), (''VendorName'', JStr ''1/1/36'')]\<rparr>,
      \<lparr>gh_Xname = ''x3000c0s19b0n0'', gh_Other = [(''Parent'', JStr ''x3000c0s19b0'')],
       gh_Aliases = Some [''uan01''],
       gh_Extra = [(''Role'', JStr ''Application''), (''SubRole'', JStr ''UAN'')]\<rparr>]"

definition sls_env :: env where
  "sls_env = quiet_env\<lparr>http_client_do := (\<lambda>h r. Inr (200, Inr (sls_doc slsHardwareMock)))\<rparr>"

theorem getXnameAlias_table_witness:
  "fst (getXnameAlias NewSlsManager sls_env init_state) =
     Ok ([\<lparr>xa_xname = ''x3000c0s17b1n0'', xa_alias = ''nid000001''\<rparr>,
          \<lparr>xa_xname = ''x3000c0s19b0n0'', xa_alias = ''uan01''\<rparr>], None)"
proof -
  have "reply sls_env (trace init_state) (sls_request NewSlsManager) =
      (Some (sls_doc slsHardwareMock), 200, None)"
    by (simp add: reply_def sls_env_def quiet_env_def)
  from getXnameAlias_table [OF this] show ?thesis
    by (simp add: slsHardwareMock_def)
qed

text \<open>What a malformed element is, independently of the code: no string under \<open>Xname\<close>, extra
  properties that are not an object, or a name with an alias list that starts with something
  else than a string.\<close>

definition malformed_element :: "(string, json) gomap \<Rightarrow> bool" where
  "malformed_element el \<longleftrightarrow>
     (\<nexists>xn. map_of el ''Xname'' = Some (JStr xn)) \<or>
     (\<exists>j. map_of el ''ExtraProperties'' = Some j \<and> (\<nexists>kvs. j = JObj kvs)) \<or>
     (\<exists>kvs a as. map_of el ''ExtraProperties'' = Some (JObj kvs) \<and>
        map_of el ''Xname'' \<noteq> Some (JStr '''') \<and>
        aliases_of (go_map_of kvs) = a # as \<and> (\<nexists>x. a = JStr x))"

lemma bad_element_malformed: "bad_element = malformed_element"
  by (rule ext)
    (auto simp: bad_element_def malformed_element_def element_entry_def
      split: option.splits json.splits list.splits)

text \<open>C28: A malformed element takes the caller down. Once the reply is there, \<open>getXnameAlias\<close> panics
  exactly when some element has no string under \<open>Xname\<close>, or has \<open>ExtraProperties\<close> that are not
  an object, or has a name and an alias list whose first member is not a string; it never
  panics when the request itself fails.\<close>

theorem getXnameAlias_panics_iff:
  "fst (getXnameAlias sls e s) = Panic p \<longleftrightarrow> p = TypeAssertion \<and>
    (\<exists>data c. reply e (trace s) (sls_request sls) = (data, c, None) \<and>
      list_ex malformed_element (sls_elements data))"
  unfolding bad_element_malformed [symmetric]
  by (auto simp: getXnameAlias_run split: prod.splits option.splits if_splits)

end
