(* ===== verification/Data.thy ===== *)
theory Data
  imports Sls
begin

text \<open>
  \<open>data.go\<close>: the client of the console-data service (inventory updates, stale heartbeats, the
  pod that watches a node) and the REST handlers that answer from it, from Kubernetes and from
  SLS. The \<open>DataManager\<close> is constructed from a \<open>K8Service\<close> and an \<open>SlsService\<close>; its lemmas use
  the contracts of these interfaces only.
\<close>

section \<open>Interface and data\<close>

record dataService =
  ds_dataAddNodes :: "nodeConsoleInfo list \<Rightarrow> bool op"
  ds_dataRemoveNodes :: "nodeConsoleInfo list \<Rightarrow> unit op"
  ds_checkHeartbeats :: "nat \<Rightarrow> unit op"
  ds_doGetPodLocation :: handler
  ds_doGetNodePod :: handler
  ds_doGetPodReplicaCount :: handler
  ds_getNodePodForXname :: "string \<Rightarrow> (string \<times> go_error option) op"
  ds_doGetCurrentTargets :: handler

record dataManager =
  dm_k8Service :: k8Service
  dm_slsService :: slsService

definition dataAddrBase :: string where
  "dataAddrBase = ''http://cray-console-data/v1''"

text \<open>The node record as console-data returns it; only the pod is used.\<close>

record retNodeConsoleInfo =
  ret_NodeName :: string
  ret_BmcName :: string
  ret_BmcFqdn :: string
  ret_Class :: string
  ret_NID :: int
  ret_Role :: string
  ret_NodeConsoleName :: string

definition zero_ret :: retNodeConsoleInfo where
  "zero_ret = \<lparr>ret_NodeName = '''', ret_BmcName = '''', ret_BmcFqdn = '''', ret_Class = '''',
     ret_NID = 0, ret_Role = '''', ret_NodeConsoleName = ''''\<rparr>"

definition dec_ret :: "retNodeConsoleInfo decoder" where
  "dec_ret = dec_struct
     [(''nodename'', dec_string (\<lambda>x v. v\<lparr>ret_NodeName := x\<rparr>)),
      (''bmcname'', dec_string (\<lambda>x v. v\<lparr>ret_BmcName := x\<rparr>)),
      (''bmcfqdn'', dec_string (\<lambda>x v. v\<lparr>ret_BmcFqdn := x\<rparr>)),
      (''class'', dec_string (\<lambda>x v. v\<lparr>ret_Class := x\<rparr>)),
      (''nid'', dec_int (\<lambda>x v. v\<lparr>ret_NID := x\<rparr>)),
      (''role'', dec_string (\<lambda>x v. v\<lparr>ret_Role := x\<rparr>)),
      (''nodeconsolename'', dec_string (\<lambda>x v. v\<lparr>ret_NodeConsoleName := x\<rparr>))]"

text \<open>\<open>GetNodeData\<close>: a struct with the single field \<open>xname\<close>.\<close>

definition dec_GetNodeData :: "string decoder" where
  "dec_GetNodeData = dec_struct [(''xname'', dec_string (\<lambda>x v. x))]"

record podLocationDataResponse =
  pl_PodName :: string
  pl_Alias :: string
  pl_Xname :: string

definition newPodLocationDataResponse :: "string \<Rightarrow> string \<Rightarrow> string \<Rightarrow> podLocationDataResponse" where
  "newPodLocationDataResponse podName ali xn =
     \<lparr>pl_PodName = podName, pl_Alias = ali, pl_Xname = xn\<rparr>"

definition enc_pod_location :: "podLocationDataResponse \<Rightarrow> json" where
  "enc_pod_location p = JObj [(''podname'', JStr (pl_PodName p)), (''alias'', JStr (pl_Alias p)),
     (''xname'', JStr (pl_Xname p))]"

definition enc_node_pod :: "string \<Rightarrow> json" where
  "enc_node_pod podName = JObj [(''podname'', JStr podName)]"

definition enc_replicas :: "int \<Rightarrow> json" where
  "enc_replicas n = JObj [(''replicas'', enc_int n)]"

record getCurrentTargetsResponse =
  ct_TargetNumRvrNodes :: int
  ct_TargetNumMtnNodes :: int
  ct_TotalRvrNodes :: int
  ct_TotalMtnNodes :: int
  ct_TargetNumNodePods :: int

definition enc_targets :: "getCurrentTargetsResponse \<Rightarrow> json" where
  "enc_targets r = JObj [(''targetnumrvrnodes'', enc_int (ct_TargetNumRvrNodes r)),
     (''targetnummtnnodes'', enc_int (ct_TargetNumMtnNodes r)),
     (''totalrvrnodes'', enc_int (ct_TotalRvrNodes r)),
     (''totalmtnnodes'', enc_int (ct_TotalMtnNodes r)),
     (''targetnumnodepods'', enc_int (ct_TargetNumNodePods r))]"

section \<open>Inventory\<close>

text \<open>The reply body is decoded for the log only and never changes the result.\<close>

definition inventory_URL :: string where
  "inventory_URL = dataAddrBase @ ''/inventory''"

definition dataAddNodes :: "nodeConsoleInfo list \<Rightarrow> bool op" where
  "dataAddNodes newNodes =
     bind_go (putURL inventory_URL (Some (marshal_nodes newNodes)) None) (\<lambda>(rd, rc, err).
       case err of
         Some x \<Rightarrow> ret False
       | None \<Rightarrow> ret (rc < 400))"

definition dataRemoveNodes :: "nodeConsoleInfo list \<Rightarrow> unit op" where
  "dataRemoveNodes removedNodes =
     bind_go (deleteURL inventory_URL (Some (marshal_nodes removedNodes)) None) (\<lambda>(rd, rc, err).
       ret ())"

text \<open>One round of the heartbeat loop, and the loop run for a number of rounds.\<close>

definition heartbeat_round :: "unit op" where
  "heartbeat_round =
     bind_go (gets heartbeatStaleMinutes) (\<lambda>stale.
     bind_go (deleteURL (dataAddrBase @ ''/consolepod/'' @ show_int stale @ ''/clear'') None None)
       (\<lambda>_. bind_go (gets heartbeatCheckPeriodSec) (\<lambda>period.
              syscall (TimeSleep period) (\<lambda>e h. ()))))"

definition checkHeartbeats :: "nat \<Rightarrow> unit op" where
  "checkHeartbeats n = repeat_op n heartbeat_round"

section \<open>Handlers\<close>

definition getNodePodForXname :: "string \<Rightarrow> (string \<times> go_error option) op" where
  "getNodePodForXname xn =
     bind_go (getURL (dataAddrBase @ ''/consolepod/'' @ xn) None) (\<lambda>(rd, _, err).
       case err of
         Some x \<Rightarrow> ret ('''', Some x)
       | None \<Rightarrow>
           (case unmarshal dec_ret zero_ret rd of
              (nd, Some je) \<Rightarrow> ret ('''', Some (JsonError je))
            | (nd, None) \<Rightarrow> ret (''cray-console-node-'' @ ret_NodeConsoleName nd, None)))"

text \<open>An error reply with a text made from the error.\<close>

definition send_error :: "response_writer \<Rightarrow> int \<Rightarrow> string \<Rightarrow> go_error \<Rightarrow> string \<Rightarrow> response_writer op" where
  "send_error w sc before err after =
     bind_go (ask_env (\<lambda>e. error_text e err)) (\<lambda>txt.
       ret (SendResponseJSON w sc (Some (base_response (before @ txt @ after)))))"

definition find_xname :: "xnameNodeAlias list \<Rightarrow> string \<Rightarrow> string" where
  "find_xname xnameAliases ali =
     fold (\<lambda>xna xn. if xa_alias xna = ali then xa_xname xna else xn) xnameAliases ''''"

definition doGetPodLocation :: "dataManager \<Rightarrow> handler" where
  "doGetPodLocation dm r w =
     (if r_Method r \<noteq> ''GET'' then ret (not_allowed ''GET'' r w)
      else
        (let podID = r_URLParam r ''podID''
         in if podID = '''' then
              ret (SendResponseJSON w 400 (Some (base_response
                (''There was an error reading the podID from the request '' @ r_URLPath r))))
            else
              bind_go (k8_getPodLocationAlias (dm_k8Service dm) podID) (\<lambda>(ali, err).
                case err of
                  Some x \<Rightarrow> send_error w 500 ''There was an error retrieving pod location '' x ''''
                | None \<Rightarrow>
                    bind_go (sls_getXnameAlias (dm_slsService dm)) (\<lambda>(xnameAliases, err).
                      case err of
                        Some x \<Rightarrow>
                          send_error w 500 ''There was an error getting the xnames from cray-sls '' x ''''
                      | None \<Rightarrow>
                          ret (SendResponseJSON w 200 (Some (enc_pod_location
                            (newPodLocationDataResponse podID ali (find_xname xnameAliases ali)))))))))"

definition doGetNodePod :: handler where
  "doGetNodePod r w =
     (if r_Method r \<noteq> ''GET'' then ret (not_allowed ''GET'' r w)
      else
        (case r_Body r of
           Inl err \<Rightarrow> send_error w 400 ''There was an error reading the request body: S'' err ''''
         | Inr reqBody \<Rightarrow>
             if r_Header r ''Content-type'' \<noteq> ''application/json'' then
               ret (SendResponseJSON w 400 (Some (base_response ''Expecting Content-Type: application/json'')))
             else
               (case unmarshal dec_GetNodeData '''' (Some reqBody) of
                  (inData, Some je) \<Rightarrow>
                    send_error w 400 ''There was an error while decoding the json data: '' (JsonError je) ''''
                | (inData, None) \<Rightarrow>
                    bind_go (getNodePodForXname inData) (\<lambda>(podName, err).
                      case err of
                        Some x \<Rightarrow>
                          send_error w 500 ''There was an error querying console-data service: '' x ''''
                      | None \<Rightarrow> ret (SendResponseJSON w 200 (Some (enc_node_pod podName)))))))"

text \<open>There is no return after the error reply: the code goes on to write a second one.\<close>

definition doGetPodReplicaCount :: "dataManager \<Rightarrow> handler" where
  "doGetPodReplicaCount dm r w =
     (if r_Method r \<noteq> ''GET'' then ret (not_allowed ''GET'' r w)
      else
        bind_go (k8_getReplicaCount (dm_k8Service dm)) (\<lambda>(nodeRepCount, err).
          bind_go
            (case err of
               Some x \<Rightarrow> send_error w 500
                 ''There was an error while retrieving console-node replica counts: '' x [CHR 0x0A]
             | None \<Rightarrow> ret w)
            (\<lambda>w. ret (SendResponseJSON w 200 (Some (enc_replicas nodeRepCount))))))"

definition doGetCurrentTargets :: handler where
  "doGetCurrentTargets r w =
     (if r_Method r \<noteq> ''GET'' then ret (not_allowed ''GET'' r w)
      else
        bind_go (gets (\<lambda>s. \<lparr>ct_TargetNumRvrNodes = numRvrNodesPerPod s,
            ct_TargetNumMtnNodes = numMtnNodesPerPod s, ct_TotalRvrNodes = totalRvrNodes s,
            ct_TotalMtnNodes = totalMtnNodes s, ct_TargetNumNodePods = numNodePods s\<rparr>)) (\<lambda>resp.
          ret (SendResponseJSON w 200 (Some (enc_targets resp)))))"

definition NewDataManager :: "k8Service \<Rightarrow> slsService \<Rightarrow> dataManager" where
  "NewDataManager k8s sls = \<lparr>dm_k8Service = k8s, dm_slsService = sls\<rparr>"

definition DataManager_service :: "dataManager \<Rightarrow> dataService" where
  "DataManager_service dm = \<lparr>
     ds_dataAddNodes = dataAddNodes,
     ds_dataRemoveNodes = dataRemoveNodes,
     ds_checkHeartbeats = checkHeartbeats,
     ds_doGetPodLocation = doGetPodLocation dm,
     ds_doGetNodePod = doGetNodePod,
     ds_doGetPodReplicaCount = doGetPodReplicaCount dm,
     ds_getNodePodForXname = getNodePodForXname,
     ds_doGetCurrentTargets = doGetCurrentTargets\<rparr>"

lemma send_error_run:
  "send_error w sc before err after e s =
     (Ok (SendResponseJSON w sc (Some (base_response (before @ error_text e err @ after)))), s)"
  by (simp add: send_error_def)

section \<open>What console-data holds\<close>

text \<open>
  The inventory as a reference notion: the documents by node name that result when console-data
  applies exactly the requests it has acknowledged, that is, answered with a readable reply and a
  status below 400. It is a function of the environment, of the inventory at the start and of the
  calls made. A request whose reply is lost counts as not applied here; that this is what
  console-data really holds, provided no reply is lost, is \<open>console_data_unique\<close> below.
\<close>

definition accepted :: "env \<Rightarrow> history \<Rightarrow> http_request \<Rightarrow> bool" where
  "accepted e h req \<longleftrightarrow> (case reply e h req of (_, rc, err) \<Rightarrow> err = None \<and> rc < 400)"

definition doc_name :: "json \<Rightarrow> string" where
  "doc_name j = (case j of JObj kvs \<Rightarrow> (case map_of kvs ''NodeName'' of Some (JStr n) \<Rightarrow> n | _ \<Rightarrow> '''') | _ \<Rightarrow> '''')"

definition body_docs :: "payload option \<Rightarrow> json list" where
  "body_docs b = (case b of Some (Json (JArr js)) \<Rightarrow> js | _ \<Rightarrow> [])"

type_synonym inventory = "string \<rightharpoonup> json"

definition apply_request :: "http_request \<Rightarrow> inventory \<Rightarrow> inventory" where
  "apply_request req iv =
     (if req_url req \<noteq> inventory_URL then iv
      else if req_method req = ''PUT'' then
        iv ++ map_of (rev (map (\<lambda>j. (doc_name j, j)) (body_docs (req_body req))))
      else if req_method req = ''DELETE'' then iv |` (- doc_name ` set (body_docs (req_body req)))
      else iv)"

definition apply_event :: "env \<Rightarrow> history \<Rightarrow> event \<Rightarrow> inventory \<Rightarrow> inventory" where
  "apply_event e h ev iv =
     (case ev of HttpDo req \<Rightarrow> (if accepted e h req then apply_request req iv else iv) | _ \<Rightarrow> iv)"

fun inventory_from :: "env \<Rightarrow> history \<Rightarrow> event list \<Rightarrow> inventory \<Rightarrow> inventory" where
  "inventory_from e h [] iv = iv"
| "inventory_from e h (ev # evs) iv = inventory_from e (h @ [ev]) evs (apply_event e h ev iv)"

definition inventory_after :: "inventory \<Rightarrow> env \<Rightarrow> history \<Rightarrow> inventory" where
  "inventory_after inv0 e h = inventory_from e [] h inv0"

text \<open>The documents of a list of nodes; of several entries with one name the last counts.\<close>

definition docs_of :: "nodeConsoleInfo list \<Rightarrow> inventory" where
  "docs_of ns = (\<lambda>k. map_option enc_node (map_of (index_by NodeName ns) k))"

definition no_inventory :: "event \<Rightarrow> bool" where
  "no_inventory ev \<longleftrightarrow>
     (case ev of HttpDo req \<Rightarrow> req_url req \<noteq> inventory_URL \<or> req_method req = ''GET'' | _ \<Rightarrow> True)"

text \<open>The bodies of the PUT requests for the inventory among some calls.\<close>

definition inventory_put_body :: "event \<Rightarrow> payload option option" where
  "inventory_put_body ev = (case ev of
     HttpDo req \<Rightarrow> (if req_method req = ''PUT'' \<and> req_url req = inventory_URL then Some (req_body req) else None)
   | _ \<Rightarrow> None)"

definition puts_of :: "event list \<Rightarrow> payload option list" where
  "puts_of evs = List.map_filter inventory_put_body evs"

definition deletes_accepted :: "env \<Rightarrow> bool" where
  "deletes_accepted e \<longleftrightarrow>
     (\<forall>h req. req_method req = ''DELETE'' \<and> req_url req = inventory_URL \<longrightarrow> accepted e h req)"

definition puts_accepted :: "env \<Rightarrow> bool" where
  "puts_accepted e \<longleftrightarrow>
     (\<forall>h req. req_method req = ''PUT'' \<and> req_url req = inventory_URL \<longrightarrow> accepted e h req)"

abbreviation inventory_put :: "nodeConsoleInfo list \<Rightarrow> http_request" where
  "inventory_put ns \<equiv> body_request ''PUT'' inventory_URL (Some (marshal_nodes ns)) None"

abbreviation inventory_delete :: "nodeConsoleInfo list \<Rightarrow> http_request" where
  "inventory_delete ns \<equiv> body_request ''DELETE'' inventory_URL (Some (marshal_nodes ns)) None"

lemma inventory_from_append:
  "inventory_from e h (evs @ evs') iv = inventory_from e (h @ evs) evs' (inventory_from e h evs iv)"
  by (induction evs arbitrary: h iv) simp_all

lemma inventory_after_append:
  "inventory_after inv0 e (h @ evs) = inventory_from e h evs (inventory_after inv0 e h)"
  by (simp add: inventory_after_def inventory_from_append)

lemma read_only_no_inventory: "read_only ev \<Longrightarrow> no_inventory ev"
  by (cases ev) (simp_all add: no_inventory_def)

lemma no_inventory_post [simp]:
  "req_url req \<noteq> inventory_URL \<Longrightarrow> no_inventory (HttpDo req)"
  by (simp add: no_inventory_def)

lemma inventory_quiet:
  "list_all no_inventory evs \<Longrightarrow> inventory_after inv0 e (h @ evs) = inventory_after inv0 e h"
proof (induction evs arbitrary: h)
  case (Cons ev evs)
  then have "inventory_after inv0 e ((h @ [ev]) @ evs) = inventory_after inv0 e (h @ [ev])"
    by (intro Cons.IH) simp
  moreover from Cons have "apply_event e h ev iv = iv" for iv
    by (auto simp: apply_event_def apply_request_def no_inventory_def split: event.splits)
  ultimately show ?case by (simp add: inventory_after_append)
qed simp

lemma puts_of_append [simp]: "puts_of (xs @ ys) = puts_of xs @ puts_of ys"
  by (induction xs) (simp_all add: puts_of_def map_filter_simps split: option.split)

lemma puts_of_simps [simp]: "puts_of [] = []" "puts_of (TimeNow # evs) = puts_of evs"
  by (simp_all add: puts_of_def map_filter_simps inventory_put_body_def)

lemma puts_of_quiet: "list_all no_inventory evs \<Longrightarrow> puts_of evs = []"
  by (induction evs)
    (auto simp: puts_of_def map_filter_simps no_inventory_def inventory_put_body_def split: event.split)

lemma doc_name_enc [simp]: "doc_name (enc_node n) = NodeName n"
  by (simp add: doc_name_def enc_node_def)

lemma body_docs_marshal [simp]: "body_docs (Some (marshal_nodes ns)) = map enc_node ns"
  by (simp add: body_docs_def marshal_nodes_def)

lemma docs_of_map: "docs_of ns = map_of (rev (map (\<lambda>n. (NodeName n, enc_node n)) ns))"
proof
  fix k
  have "map_of (map (\<lambda>n. (NodeName n, enc_node n)) xs) k =
      map_option enc_node (find (\<lambda>n. NodeName n = k) xs)" for xs
    by (induction xs) auto
  from this [of "rev ns"] show "docs_of ns k = map_of (rev (map (\<lambda>n. (NodeName n, enc_node n)) ns)) k"
    by (simp add: docs_of_def map_of_index_by rev_map)
qed

lemma dom_docs_of [simp]: "dom (docs_of ns) = NodeName ` set ns"
  by (simp add: docs_of_map dom_map_of_conv_image_fst image_image)

lemma apply_put: "apply_request (inventory_put ns) iv = iv ++ docs_of ns"
  by (simp add: apply_request_def docs_of_map comp_def)

lemma apply_delete: "apply_request (inventory_delete ns) iv = iv |` (- NodeName ` set ns)"
  by (simp add: apply_request_def image_image)

lemma accepted_sent: "accepted e h req \<Longrightarrow> sent e req = [HttpDo req]"
  by (auto simp: accepted_def sent_def reply_def split: option.splits)

lemma inventory_request:
  "inventory_after inv0 e (h @ sent e req) =
     (if accepted e h req then apply_request req (inventory_after inv0 e h)
      else inventory_after inv0 e h)"
  by (auto simp: inventory_after_append sent_def apply_event_def dest: accepted_sent)

lemma dataAddNodes_run:
  "dataAddNodes ns e s =
     (Ok (accepted e (trace s) (inventory_put ns)),
      s\<lparr>trace := trace s @ sent e (inventory_put ns)\<rparr>)"
  by (simp add: dataAddNodes_def url_runs accepted_def split: prod.split option.split)

lemma dataRemoveNodes_run:
  "dataRemoveNodes ns e s = (Ok (), s\<lparr>trace := trace s @ sent e (inventory_delete ns)\<rparr>)"
  by (simp add: dataRemoveNodes_def url_runs split: prod.split)

subsection \<open>What console-data promises\<close>

text \<open>
  The service itself is not part of the program; \<open>cd\<close> stands for what it holds after a history.
  What its REST interface promises: a request for the inventory that is answered with a status
  of success is applied, one that is answered with an error status is not, and one without a
  definite answer (a lost reply, a redirect) is applied or not; nothing else changes the content.
\<close>

definition may_apply :: "(history \<Rightarrow> inventory) \<Rightarrow> history \<Rightarrow> http_request \<Rightarrow> bool" where
  "may_apply cd h req \<longleftrightarrow> cd (h @ [HttpDo req]) \<in> {cd h, apply_request req (cd h)}"

definition obeys_answer :: "env \<Rightarrow> (history \<Rightarrow> inventory) \<Rightarrow> history \<Rightarrow> http_request \<Rightarrow> bool" where
  "obeys_answer e cd h req \<longleftrightarrow>
     (case http_client_do e h req of
        Inl err \<Rightarrow> may_apply cd h req
      | Inr (code, body) \<Rightarrow>
          if 200 \<le> code \<and> code < 300 then cd (h @ [HttpDo req]) = apply_request req (cd h)
          else if 400 \<le> code then cd (h @ [HttpDo req]) = cd h
          else may_apply cd h req)"

definition console_data :: "env \<Rightarrow> (history \<Rightarrow> inventory) \<Rightarrow> bool" where
  "console_data e cd \<longleftrightarrow>
     (\<forall>h ev. no_inventory ev \<longrightarrow> cd (h @ [ev]) = cd h) \<and>
     (\<forall>h req. req_url req = inventory_URL \<longrightarrow> obeys_answer e cd h req)"

text \<open>A definite answer, and a lost one.\<close>

definition definite :: "env \<Rightarrow> history \<Rightarrow> http_request \<Rightarrow> bool" where
  "definite e h req \<longleftrightarrow>
     (case http_client_do e h req of Inl err \<Rightarrow> True | Inr (code, body) \<Rightarrow> 200 \<le> code \<and> (code < 300 \<or> 400 \<le> code))"

definition reply_lost :: "env \<Rightarrow> history \<Rightarrow> http_request \<Rightarrow> bool" where
  "reply_lost e h req \<longleftrightarrow> (case http_client_do e h req of Inr (code, Inr data) \<Rightarrow> False | _ \<Rightarrow> True)"

lemma apply_request_get: "req_method req = ''GET'' \<Longrightarrow> apply_request req iv = iv"
  by (simp add: apply_request_def)

lemma console_data_obeys:
  "console_data e cd \<Longrightarrow> req_url req = inventory_URL \<Longrightarrow> obeys_answer e cd h req"
  unfolding console_data_def by blast

lemma console_data_may:
  assumes "console_data e cd" and "req_url req = inventory_URL"
  shows "may_apply cd h req"
  using console_data_obeys [OF assms, of h]
  by (auto simp: obeys_answer_def may_apply_def split: sum.splits prod.splits if_splits)

text \<open>A definite, readable answer decides what console-data does, and it is what \<open>accepted\<close> says.\<close>

definition clear_answers :: "env \<Rightarrow> bool" where
  "clear_answers e \<longleftrightarrow> (\<forall>h req. req_url req = inventory_URL \<longrightarrow>
     http_new_request e (req_method req) inventory_URL = None \<and> definite e h req \<and> \<not> reply_lost e h req)"

lemma clear_answer:
  assumes "clear_answers e" and "req_url req = inventory_URL"
  shows "obeys_answer e cd h req \<longleftrightarrow>
    cd (h @ [HttpDo req]) = (if accepted e h req then apply_request req (cd h) else cd h)"
proof -
  have "http_new_request e (req_method req) (req_url req) = None" and "definite e h req" and "\<not> reply_lost e h req"
    using assms by (auto simp: clear_answers_def)
  then show ?thesis
    by (auto simp: obeys_answer_def definite_def reply_lost_def accepted_def reply_def split: sum.splits prod.splits)
qed

lemma console_data_acknowledged:
  assumes "clear_answers e"
  shows "console_data e (inventory_after inv0 e)"
  unfolding console_data_def
proof (intro conjI allI impI)
  fix h ev
  assume "no_inventory ev"
  then show "inventory_after inv0 e (h @ [ev]) = inventory_after inv0 e h"
    by (intro inventory_quiet) simp
next
  fix h and req :: http_request
  assume "req_url req = inventory_URL"
  from clear_answer [OF assms this] show "obeys_answer e (inventory_after inv0 e) h req"
    by (simp add: inventory_after_append apply_event_def)
qed

lemma console_data_unique:
  assumes "clear_answers e" and "console_data e cd"
  shows "cd h = inventory_after (cd []) e h"
proof (induction h rule: rev_induct)
  case Nil
  then show ?case by (simp add: inventory_after_def)
next
  case (snoc ev h)
  have step: "inventory_after (cd []) e (h @ [ev]) = apply_event e h ev (cd h)"
    by (simp add: inventory_after_append snoc)
  show ?case
  proof (cases "no_inventory ev")
    case True
    then have "cd (h @ [ev]) = cd h" using assms(2) by (simp add: console_data_def)
    moreover have "inventory_after (cd []) e (h @ [ev]) = inventory_after (cd []) e h"
      using True by (intro inventory_quiet) simp
    ultimately show ?thesis using snoc by simp
  next
    case False
    then obtain req where req: "ev = HttpDo req" "req_url req = inventory_URL"
      by (auto simp: no_inventory_def split: event.splits)
    then show ?thesis
      using clear_answer [OF assms(1) req(2)] console_data_obeys [OF assms(2) req(2)] step
      by (simp add: apply_event_def)
  qed
qed

section \<open>The contract of the interface\<close>

text \<open>
  What the hardware watcher and the debug handlers rely on. The inventory \<open>iv\<close> is part of the
  contract: adding reports truthfully whether the documents were stored, removing removes where
  console-data accepts it, and nothing but these two operations touches it.
\<close>

locale data_service =
  fixes ds :: dataService
    and iv :: "env \<Rightarrow> history \<Rightarrow> inventory"
  assumes add_nodes:
      "\<exists>ok evs. ds_dataAddNodes ds ns e s = (Ok ok, s\<lparr>trace := trace s @ evs\<rparr>) \<and>
         iv e (trace s @ evs) = (if ok then iv e (trace s) ++ docs_of ns else iv e (trace s)) \<and>
         (puts_accepted e \<longrightarrow> ok)"
    and remove_nodes:
      "\<exists>gone evs. ds_dataRemoveNodes ds ns e s = (Ok (), s\<lparr>trace := trace s @ evs\<rparr>) \<and>
         iv e (trace s @ evs) =
           (if gone then iv e (trace s) |` (- NodeName ` set ns) else iv e (trace s)) \<and>
         (deletes_accepted e \<longrightarrow> gone)"
    and pod_calls: "only_calls (ds_getNodePodForXname ds xn)"
    and pod_reads: "preserves (emits read_only s0) (ds_getNodePodForXname ds xn)"
    and add_puts:
      "puts_accepted e \<Longrightarrow> \<exists>ok evs. ds_dataAddNodes ds ns e s = (Ok ok, s\<lparr>trace := trace s @ evs\<rparr>) \<and>
         puts_of evs = [Some (marshal_nodes ns)]"
    and remove_puts:
      "\<exists>evs. ds_dataRemoveNodes ds ns e s = (Ok (), s\<lparr>trace := trace s @ evs\<rparr>) \<and> puts_of evs = []"
    and inv_quiet: "list_all no_inventory evs \<Longrightarrow> iv e (h @ evs) = iv e h"
begin

lemma inv_emits: "emits no_inventory s t \<Longrightarrow> iv e (trace t) = iv e (trace s)"
  by (auto simp: emits_def inv_quiet)

end

lemma only_calls_getNodePod: "only_calls (getNodePodForXname xn)"
proof -
  have "only_calls (case err of Some x \<Rightarrow> ret ('''', Some x)
      | None \<Rightarrow> (case unmarshal dec_ret zero_ret rd of
              (nd, Some je) \<Rightarrow> ret ('''', Some (JsonError je))
            | (nd, None) \<Rightarrow> ret (''cray-console-node-'' @ ret_NodeConsoleName nd, None)))" for err rd
    by (intro calls_intros)
  then show ?thesis unfolding getNodePodForXname_def by (intro calls_intros)
qed

interpretation dsm: data_service "DataManager_service dm" "inventory_after inv0" for dm inv0
proof
  fix ns e s
  show "\<exists>ok evs. ds_dataAddNodes (DataManager_service dm) ns e s = (Ok ok, s\<lparr>trace := trace s @ evs\<rparr>) \<and>
      inventory_after inv0 e (trace s @ evs) =
        (if ok then inventory_after inv0 e (trace s) ++ docs_of ns else inventory_after inv0 e (trace s)) \<and>
      (puts_accepted e \<longrightarrow> ok)"
    by (intro exI [of _ "accepted e (trace s) (inventory_put ns)"] exI [of _ "sent e (inventory_put ns)"])
      (simp add: DataManager_service_def dataAddNodes_run inventory_request apply_put puts_accepted_def)
next
  fix ns e s
  show "\<exists>gone evs. ds_dataRemoveNodes (DataManager_service dm) ns e s = (Ok (), s\<lparr>trace := trace s @ evs\<rparr>) \<and>
      inventory_after inv0 e (trace s @ evs) =
        (if gone then inventory_after inv0 e (trace s) |` (- NodeName ` set ns)
         else inventory_after inv0 e (trace s)) \<and>
      (deletes_accepted e \<longrightarrow> gone)"
    by (intro exI [of _ "accepted e (trace s) (inventory_delete ns)"]
        exI [of _ "sent e (inventory_delete ns)"])
      (simp add: DataManager_service_def dataRemoveNodes_run inventory_request apply_delete
        deletes_accepted_def)
next
  fix xn
  show "only_calls (ds_getNodePodForXname (DataManager_service dm) xn)"
    by (simp add: DataManager_service_def only_calls_getNodePod)
next
  fix s0 xn
  have "preserves (emits read_only s0) (getNodePodForXname xn)"
    unfolding getNodePodForXname_def by (intro preserves_intros url_emits) simp
  then show "preserves (emits read_only s0) (ds_getNodePodForXname (DataManager_service dm) xn)"
    by (simp add: DataManager_service_def)
next
  fix e ns s
  assume "puts_accepted e"
  then have "sent e (inventory_put ns) = [HttpDo (inventory_put ns)]"
    by (intro accepted_sent [of e "[]"]) (simp add: puts_accepted_def)
  then show "\<exists>ok evs. ds_dataAddNodes (DataManager_service dm) ns e s = (Ok ok, s\<lparr>trace := trace s @ evs\<rparr>) \<and>
      puts_of evs = [Some (marshal_nodes ns)]"
    by (intro exI [of _ "accepted e (trace s) (inventory_put ns)"] exI [of _ "sent e (inventory_put ns)"])
      (simp add: DataManager_service_def dataAddNodes_run puts_of_def map_filter_simps inventory_put_body_def)
next
  fix ns e s
  show "\<exists>evs. ds_dataRemoveNodes (DataManager_service dm) ns e s = (Ok (), s\<lparr>trace := trace s @ evs\<rparr>) \<and>
      puts_of evs = []"
    by (intro exI [of _ "sent e (inventory_delete ns)"])
      (simp add: DataManager_service_def dataRemoveNodes_run sent_def puts_of_def map_filter_simps
        inventory_put_body_def)
next
  fix evs e h
  show "list_all no_inventory evs \<Longrightarrow> inventory_after inv0 e (h @ evs) = inventory_after inv0 e h"
    by (rule inventory_quiet)
qed

section \<open>Properties\<close>

text \<open>C19: What the answer of \<open>dataAddNodes\<close> is worth. Against every console-data that keeps the promises
  of its interface and answers with a status of success or of an error (no redirects), adding
  nodes makes at most one request and changes no global; if it returns true, console-data then
  holds the document of every node sent in addition to what it held; if it returns false,
  console-data holds what it held, unless the reply was lost, and even then the documents are
  either all stored or none is.\<close>

theorem dataAddNodes_truthful:
  assumes "console_data e cd" and "definite e (trace s) (inventory_put ns)"
  shows "\<exists>ok evs. dataAddNodes ns e s = (Ok ok, s\<lparr>trace := trace s @ evs\<rparr>) \<and> length evs \<le> 1 \<and>
     (ok \<longrightarrow> cd (trace s @ evs) = cd (trace s) ++ docs_of ns) \<and>
     (\<not> ok \<longrightarrow> (if reply_lost e (trace s) (inventory_put ns)
        then cd (trace s @ evs) \<in> {cd (trace s), cd (trace s) ++ docs_of ns}
        else cd (trace s @ evs) = cd (trace s)))"
proof -
  let ?req = "inventory_put ns" and ?h = "trace s"
  let ?ok = "accepted e ?h ?req"
  have stored: "cd (?h @ sent e ?req) = cd ?h ++ docs_of ns" if ?ok
  proof -
    have "obeys_answer e cd ?h ?req" using console_data_obeys [OF assms(1)] by simp
    then have "cd (?h @ [HttpDo ?req]) = apply_request ?req (cd ?h)"
      using that assms(2)
      by (auto simp: obeys_answer_def definite_def accepted_def reply_def
          split: option.splits sum.splits prod.splits if_splits)
    then show ?thesis using accepted_sent [OF that] by (simp only: apply_put)
  qed
  have kept: "cd (?h @ sent e ?req) = cd ?h" if "\<not> ?ok" and "\<not> reply_lost e ?h ?req"
  proof (cases "http_new_request e ''PUT'' inventory_URL = None")
    case True
    have "obeys_answer e cd ?h ?req" using console_data_obeys [OF assms(1)] by simp
    then show ?thesis
      using that True
      by (auto simp: obeys_answer_def reply_lost_def accepted_def reply_def sent_def split: sum.splits prod.splits)
  qed (auto simp: sent_def)
  have "may_apply cd ?h ?req" using console_data_may [OF assms(1)] by simp
  then have "cd (?h @ sent e ?req) \<in> {cd ?h, cd ?h ++ docs_of ns}"
    unfolding may_apply_def apply_put by (auto simp: sent_def)
  with stored kept show ?thesis
    by (intro exI [of _ ?ok] exI [of _ "sent e ?req"]) (simp add: dataAddNodes_run sent_length [simplified])
qed

text \<open>A console-data that accepts everything.\<close>

definition accepting_env :: env where
  "accepting_env = quiet_env\<lparr>http_client_do := (\<lambda>h r. Inr (200, Inr (Json (JObj []))))\<rparr>"

lemma accepting_clear: "clear_answers accepting_env"
  by (simp add: clear_answers_def definite_def reply_lost_def accepting_env_def quiet_env_def)

definition sample_node :: nodeConsoleInfo where
  "sample_node = zero_node\<lparr>NodeName := ''x1c0s0b0n0''\<rparr>"

theorem dataAddNodes_truthful_witness:
  "\<exists>evs. dataAddNodes [sample_node] accepting_env init_state = (Ok True, init_state\<lparr>trace := trace init_state @ evs\<rparr>) \<and>
     inventory_after Map.empty accepting_env (trace init_state @ evs) = docs_of [sample_node]"
proof -
  let ?cd = "inventory_after Map.empty accepting_env"
  have none: "?cd (trace init_state) = Map.empty"
    by (simp add: init_state_def inventory_after_def)
  have "definite accepting_env (trace init_state) (inventory_put [sample_node])"
    by (simp add: definite_def accepting_env_def)
  from dataAddNodes_truthful [OF console_data_acknowledged [OF accepting_clear] this, of Map.empty]
  obtain ok evs where run: "dataAddNodes [sample_node] accepting_env init_state =
      (Ok ok, init_state\<lparr>trace := trace init_state @ evs\<rparr>)"
    and stored: "ok \<longrightarrow> ?cd (trace init_state @ evs) = ?cd (trace init_state) ++ docs_of [sample_node]"
    by blast
  have "fst (dataAddNodes [sample_node] accepting_env init_state) = Ok True"
    by (simp add: dataAddNodes_run accepted_def reply_def accepting_env_def quiet_env_def)
  then have ok: "ok = True" by (simp only: run fst_conv outcome.inject)
  from stored have "?cd (trace init_state @ evs) = docs_of [sample_node]"
    by (simp only: ok none empty_map_add simp_thms)
  with run show ?thesis by (intro exI [of _ evs]) (simp only: ok simp_thms)
qed

lemma heartbeat_round_run:
  "heartbeat_round e s =
     (Ok (), s\<lparr>trace := trace s @
        sent e (body_request ''DELETE''
          (dataAddrBase @ ''/consolepod/'' @ show_int (heartbeatStaleMinutes s) @ ''/clear'') None None) @
        [TimeSleep (heartbeatCheckPeriodSec s)]\<rparr>)"
  by (simp add: heartbeat_round_def url_runs)

text \<open>Stale heartbeats are cleared forever. Whatever console-data answers, every round of
  \<open>checkHeartbeats\<close> asks it once to clear the pods that have been silent for the configured
  number of minutes and then waits the configured time; no round is skipped, no answer stops
  the loop and no global changes.\<close>

lemma checkHeartbeats_rounds:
  "checkHeartbeats n e s =
     (Ok (), s\<lparr>trace := trace s @ concat (replicate n
        (sent e (body_request ''DELETE''
           (dataAddrBase @ ''/consolepod/'' @ show_int (heartbeatStaleMinutes s) @ ''/clear'') None None) @
         [TimeSleep (heartbeatCheckPeriodSec s)]))\<rparr>)"
proof (induction n arbitrary: s)
  case 0
  then show ?case by (simp add: checkHeartbeats_def)
next
  case (Suc n)
  then show ?case
    unfolding checkHeartbeats_def repeat_op.simps bind_go_run heartbeat_round_run by simp
qed

lemma find_xname_last:
  "find_xname xs ali = (case find (\<lambda>x. xa_alias x = ali) (rev xs) of None \<Rightarrow> '''' | Some x \<Rightarrow> xa_xname x)"
proof -
  have "fold (\<lambda>xna xn. if xa_alias xna = ali then xa_xname xna else xn) xs acc =
      (case find (\<lambda>x. xa_alias x = ali) (rev xs) of None \<Rightarrow> acc | Some x \<Rightarrow> xa_xname x)" for acc
    by (induction xs arbitrary: acc) (auto simp: find_snoc split: option.split)
  then show ?thesis by (simp add: find_xname_def)
qed

text \<open>What the location handler does, with the services it was constructed with.\<close>

lemma doGetPodLocation_ok:
  assumes "r_Method r = ''GET''" and "r_URLParam r ''podID'' \<noteq> ''''"
    and "k8_getPodLocationAlias (dm_k8Service dm) (r_URLParam r ''podID'') e s = (Ok (ali, None), u)"
    and "sls_getXnameAlias (dm_slsService dm) e u = (Ok (xs, None), t)"
  shows "doGetPodLocation dm r w e s =
    (Ok (SendResponseJSON w 200 (Some (enc_pod_location
       (newPodLocationDataResponse (r_URLParam r ''podID'') ali (find_xname xs ali))))), t)"
  using assms by (simp add: doGetPodLocation_def Let_def bind_go_run)

text \<open>C30: The location of a pod. With Kubernetes reporting the node of the pod and SLS answering
  with well-formed hardware elements, the handler replies 200 with the pod's name, the node's
  alias and an xname; the xname belongs to an element whose first alias is the node's, and it
  is empty exactly when SLS has no such element.\<close>

theorem doGetPodLocation_answer:
  assumes "r_Method r = ''GET''" and "r_URLParam r ''podID'' = podID" and "podID \<noteq> ''''"
    and "k8_clientset k8s = Some cs" and "pods_Get cs (trace s) podID = Inr p"
    and "reply e (trace s @ [PodGet podID]) (sls_request sls) = (Some (sls_doc hs), c, None)"
    and "\<forall>h \<in> set hs. ''Aliases'' \<notin> fst ` set (gh_Extra h)"
  shows "\<exists>w xn. fst (doGetPodLocation (NewDataManager (K8Manager_service k8s) (SlsManager_service sls))
        r new_writer e s) = Ok w \<and>
    w_status w = Some 200 \<and>
    w_body w = [JObj [(''podname'', JStr podID), (''alias'', JStr (pod_NodeName p)), (''xname'', JStr xn)]] \<and>
    (xn = '''' \<longleftrightarrow> \<not> (\<exists>h \<in> set hs. has_alias h \<and> hd (the (gh_Aliases h)) = pod_NodeName p)) \<and>
    (xn = '''' \<or> (\<exists>h \<in> set hs. has_alias h \<and> hd (the (gh_Aliases h)) = pod_NodeName p \<and> gh_Xname h = xn))"
proof -
  let ?dm = "NewDataManager (K8Manager_service k8s) (SlsManager_service sls)"
  let ?u = "s\<lparr>trace := trace s @ [PodGet podID]\<rparr>"
  let ?xs = "map alias_entry (filter has_alias hs)"
  let ?xn = "find_xname ?xs (pod_NodeName p)"
  have k: "k8_getPodLocationAlias (dm_k8Service ?dm) (r_URLParam r ''podID'') e s =
      (Ok (pod_NodeName p, None), ?u)"
    using assms(2,4,5) by (simp add: NewDataManager_def K8Manager_service_def getPodLocationAlias_def)
  have "fst (getXnameAlias sls e ?u) = Ok (?xs, None)"
    unfolding alias_entry_def has_alias_def
    using assms(6,7) by (intro getXnameAlias_entries) simp_all
  then obtain t where x: "sls_getXnameAlias (dm_slsService ?dm) e ?u = (Ok (?xs, None), t)"
    by (cases "getXnameAlias sls e ?u") (simp add: NewDataManager_def SlsManager_service_def)
  have found: "(?xn = '''' \<longleftrightarrow> \<not> (\<exists>h \<in> set hs. has_alias h \<and> hd (the (gh_Aliases h)) = pod_NodeName p)) \<and>
    (?xn = '''' \<or> (\<exists>h \<in> set hs. has_alias h \<and> hd (the (gh_Aliases h)) = pod_NodeName p \<and> gh_Xname h = ?xn))"
  proof (cases "find (\<lambda>x. xa_alias x = pod_NodeName p) (rev ?xs)")
    case None
    then have "?xn = ''''" by (simp add: find_xname_last)
    moreover from None have "\<forall>x \<in> set ?xs. xa_alias x \<noteq> pod_NodeName p" by (simp add: find_None_all)
    ultimately show ?thesis by (auto simp: alias_entry_def)
  next
    case (Some x)
    then have "x \<in> set (rev ?xs) \<and> xa_alias x = pod_NodeName p" by (rule find_SomeD)
    then obtain h where "h \<in> set hs" "has_alias h" "x = alias_entry h" "xa_alias x = pod_NodeName p" by auto
    moreover from Some have "?xn = xa_xname x" by (simp add: find_xname_last)
    ultimately show ?thesis by (auto simp: alias_entry_def has_alias_def)
  qed
  have podID: "r_URLParam r ''podID'' \<noteq> ''''" using assms(2,3) by simp
  let ?w = "SendResponseJSON new_writer 200 (Some (enc_pod_location
      (newPodLocationDataResponse (r_URLParam r ''podID'') (pod_NodeName p) ?xn)))"
  have "fst (doGetPodLocation ?dm r new_writer e s) = Ok ?w"
    by (simp add: doGetPodLocation_ok [OF assms(1) podID k x])
  moreover have "w_status ?w = Some 200" and "w_body ?w =
      [JObj [(''podname'', JStr podID), (''alias'', JStr (pod_NodeName p)), (''xname'', JStr ?xn)]]"
    using assms(2) by (simp_all add: enc_pod_location_def newPodLocationDataResponse_def)
  ultimately show ?thesis using found by (intro exI [of _ ?w] exI [of _ ?xn] conjI) blast+
qed

definition sample_request :: "string \<Rightarrow> request" where
  "sample_request m = \<lparr>r_Method = m, r_URLPath = ''/console-operator/v1/location/pod-1234'',
     r_URLParam = (\<lambda>k. ''pod-1234''), r_Header = (\<lambda>k. ''application/json''),
     r_Body = Inr (Json (JObj [(''xname'', JStr ''x3000c0s17b1n0'')]))\<rparr>"

definition uan_server :: clientset where
  "uan_server = (api_server 3)\<lparr>pods_Get := (\<lambda>h p. Inr \<lparr>pod_NodeName = ''uan01''\<rparr>)\<rparr>"

theorem doGetPodLocation_answer_witness:
  "\<exists>w. fst (doGetPodLocation (NewDataManager
        (K8Manager_service \<lparr>k8_config = Some RestConfig, k8_clientset = Some uan_server\<rparr>)
        (SlsManager_service NewSlsManager)) (sample_request ''GET'') new_writer sls_env init_state) = Ok w \<and>
    w_status w = Some 200 \<and>
    w_body w = [JObj [(''podname'', JStr ''pod-1234''), (''alias'', JStr ''uan01''),
      (''xname'', JStr ''x3000c0s19b0n0'')]]"
proof -
  have "reply sls_env (trace init_state @ [PodGet ''pod-1234'']) (sls_request NewSlsManager) =
      (Some (sls_doc slsHardwareMock), 200, None)"
    by (simp add: reply_def sls_env_def quiet_env_def)
  from doGetPodLocation_answer [OF _ _ _ _ _ this, where r = "sample_request ''GET''" and cs = uan_server
      and k8s = "\<lparr>k8_config = Some RestConfig, k8_clientset = Some uan_server\<rparr>"
      and p = "\<lparr>pod_NodeName = ''uan01''\<rparr>"]
  show ?thesis
    by (auto simp: sample_request_def uan_server_def slsHardwareMock_def has_alias_def)
qed

text \<open>C40: The replica handler answers twice on an error. When the replica count cannot be read,
  \<open>doGetPodReplicaCount\<close> does not stop after its error reply: the client gets status 500 with
  two documents in the body, the error message and a replica count of -1.\<close>

theorem doGetPodReplicaCount_error_answers_twice:
  assumes "r_Method r = ''GET''" and "k8_clientset k8s = Some cs" and "sts_Get cs (trace s) = Inl err"
  shows "\<exists>w. fst (doGetPodReplicaCount (NewDataManager (K8Manager_service k8s) sls) r new_writer e s) = Ok w \<and>
    w_status w = Some 500 \<and>
    w_body w =
      [JObj [(''message'', JStr (''There was an error while retrieving console-node replica counts: '' @
         error_text e err @ [CHR 0x0A]))],
       JObj [(''replicas'', JNum ''-1'')]]"
proof -
  have "show_int (-1) = ''-1''" by code_simp
  with assms show ?thesis
    by (simp add: doGetPodReplicaCount_def NewDataManager_def K8Manager_service_def bind_go_run
        getReplicaCount_run send_error_def base_response_def enc_replicas_def enc_int_def)
qed

theorem doGetPodReplicaCount_error_witness:
  "\<exists>w. fst (doGetPodReplicaCount (NewDataManager
        (K8Manager_service \<lparr>k8_config = Some RestConfig, k8_clientset = Some dead_server\<rparr>)
        (SlsManager_service NewSlsManager)) (sample_request ''GET'') new_writer quiet_env init_state) = Ok w \<and>
    w_status w = Some 500 \<and> length (w_body w) = 2"
proof -
  let ?k = "\<lparr>k8_config = Some RestConfig, k8_clientset = Some dead_server\<rparr>"
  have "r_Method (sample_request ''GET'') = ''GET''" and "k8_clientset ?k = Some dead_server"
    and "sts_Get dead_server (trace init_state) = Inl (K8sOtherError ''timeout'')"
    by (simp_all add: sample_request_def dead_server_def)
  from doGetPodReplicaCount_error_answers_twice [OF this, of "SlsManager_service NewSlsManager" quiet_env]
  obtain w where "fst (doGetPodReplicaCount (NewDataManager (K8Manager_service ?k)
        (SlsManager_service NewSlsManager)) (sample_request ''GET'') new_writer quiet_env init_state) = Ok w"
    and "w_status w = Some 500" and "length (w_body w) = 2" by fastforce
  then show ?thesis by blast
qed

text \<open>The status of a node-pod query. \<open>doGetNodePod\<close> always returns, and a fresh response gets
  405 for another method, 400 for an unreadable body, a wrong content type or undecodable
  data, 500 when console-data cannot be reached or its answer cannot be decoded, and 200
  otherwise.\<close>

lemma doGetNodePod_status:
  "\<exists>w t. doGetNodePod r new_writer e s = (Ok w, t) \<and>
    w_status w = Some (
      if r_Method r \<noteq> ''GET'' then 405
      else case r_Body r of
        Inl err \<Rightarrow> 400
      | Inr body \<Rightarrow>
          if r_Header r ''Content-type'' \<noteq> ''application/json'' then 400
          else case unmarshal dec_GetNodeData '''' (Some body) of
            (xn, Some je) \<Rightarrow> 400
          | (xn, None) \<Rightarrow>
              (case reply e (trace s) (get_request (dataAddrBase @ ''/consolepod/'' @ xn) None) of
                 (rd, c, err) \<Rightarrow>
                   if err \<noteq> None \<or> snd (unmarshal dec_ret zero_ret rd) \<noteq> None then 500 else 200))"
  by (auto simp: doGetNodePod_def getNodePodForXname_def bind_go_run get.call_run send_error_def
      split: sum.split prod.split option.split)

text \<open>The status code of console-data is ignored when a pod is looked up. An answer whose body is
  a JSON object with no \<open>nodeconsolename\<close>, such as the message of a 404 or 500 reply, yields
  the pod name \<open>cray-console-node-\<close> and no error, so an unassigned or unknown node looks
  assigned.\<close>

lemma getNodePodForXname_ignores_status:
  assumes "reply e (trace s) (get_request (dataAddrBase @ ''/consolepod/'' @ xn) None) =
    (Some (Json (JObj [(''message'', JStr msg)])), code, None)"
  shows "fst (getNodePodForXname xn e s) = Ok (''cray-console-node-'', None)"
  using assms
  by (simp add: getNodePodForXname_def url_runs unmarshal_def dec_ret_def dec_struct_def find_field_def
      equal_fold_def lower_def zero_ret_def)

definition missing_env :: env where
  "missing_env = quiet_env\<lparr>http_client_do :=
     (\<lambda>h r. Inr (404, Inr (Json (JObj [(''message'', JStr ''Node not found'')]))))\<rparr>"

theorem getNodePodForXname_ignores_status_witness:
  "fst (getNodePodForXname ''x9000c0s0b0n0'' missing_env init_state) = Ok (''cray-console-node-'', None)"
  by (rule getNodePodForXname_ignores_status [where code = 404 and msg = "''Node not found''"])
    (simp add: reply_def missing_env_def quiet_env_def)

end
