(* ===== verification/Health.thy ===== *)
theory Health
  imports Data
begin

text \<open>
  \<open>health.go\<close>: the probes and the status report. A report is a snapshot of the program's
  variables, printed as decimal strings.
\<close>

section \<open>Interface and data\<close>

record healthResponse =
  NumberConsoles :: string
  HardwareUpdateSec :: string
  LastHardwareUpdate :: string
  NumberNodePods :: string
  NumberRvrNodesPerPod :: string
  NumberMtnNodesPerPod :: string
  MaxRvrNodesPerPod :: string
  MaxMtnNodesPerPod :: string
  HeartbeatCheckSec :: string
  HeartbeatStaleMin :: string

record healthService =
  hs_doLiveness :: handler
  hs_doHealth :: handler
  hs_doReadiness :: handler
  hs_getCurrentHealth :: "healthResponse op"

record healthManager =
  hm_dataService :: dataService

definition enc_health :: "healthResponse \<Rightarrow> json" where
  "enc_health h = JObj
     [(''consoles'', JStr (NumberConsoles h)), (''hardwareupdatesec'', JStr (HardwareUpdateSec h)),
      (''hardwareupdate'', JStr (LastHardwareUpdate h)), (''nodepods'', JStr (NumberNodePods h)),
      (''rvrnodesperpod'', JStr (NumberRvrNodesPerPod h)), (''mtnnodesperpod'', JStr (NumberMtnNodesPerPod h)),
      (''maxrvrnodesperpod'', JStr (MaxRvrNodesPerPod h)), (''maxmtnnodesperpod'', JStr (MaxMtnNodesPerPod h)),
      (''heartbeatcheck'', JStr (HeartbeatCheckSec h)), (''heartbeatstale'', JStr (HeartbeatStaleMin h))]"

section \<open>Operations\<close>

definition getCurrentHealth :: "healthResponse op" where
  "getCurrentHealth = gets (\<lambda>s. \<lparr>
     NumberConsoles = show_int (int (length (nodeCache s))),
     HardwareUpdateSec = show_int (newHardwareCheckPeriodSec s),
     LastHardwareUpdate = hardwareUpdateTime s,
     NumberNodePods = show_int (numNodePods s),
     NumberRvrNodesPerPod = show_int (numRvrNodesPerPod s),
     NumberMtnNodesPerPod = show_int (numMtnNodesPerPod s),
     MaxRvrNodesPerPod = show_int (maxRvrNodesPerPod s),
     MaxMtnNodesPerPod = show_int (maxMtnNodesPerPod s),
     HeartbeatCheckSec = show_int (heartbeatCheckPeriodSec s),
     HeartbeatStaleMin = show_int (heartbeatStaleMinutes s)\<rparr>)"

definition doHealth :: handler where
  "doHealth r w =
     (if r_Method r \<noteq> ''GET'' then ret (not_allowed ''GET'' r w)
      else bind_go getCurrentHealth (\<lambda>stats. ret (SendResponseJSON w 200 (Some (enc_health stats)))))"

definition doLiveness :: handler where
  "doLiveness r w =
     (if r_Method r \<noteq> ''GET'' then ret (not_allowed ''GET'' r w) else ret (write_header 204 w))"

definition doReadiness :: handler where
  "doReadiness r w =
     (if r_Method r \<noteq> ''GET'' then ret (not_allowed ''GET'' r w) else ret (write_header 204 w))"

definition NewHealthManager :: "dataService \<Rightarrow> healthManager" where
  "NewHealthManager ds = \<lparr>hm_dataService = ds\<rparr>"

definition HealthManager_service :: "healthManager \<Rightarrow> healthService" where
  "HealthManager_service hm = \<lparr>
     hs_doLiveness = doLiveness,
     hs_doHealth = doHealth,
     hs_doReadiness = doReadiness,
     hs_getCurrentHealth = getCurrentHealth\<rparr>"

section \<open>The contract of the interface\<close>

locale health_service =
  fixes hs :: healthService
  assumes getCurrentHealth_pure: "\<exists>h. hs_getCurrentHealth hs e s = (Ok h, s)"
begin

lemma bind_health: "\<exists>h. bind_go (hs_getCurrentHealth hs) f e s = f h e s"
  using getCurrentHealth_pure [of e s] by (auto simp: bind_go_run)

end

interpretation hsm: health_service "HealthManager_service hm" for hm
  by unfold_locales (simp add: HealthManager_service_def getCurrentHealth_def)

section \<open>Properties\<close>

text \<open>How a client reads the report: the text under a key of the document, and the number in it.\<close>

definition report_text :: "json \<Rightarrow> string \<Rightarrow> string option" where
  "report_text doc key = (case doc of
     JObj kvs \<Rightarrow> (case map_of kvs key of Some (JStr t) \<Rightarrow> Some t | _ \<Rightarrow> None)
   | _ \<Rightarrow> None)"

definition report_number :: "json \<Rightarrow> string \<Rightarrow> int option" where
  "report_number doc key = (case report_text doc key of None \<Rightarrow> None | Some t \<Rightarrow> Atoi t)"

text \<open>The numbers of the report, by key.\<close>

definition health_numbers :: "op_state \<Rightarrow> (string \<times> int) list" where
  "health_numbers s =
     [(''consoles'', int (length (nodeCache s))), (''hardwareupdatesec'', newHardwareCheckPeriodSec s),
      (''nodepods'', numNodePods s), (''rvrnodesperpod'', numRvrNodesPerPod s),
      (''mtnnodesperpod'', numMtnNodesPerPod s), (''maxrvrnodesperpod'', maxRvrNodesPerPod s),
      (''maxmtnnodesperpod'', maxMtnNodesPerPod s), (''heartbeatcheck'', heartbeatCheckPeriodSec s),
      (''heartbeatstale'', heartbeatStaleMinutes s)]"

lemma health_document:
  "\<exists>h. getCurrentHealth e s = (Ok h, s) \<and> report_text (enc_health h) ''hardwareupdate'' = Some (hardwareUpdateTime s) \<and>
     list_all (\<lambda>(k, n). report_text (enc_health h) k = Some (show_int n)) (health_numbers s)"
  by (simp add: getCurrentHealth_def health_numbers_def report_text_def enc_health_def)

text \<open>C33: The health report can be read back. A GET request for the health report is answered with status
  200 and one document, and nothing changes. A client that looks up any of the nine numeric keys
  of the document and parses the text gets back the value of the variable the key stands for, be
  it the -1 of a value not known yet, as long as the values are machine integers; the tenth key
  has the time of the last update.\<close>

theorem health_report_roundtrip:
  assumes "r_Method r = ''GET''" and "list_all (\<lambda>(k, n). fits_int n) (health_numbers s)"
  shows "\<exists>w doc. doHealth r new_writer e s = (Ok w, s) \<and> w_status w = Some 200 \<and> w_body w = [doc] \<and>
    report_text doc ''hardwareupdate'' = Some (hardwareUpdateTime s) \<and>
    report_number doc ''consoles'' = Some (int (length (nodeCache s))) \<and>
    report_number doc ''hardwareupdatesec'' = Some (newHardwareCheckPeriodSec s) \<and>
    report_number doc ''nodepods'' = Some (numNodePods s) \<and>
    report_number doc ''rvrnodesperpod'' = Some (numRvrNodesPerPod s) \<and>
    report_number doc ''mtnnodesperpod'' = Some (numMtnNodesPerPod s) \<and>
    report_number doc ''maxrvrnodesperpod'' = Some (maxRvrNodesPerPod s) \<and>
    report_number doc ''maxmtnnodesperpod'' = Some (maxMtnNodesPerPod s) \<and>
    report_number doc ''heartbeatcheck'' = Some (heartbeatCheckPeriodSec s) \<and>
    report_number doc ''heartbeatstale'' = Some (heartbeatStaleMinutes s)"
proof -
  obtain h where h: "getCurrentHealth e s = (Ok h, s)"
    and time: "report_text (enc_health h) ''hardwareupdate'' = Some (hardwareUpdateTime s)"
    and shown: "list_all (\<lambda>(k, n). report_text (enc_health h) k = Some (show_int n)) (health_numbers s)"
    using health_document by blast
  have "list_all (\<lambda>(k, n). report_number (enc_health h) k = Some n) (health_numbers s)"
    unfolding list_all_iff
  proof (intro ballI, clarify)
    fix k n
    assume "(k, n) \<in> set (health_numbers s)"
    then have "report_text (enc_health h) k = Some (show_int n)" and "fits_int n"
      using shown assms(2) by (auto simp: list_all_iff)
    then show "report_number (enc_health h) k = Some n" by (simp add: report_number_def Atoi_show_int)
  qed
  with h time assms(1) show ?thesis
    by (intro exI [of _ "SendResponseJSON new_writer 200 (Some (enc_health h))"] exI [of _ "enc_health h"])
      (simp add: doHealth_def bind_go_run health_numbers_def)
qed

definition health_request :: request where
  "health_request = \<lparr>r_Method = ''GET'', r_URLPath = ''/console-operator/health'', r_URLParam = (\<lambda>k. ''''),
     r_Header = (\<lambda>k. ''''), r_Body = Inr (NotJson '''')\<rparr>"

theorem health_report_roundtrip_witness:
  "\<exists>w doc. doHealth health_request new_writer quiet_env init_state = (Ok w, init_state) \<and> w_body w = [doc] \<and>
    report_number doc ''nodepods'' = Some (-1) \<and> report_number doc ''heartbeatstale'' = Some 3"
proof -
  have "r_Method health_request = ''GET''" by (simp add: health_request_def)
  moreover have "list_all (\<lambda>(k, n). fits_int n) (health_numbers init_state)"
    by (simp add: health_numbers_def fits_int_def init_state_def)
  ultimately obtain w doc where "doHealth health_request new_writer quiet_env init_state = (Ok w, init_state)"
    and "w_body w = [doc]" and "report_number doc ''nodepods'' = Some (numNodePods init_state)"
    and "report_number doc ''heartbeatstale'' = Some (heartbeatStaleMinutes init_state)"
    using health_report_roundtrip [of health_request init_state quiet_env] by blast
  then show ?thesis by (auto simp: init_state_def)
qed

end
