(* ===== verification/Creds.thy ===== *)
theory Creds
  imports Data
begin

text \<open>
  \<open>creds.go\<close>: the ssh key pair for the consoles of Mountain BMCs. The private key comes from
  Vault, or is generated when Vault cannot provide it; the public key is deployed to the BMCs
  through the scsd service by a worker that batches nodes from a channel and retries those
  whose BMC did not acknowledge the key.

  The \<open>select\<close> of the worker is a step per alternative: \<open>creds_receive\<close> takes one node from the
  channel, \<open>creds_timeout\<close> is the second without a new node.
\<close>

section \<open>Constants and data\<close>

definition mountainConsoleKey :: string where
  "mountainConsoleKey = ''/var/log/console/conman.key''"

definition mountainConsoleKeyPub :: string where
  "mountainConsoleKeyPub = ''/var/log/console/conman.key.pub''"

definition svcAcctTokenFile :: string where
  "svcAcctTokenFile = ''/var/run/secrets/kubernetes.io/serviceaccount/token''"

definition vaultBase :: string where
  "vaultBase = ''http://cray-vault.vault:8200/v1''"

definition vaultBmcKeyName :: string where
  "vaultBmcKeyName = ''mountain-bmc-console''"

definition vaultBmcKeyAlg :: string where
  "vaultBmcKeyAlg = ''rsa-2048''"

record scsdNode =
  Xname :: string
  StatusCode :: int
  StatusMsg :: string

record scsdList =
  Targets :: "scsdNode list"

definition zero_scsdNode :: scsdNode where
  "zero_scsdNode = \<lparr>Xname = '''', StatusCode = 0, StatusMsg = ''''\<rparr>"

definition dec_scsdNode :: "scsdNode decoder" where
  "dec_scsdNode = dec_struct
     [(''Xname'', dec_string (\<lambda>x v. v\<lparr>Xname := x\<rparr>)),
      (''StatusCode'', dec_int (\<lambda>x v. v\<lparr>StatusCode := x\<rparr>)),
      (''StatusMsg'', dec_string (\<lambda>x v. v\<lparr>StatusMsg := x\<rparr>))]"

definition dec_scsdList :: "scsdList decoder" where
  "dec_scsdList = dec_struct
     [(''Targets'', dec_sub Targets (\<lambda>x v. v\<lparr>Targets := x\<rparr>) (dec_slice zero_scsdNode dec_scsdNode))]"

section \<open>Vault\<close>

abbreviation vault_headers :: "string \<Rightarrow> (string, string) gomap option" where
  "vault_headers vaultToken \<equiv> Some [(''X-Vault-Token'', vaultToken)]"

definition vault_keys_URL :: string where
  "vault_keys_URL = vaultBase @ ''/transit/keys/'' @ vaultBmcKeyName"

definition vault_export_URL :: string where
  "vault_export_URL = vaultBase @ ''/transit/export/signing-key/'' @ vaultBmcKeyName"

definition vault_login_URL :: string where
  "vault_login_URL = vaultBase @ ''/auth/kubernetes/login''"

text \<open>\<open>json.Marshal\<close> writes the keys of a map in sorted order.\<close>

definition vault_key_param :: payload where
  "vault_key_param = Json (JObj [(''exportable'', JStr ''true''), (''type'', JStr vaultBmcKeyAlg)])"

definition vaultGeneratePrivateKey :: "string \<Rightarrow> (payload option \<times> int \<times> go_error option) op" where
  "vaultGeneratePrivateKey vaultToken =
     bind_go (postURL vault_keys_URL (Some vault_key_param) (vault_headers vaultToken))
       (\<lambda>(response, responseCode, err).
         if err \<noteq> None then ret (response, responseCode, err)
         else if responseCode \<noteq> 204 then
           ret (response, responseCode, Some (VaultGenerateUnexpected response responseCode))
         else ret (response, responseCode, None))"

definition vaultExportPrivateKey ::
    "string \<Rightarrow> (string \<times> payload option \<times> int \<times> go_error option) op" where
  "vaultExportPrivateKey vaultToken =
     bind_go (getURL vault_export_URL (vault_headers vaultToken)) (\<lambda>(response, responseCode, err).
       case err of
         Some x \<Rightarrow> ret ('''', response, responseCode, Some (VaultGetError x))
       | None \<Rightarrow>
           if responseCode = 404 then ret ('''', response, 404, None)
           else if responseCode = 200 then
             bind_go (ask_env (\<lambda>e. gjson_get e response ''data.keys.1'')) (\<lambda>pvtKey.
               if length pvtKey = 0 then ret ('''', response, responseCode, Some VaultMissingElement)
               else ret (pvtKey, response, 200, None))
           else ret ('''', response, responseCode, Some (VaultUnexpected response responseCode)))"

definition vaultGetPrivateKey :: "string \<Rightarrow> (string \<times> go_error option) op" where
  "vaultGetPrivateKey vaultToken =
     bind_go (vaultExportPrivateKey vaultToken) (\<lambda>(pvtKey, response, responseCode, err).
       if err \<noteq> None then ret ('''', err)
       else if responseCode = 200 then ret (pvtKey, None)
       else if responseCode = 404 then
         bind_go (vaultGeneratePrivateKey vaultToken) (\<lambda>(response, responseCode, err).
           if err \<noteq> None then ret ('''', err)
           else if responseCode \<noteq> 204 then
             ret ('''', Some (VaultGenerateUnexpected response responseCode))
           else
             bind_go (vaultExportPrivateKey vaultToken) (\<lambda>(pvtKey, response, responseCode, err).
               if err \<noteq> None then ret ('''', err)
               else if responseCode \<noteq> 200 then
                 ret ('''', Some (VaultRequestUnexpected response responseCode))
               else ret (pvtKey, None)))
       else ret ('''', Some (VaultRequestUnexpected response responseCode)))"

definition vault_auth_param :: "string \<Rightarrow> payload" where
  "vault_auth_param svcAcctToken =
     Json (JObj [(''jwt'', JStr svcAcctToken), (''role'', JStr ''ssh-user-certs-compute'')])"

definition extract_command :: "string list" where
  "extract_command = [''sh'', ''-c'',
     ''ssh-keygen -yf '' @ mountainConsoleKey @ '' > '' @ mountainConsoleKeyPub]"

definition vaultGetMountainConsoleCredentials :: "go_error option op" where
  "vaultGetMountainConsoleCredentials =
     bind_go (syscall (OsReadFile svcAcctTokenFile) (\<lambda>e h. os_read_file e h svcAcctTokenFile)) (\<lambda>r.
       case r of
         Inl err \<Rightarrow> ret (Some (VaultTokenUnreadable err))
       | Inr svcAcctToken \<Rightarrow>
           bind_go (postURL vault_login_URL (Some (vault_auth_param svcAcctToken)) None)
             (\<lambda>(response, responseCode, err).
               case err of
                 Some x \<Rightarrow> ret (Some (VaultAuthError x))
               | None \<Rightarrow>
                   if responseCode \<noteq> 200 then ret (Some (VaultAuthRejected responseCode response))
                   else
                     bind_go (ask_env (\<lambda>e. gjson_get e response ''auth.client_token'')) (\<lambda>vaultToken.
                     bind_go (vaultGetPrivateKey vaultToken) (\<lambda>(pvtKey, err).
                       if err \<noteq> None then ret err
                       else
                         bind_go (syscall (OsWriteFile mountainConsoleKey pvtKey)
                                    (\<lambda>e h. os_write_file e h mountainConsoleKey pvtKey)) (\<lambda>err.
                           if err \<noteq> None then ret err
                           else
                             bind_go (syscall (ExecRun extract_command)
                                        (\<lambda>e h. snd (exec_run e h extract_command))) (\<lambda>err.
                               if err \<noteq> None then ret err else ret None))))))"

definition generateMountainConsoleCredentials :: "go_error option op" where
  "generateMountainConsoleCredentials =
     bind_go (syscall (ExecRun [''/app/console-ssh-keygen''])
                (\<lambda>e h. snd (exec_run e h [''/app/console-ssh-keygen'']))) (\<lambda>err.
       case err of
         Some x \<Rightarrow> ret (Some (KeygenError x))
       | None \<Rightarrow> ret None)"

definition ensureMountainConsoleKeysExist :: "bool op" where
  "ensureMountainConsoleKeysExist =
     bind_go (gets debugOnly) (\<lambda>dbg.
       if dbg then ret True
       else
         bind_go (syscall (OsStat mountainConsoleKey) (\<lambda>e h. os_stat e h mountainConsoleKey)) (\<lambda>errKey.
         bind_go (syscall (OsStat mountainConsoleKeyPub) (\<lambda>e h. os_stat e h mountainConsoleKeyPub)) (\<lambda>errPub.
           if errKey = StatNotExist \<or> errPub = StatNotExist then
             bind_go vaultGetMountainConsoleCredentials (\<lambda>err.
               if err \<noteq> None then
                 bind_go generateMountainConsoleCredentials (\<lambda>err.
                   if err \<noteq> None then ret False else ret True)
               else ret True)
           else ret True)))"

section \<open>Deploying the public key\<close>

definition scsd_URL :: string where
  "scsd_URL = ''http://cray-scsd/v1/bmc/loadcfg''"

definition scsd_param :: "string list \<Rightarrow> string \<Rightarrow> payload" where
  "scsd_param targets pubKey = Json (JObj
     [(''Force'', JBool False),
      (''Params'', JObj [(''SSHConsoleKey'', JStr pubKey)]),
      (''Targets'', JArr (map JStr targets))])"

definition mtn_bmc_list :: "nodeConsoleInfo list \<Rightarrow> (string, string) gomap" where
  "mtn_bmc_list nodes =
     fold (\<lambda>nodeCi m. if isMountain nodeCi then map_set (BmcFqdn nodeCi) (BmcName nodeCi) m else m)
       nodes []"

definition deployMountainConsoleKeys :: "nodeConsoleInfo list \<Rightarrow> (bool \<times> scsdList) op" where
  "deployMountainConsoleKeys nodes =
     bind_go (gets debugOnly) (\<lambda>dbg.
       if dbg then ret (True, \<lparr>Targets = []\<rparr>)
       else
         bind_go (syscall (OsReadFile mountainConsoleKeyPub)
                    (\<lambda>e h. os_read_file e h mountainConsoleKeyPub)) (\<lambda>r.
           case r of
             Inl err \<Rightarrow> ret (False, \<lparr>Targets = []\<rparr>)
           | Inr pubKey \<Rightarrow>
               (let mtnNodeBmcArray = map_keys (mtn_bmc_list nodes)
                in bind_go (postURL scsd_URL (Some (scsd_param mtnNodeBmcArray pubKey)) None)
                     (\<lambda>(data, rc, _).
                       let success = rc < 300;
                           (scsdReply, err) = unmarshal dec_scsdList \<lparr>Targets = []\<rparr> data
                       in ret (success, scsdReply)))))"

text \<open>\<open>bmcMap\<close>: the node keys of each BMC.\<close>

definition bmc_map :: "(string, nodeConsoleInfo) gomap \<Rightarrow> (string, string list) gomap" where
  "bmc_map nodesToUpdate =
     fold (\<lambda>(nodeKey, node) m.
       map_set (BmcName node) ((case map_of m (BmcName node) of None \<Rightarrow> [] | Some ks \<Rightarrow> ks) @ [nodeKey]) m)
       nodesToUpdate []"

text \<open>The node list starts with as many zero nodes as there are entries, then the entries.\<close>

definition creds_node_list :: "(string, nodeConsoleInfo) gomap \<Rightarrow> nodeConsoleInfo list" where
  "creds_node_list nodesToUpdate =
     replicate (length nodesToUpdate) zero_node @ map_values nodesToUpdate"

definition remove_acknowledged ::
    "(string, string list) gomap \<Rightarrow> scsdNode list \<Rightarrow> (string, nodeConsoleInfo) gomap \<Rightarrow>
       (string, nodeConsoleInfo) gomap" where
  "remove_acknowledged bmcMap targets nodesToUpdate =
     fold (\<lambda>t m.
       if StatusCode t = 204
       then fold map_delete (case map_of bmcMap (Xname t) of None \<Rightarrow> [] | Some ks \<Rightarrow> ks) m
       else m) targets nodesToUpdate"

definition doMountainCredsUpdate ::
    "(string, nodeConsoleInfo) gomap \<Rightarrow> (string, nodeConsoleInfo) gomap op" where
  "doMountainCredsUpdate nodesToUpdate =
     bind_go (deployMountainConsoleKeys (creds_node_list nodesToUpdate)) (\<lambda>(success, reply).
       if \<not> success then ret nodesToUpdate
       else ret (remove_acknowledged (bmc_map nodesToUpdate) (Targets reply) nodesToUpdate))"

section \<open>The worker\<close>

definition creds_receive :: "(string, nodeConsoleInfo) gomap \<Rightarrow> (string, nodeConsoleInfo) gomap op" where
  "creds_receive nodesToUpdate =
     bind_go (gets mountainCredsUpdateChannel) (\<lambda>q.
       case q of
         [] \<Rightarrow> ret nodesToUpdate
       | node # q' \<Rightarrow>
           then_go (modify (\<lambda>s. s\<lparr>mountainCredsUpdateChannel := q'\<rparr>))
             (ret (map_set (NodeName node) node nodesToUpdate)))"

definition creds_timeout :: "(string, nodeConsoleInfo) gomap \<Rightarrow> (string, nodeConsoleInfo) gomap op" where
  "creds_timeout nodesToUpdate =
     (if length nodesToUpdate > 0 then
        bind_go (doMountainCredsUpdate nodesToUpdate) (\<lambda>nodesToUpdate.
          if length nodesToUpdate > 0 then
            then_go (syscall (TimeSleep 60) (\<lambda>e h. ())) (ret nodesToUpdate)
          else ret nodesToUpdate)
      else ret nodesToUpdate)"

datatype creds_select = Receive | Timeout

text \<open>The loop, for the sequence of alternatives \<open>select\<close> chooses.\<close>

fun doMountainCredsUpdates ::
    "creds_select list \<Rightarrow> (string, nodeConsoleInfo) gomap \<Rightarrow> (string, nodeConsoleInfo) gomap op" where
  "doMountainCredsUpdates [] nodesToUpdate = ret nodesToUpdate"
| "doMountainCredsUpdates (c # cs) nodesToUpdate =
     bind_go (case c of Receive \<Rightarrow> creds_receive nodesToUpdate | Timeout \<Rightarrow> creds_timeout nodesToUpdate)
       (doMountainCredsUpdates cs)"

section \<open>Vault\<close>

abbreviation export_request :: "string \<Rightarrow> http_request" where
  "export_request tok \<equiv> get_request vault_export_URL (vault_headers tok)"

abbreviation generate_request :: "string \<Rightarrow> http_request" where
  "generate_request tok \<equiv> body_request ''POST'' vault_keys_URL (Some vault_key_param) (vault_headers tok)"

text \<open>What an export request comes back with.\<close>

definition export_result :: "env \<Rightarrow> history \<Rightarrow> string \<Rightarrow> string \<times> payload option \<times> int \<times> go_error option" where
  "export_result e h tok =
     (case reply e h (export_request tok) of
        (response, code, Some x) \<Rightarrow> ('''', response, code, Some (VaultGetError x))
      | (response, code, None) \<Rightarrow>
          if code = 404 then ('''', response, 404, None)
          else if code = 200 then
            (if gjson_get e response ''data.keys.1'' = ''''
             then ('''', response, code, Some VaultMissingElement)
             else (gjson_get e response ''data.keys.1'', response, 200, None))
          else ('''', response, code, Some (VaultUnexpected response code)))"

lemma vaultExportPrivateKey_run:
  "vaultExportPrivateKey tok e s =
     (Ok (export_result e (trace s) tok), s\<lparr>trace := trace s @ sent e (export_request tok)\<rparr>)"
  by (simp add: vaultExportPrivateKey_def url_runs export_result_def split: prod.split option.split)

lemma export_result_ok:
  assumes "export_result e h tok = (k, response, code, None)"
  shows "code = 200 \<and> k \<noteq> '''' \<or> code = 404 \<and> k = ''''"
  using assms by (auto simp: export_result_def split: prod.splits option.splits if_splits)

lemma export_result_missing:
  "(\<exists>r. export_result e h tok = ('''', r, 404, None)) \<longleftrightarrow>
   (\<exists>r. reply e h (export_request tok) = (r, 404, None))"
  by (auto simp: export_result_def split: prod.splits option.splits if_splits)

lemma vaultGeneratePrivateKey_run:
  "vaultGeneratePrivateKey tok e s =
     (Ok (case reply e (trace s) (generate_request tok) of
            (r, c, err) \<Rightarrow> (r, c, if err = None \<and> c \<noteq> 204 then Some (VaultGenerateUnexpected r c) else err)),
      s\<lparr>trace := trace s @ sent e (generate_request tok)\<rparr>)"
  by (auto simp: vaultGeneratePrivateKey_def url_runs split: prod.split)

lemma export_not_generate [simp]:
  "HttpDo (generate_request tok) \<notin> set (sent e (export_request tok))"
  by (simp add: sent_def get_request_def body_request_def)

lemma generate_sent [simp]:
  "HttpDo (generate_request tok) \<in> set (sent e (generate_request tok)) \<longleftrightarrow>
     http_new_request e ''POST'' vault_keys_URL = None"
  by (simp add: sent_def)

lemma vaultGetPrivateKey_missing:
  assumes "reply e (trace s) (export_request tok) = (r, 404, None)"
  shows "\<exists>k err evs. vaultGetPrivateKey tok e s = (Ok (k, err), s\<lparr>trace := trace s @ evs\<rparr>) \<and>
    (err = None \<longleftrightarrow> k \<noteq> '''') \<and>
    (HttpDo (generate_request tok) \<in> set evs \<longleftrightarrow> http_new_request e ''POST'' vault_keys_URL = None)"
proof -
  let ?h1 = "trace s @ sent e (export_request tok)"
  let ?h2 = "?h1 @ sent e (generate_request tok)"
  have x: "export_result e (trace s) tok = ('''', r, 404, None)"
    using assms by (simp add: export_result_def)
  obtain r1 c1 err1 where g: "reply e ?h1 (generate_request tok) = (r1, c1, err1)"
    by (cases "reply e ?h1 (generate_request tok)")
  obtain k2 r2 c2 err2 where x2: "export_result e ?h2 tok = (k2, r2, c2, err2)"
    by (cases "export_result e ?h2 tok")
  let ?failed = "err1 \<noteq> None \<or> c1 \<noteq> 204"
  let ?evs = "sent e (export_request tok) @ sent e (generate_request tok) @
      (if ?failed then [] else sent e (export_request tok))"
  have "err2 = None \<Longrightarrow> c2 = 200 \<and> k2 \<noteq> '''' \<or> c2 = 404 \<and> k2 = ''''"
    using x2 export_result_ok by blast
  moreover have "vaultGetPrivateKey tok e s =
      (Ok (if err1 \<noteq> None then ('''', err1)
           else if c1 \<noteq> 204 then ('''', Some (VaultGenerateUnexpected r1 c1))
           else if err2 \<noteq> None then ('''', err2)
           else if c2 \<noteq> 200 then ('''', Some (VaultRequestUnexpected r2 c2)) else (k2, None)),
       s\<lparr>trace := trace s @ ?evs\<rparr>)"
    using g x2
    by (simp add: vaultGetPrivateKey_def bind_go_def vaultExportPrivateKey_run x
        vaultGeneratePrivateKey_run del: not_None_eq)
  ultimately show ?thesis
    by (intro exI [of _ "if ?failed \<or> err2 \<noteq> None \<or> c2 \<noteq> 200 then '''' else k2"]
        exI [of _ "if err1 \<noteq> None then err1 else if c1 \<noteq> 204 then Some (VaultGenerateUnexpected r1 c1)
           else if err2 \<noteq> None then err2 else if c2 \<noteq> 200 then Some (VaultRequestUnexpected r2 c2) else None"]
        exI [of _ ?evs]) auto
qed

lemma vaultGetPrivateKey_present:
  assumes "\<nexists>r. reply e (trace s) (export_request tok) = (r, 404, None)"
  shows "\<exists>k err. vaultGetPrivateKey tok e s =
      (Ok (k, err), s\<lparr>trace := trace s @ sent e (export_request tok)\<rparr>) \<and> (err = None \<longleftrightarrow> k \<noteq> '''')"
proof -
  obtain k r c err where x: "export_result e (trace s) tok = (k, r, c, err)"
    by (cases "export_result e (trace s) tok")
  have ok: "c = 200 \<and> k \<noteq> ''''" if "err = None"
    using export_result_ok [of e "trace s" tok k r c] export_result_missing [of e "trace s" tok] x that assms
    by auto
  then have "vaultGetPrivateKey tok e s = (Ok (if err = None then k else '''', err),
      s\<lparr>trace := trace s @ sent e (export_request tok)\<rparr>)"
    by (auto simp: vaultGetPrivateKey_def bind_go_def vaultExportPrivateKey_run x)
  with ok show ?thesis by auto
qed

text \<open>C18: Vault is asked for a new key only when it has none. \<open>vaultGetPrivateKey\<close> always returns,
  changes no global, and returns a non-empty key exactly when it returns no error; the request
  that generates a key is made exactly when the first export was answered with 404 (and the
  request can be formed), so an existing key is never replaced.\<close>

theorem vaultGetPrivateKey_generates_only_when_missing:
  "\<exists>k err evs. vaultGetPrivateKey tok e s = (Ok (k, err), s\<lparr>trace := trace s @ evs\<rparr>) \<and>
    (err = None \<longleftrightarrow> k \<noteq> '''') \<and>
    (HttpDo (generate_request tok) \<in> set evs \<longleftrightarrow>
       (\<exists>r. reply e (trace s) (export_request tok) = (r, 404, None)) \<and>
       http_new_request e ''POST'' vault_keys_URL = None)"
proof (cases "\<exists>r. reply e (trace s) (export_request tok) = (r, 404, None)")
  case True
  then show ?thesis using vaultGetPrivateKey_missing by fastforce
next
  case False
  then obtain k err where "vaultGetPrivateKey tok e s =
      (Ok (k, err), s\<lparr>trace := trace s @ sent e (export_request tok)\<rparr>)" "err = None \<longleftrightarrow> k \<noteq> ''''"
    using vaultGetPrivateKey_present by blast
  with False show ?thesis
    by (intro exI [of _ k] exI [of _ err] exI [of _ "sent e (export_request tok)"]) simp
qed

section \<open>Making sure there is a key pair\<close>

lemma emits_vaultExport: "preserves (emits no_inventory s0) (vaultExportPrivateKey tok)"
  unfolding vaultExportPrivateKey_def
  by (intro preserves_intros url_emits) (simp add: vault_export_URL_def inventory_URL_def vaultBase_def dataAddrBase_def)

lemma emits_vaultGenerate: "preserves (emits no_inventory s0) (vaultGeneratePrivateKey tok)"
  unfolding vaultGeneratePrivateKey_def
  by (intro preserves_intros url_emits) (simp add: vault_keys_URL_def inventory_URL_def vaultBase_def dataAddrBase_def)

lemma emits_vaultGetPrivateKey: "preserves (emits no_inventory s0) (vaultGetPrivateKey tok)"
  unfolding vaultGetPrivateKey_def
  by (intro preserves_intros emits_vaultExport emits_vaultGenerate)

lemma no_inventory_local [simp]: "not_http ev \<Longrightarrow> no_inventory ev"
  by (rule read_only_no_inventory, rule not_http_read_only)

lemma emits_vaultCredentials: "preserves (emits no_inventory s0) vaultGetMountainConsoleCredentials"
  unfolding vaultGetMountainConsoleCredentials_def
  by (intro k8s_emits url_emits emits_vaultGetPrivateKey)
    (simp_all add: vault_login_URL_def inventory_URL_def vaultBase_def dataAddrBase_def)

lemma emits_generate: "preserves (emits no_inventory s0) generateMountainConsoleCredentials"
  unfolding generateMountainConsoleCredentials_def by (intro k8s_emits) simp_all

lemma emits_ensureKeys: "preserves (emits no_inventory s0) ensureMountainConsoleKeysExist"
  unfolding ensureMountainConsoleKeysExist_def
  by (intro k8s_emits emits_vaultCredentials emits_generate) simp_all

lemma only_calls_vaultExport [calls_intros]: "only_calls (vaultExportPrivateKey tok)"
  unfolding vaultExportPrivateKey_def by (intro calls_intros)

lemma only_calls_vaultGenerate [calls_intros]: "only_calls (vaultGeneratePrivateKey tok)"
  unfolding vaultGeneratePrivateKey_def by (intro calls_intros)

lemma only_calls_vaultGetPrivateKey [calls_intros]: "only_calls (vaultGetPrivateKey tok)"
  unfolding vaultGetPrivateKey_def by (intro calls_intros)

lemma only_calls_vaultCredentials [calls_intros]: "only_calls vaultGetMountainConsoleCredentials"
  unfolding vaultGetMountainConsoleCredentials_def by (intro calls_intros)

lemma only_calls_generate [calls_intros]: "only_calls generateMountainConsoleCredentials"
  unfolding generateMountainConsoleCredentials_def by (intro calls_intros)

lemma only_calls_ensureKeys [calls_intros]: "only_calls ensureMountainConsoleKeysExist"
  unfolding ensureMountainConsoleKeysExist_def by (intro calls_intros)

definition keys_missing :: "env \<Rightarrow> history \<Rightarrow> bool" where
  "keys_missing e h \<longleftrightarrow> os_stat e h mountainConsoleKey = StatNotExist \<or>
     os_stat e (h @ [OsStat mountainConsoleKey]) mountainConsoleKeyPub = StatNotExist"

lemma generate_run:
  "generateMountainConsoleCredentials e s =
     (Ok (map_option KeygenError (snd (exec_run e (trace s) [''/app/console-ssh-keygen'']))),
      s\<lparr>trace := trace s @ [ExecRun [''/app/console-ssh-keygen'']]\<rparr>)"
  by (simp add: generateMountainConsoleCredentials_def split: option.split)

text \<open>The key pair is made once. In normal operation \<open>ensureMountainConsoleKeysExist\<close> looks at both
  files; if both are there it does nothing else. If one is missing, Vault is tried, and only
  when Vault fails is the local generator run; the result is false exactly when both fail.\<close>

lemma ensureMountainConsoleKeysExist_outcome:
  assumes "\<not> debugOnly s"
    and "h2 = trace s @ [OsStat mountainConsoleKey, OsStat mountainConsoleKeyPub]"
    and "vaultGetMountainConsoleCredentials e (s\<lparr>trace := h2\<rparr>) = (Ok verr, v)"
  shows "ensureMountainConsoleKeysExist e s =
    (if \<not> keys_missing e (trace s) then (Ok True, s\<lparr>trace := h2\<rparr>)
     else if verr = None then (Ok True, v)
     else (Ok (snd (exec_run e (trace v) [''/app/console-ssh-keygen'']) = None),
           v\<lparr>trace := trace v @ [ExecRun [''/app/console-ssh-keygen'']]\<rparr>))"
  using assms
  by (simp add: ensureMountainConsoleKeysExist_def keys_missing_def bind_go_run generate_run)

section \<open>Deployment\<close>

abbreviation scsd_request :: "nodeConsoleInfo list \<Rightarrow> string \<Rightarrow> http_request" where
  "scsd_request nodes pubKey \<equiv>
     body_request ''POST'' scsd_URL (Some (scsd_param (map_keys (mtn_bmc_list nodes)) pubKey)) None"

definition scsd_targets :: "payload option \<Rightarrow> scsdNode list" where
  "scsd_targets data = Targets (fst (unmarshal dec_scsdList \<lparr>Targets = []\<rparr> data))"

definition scsd_success :: "payload option \<times> int \<times> go_error option \<Rightarrow> bool" where
  "scsd_success r = (case r of (_, rc, _) \<Rightarrow> rc < 300)"

lemma deployMountainConsoleKeys_run:
  "deployMountainConsoleKeys nodes e s =
     (if debugOnly s then (Ok (True, \<lparr>Targets = []\<rparr>), s)
      else
        (let h1 = trace s @ [OsReadFile mountainConsoleKeyPub]
         in case os_read_file e (trace s) mountainConsoleKeyPub of
              Inl err \<Rightarrow> (Ok (False, \<lparr>Targets = []\<rparr>), s\<lparr>trace := h1\<rparr>)
            | Inr pubKey \<Rightarrow>
                (let r = reply e h1 (scsd_request nodes pubKey)
                 in (Ok (scsd_success r, \<lparr>Targets = scsd_targets (fst r)\<rparr>),
                     s\<lparr>trace := h1 @ sent e (scsd_request nodes pubKey)\<rparr>))))"
  by (simp add: deployMountainConsoleKeys_def bind_go_def Let_def post.call_run scsd_targets_def
      scsd_success_def split: sum.split prod.split)

lemma mtn_bmc_keys:
  "set (map_keys (mtn_bmc_list nodes)) = BmcFqdn ` {n \<in> set nodes. isMountain n}"
  "distinct (map_keys (mtn_bmc_list nodes))"
proof -
  let ?f = "\<lambda>n m. if isMountain n then map_set (BmcFqdn n) (BmcName n) m else m"
  have "set (map_keys (fold ?f nodes m)) = set (map_keys m) \<union> BmcFqdn ` {n \<in> set nodes. isMountain n}" for m
    by (induction nodes arbitrary: m) (auto simp: dom_update)
  from this [of "[]"] show "set (map_keys (mtn_bmc_list nodes)) = BmcFqdn ` {n \<in> set nodes. isMountain n}"
    by (simp add: mtn_bmc_list_def)
  have "distinct (map_keys m) \<Longrightarrow> distinct (map_keys (fold ?f nodes m))" for m
    by (induction nodes arbitrary: m) (auto simp: distinct_update)
  from this [of "[]"] show "distinct (map_keys (mtn_bmc_list nodes))" by (simp add: mtn_bmc_list_def)
qed

text \<open>C16: One update per Mountain BMC. A deployment sends at most one request to scsd, and its targets
  are the BMCs of the Mountain nodes among the given ones, each exactly once; River and
  Paradise BMCs and the zero nodes that pad the list are never targets.\<close>

theorem deployMountainConsoleKeys_targets:
  assumes "\<not> debugOnly s" and "os_read_file e (trace s) mountainConsoleKeyPub = Inr pubKey"
  shows "\<exists>targets ok reply. deployMountainConsoleKeys nodes e s = (Ok (ok, reply), s\<lparr>trace := trace s @
        OsReadFile mountainConsoleKeyPub #
        sent e (body_request ''POST'' scsd_URL (Some (scsd_param targets pubKey)) None)\<rparr>) \<and>
    distinct targets \<and> set targets = BmcFqdn ` set (filter isMountain nodes)"
proof -
  have "set (map_keys (mtn_bmc_list nodes)) = BmcFqdn ` set (filter isMountain nodes)"
    by (simp only: mtn_bmc_keys(1) set_filter)
  with assms mtn_bmc_keys(2) [of nodes] show ?thesis
    by (intro exI [of _ "map_keys (mtn_bmc_list nodes)"])
      (simp add: deployMountainConsoleKeys_run Let_def split: prod.split)
qed

definition mtn_node :: "string \<Rightarrow> string \<Rightarrow> nodeConsoleInfo" where
  "mtn_node n b = \<lparr>NodeName = n, BmcName = b, BmcFqdn = b @ ''.hmn'', Class = ''Mountain'',
     NID = 1, Role = ''Compute''\<rparr>"

theorem deployMountainConsoleKeys_targets_witness:
  "\<exists>targets ok reply. deployMountainConsoleKeys
      [zero_node, mtn_node ''x1c0s0b0n0'' ''x1c0s0b0'', mtn_node ''x1c0s0b0n1'' ''x1c0s0b0'']
      quiet_env init_state = (Ok (ok, reply), init_state\<lparr>trace := trace init_state @
        OsReadFile mountainConsoleKeyPub #
        sent quiet_env (body_request ''POST'' scsd_URL (Some (scsd_param targets ''key'')) None)\<rparr>) \<and>
    distinct targets \<and> set targets = {''x1c0s0b0.hmn''}"
proof -
  have "\<not> debugOnly init_state"
    and "os_read_file quiet_env (trace init_state) mountainConsoleKeyPub = Inr ''key''"
    by (simp_all add: init_state_def quiet_env_def)
  moreover have "BmcFqdn ` set (filter isMountain [zero_node, mtn_node ''x1c0s0b0n0'' ''x1c0s0b0'',
      mtn_node ''x1c0s0b0n1'' ''x1c0s0b0'']) = {''x1c0s0b0.hmn''}"
    by (simp add: mtn_node_def zero_node_def isMountain_def)
  ultimately show ?thesis
    using deployMountainConsoleKeys_targets [of init_state quiet_env "''key''"
        "[zero_node, mtn_node ''x1c0s0b0n0'' ''x1c0s0b0'', mtn_node ''x1c0s0b0n1'' ''x1c0s0b0'']"]
    by (simp only:) blast
qed

section \<open>The worker keeps every node until its BMC has acknowledged the key\<close>

definition acknowledged :: "scsdNode list \<Rightarrow> string \<Rightarrow> bool" where
  "acknowledged ts bmc \<longleftrightarrow> list_ex (\<lambda>t. Xname t = bmc \<and> StatusCode t = 204) ts"

lemma bmc_map_lookup:
  "(case map_of (bmc_map m) b of None \<Rightarrow> [] | Some ks \<Rightarrow> ks) =
     map fst (filter (\<lambda>(k, n). BmcName n = b) m)"
proof -
  let ?f = "\<lambda>(k, n) bm. map_set (BmcName n)
      ((case map_of bm (BmcName n) of None \<Rightarrow> [] | Some ks \<Rightarrow> ks) @ [k]) bm"
  have "(case map_of (fold ?f m bm) b of None \<Rightarrow> [] | Some ks \<Rightarrow> ks) =
      (case map_of bm b of None \<Rightarrow> [] | Some ks \<Rightarrow> ks) @ map fst (filter (\<lambda>(k, n). BmcName n = b) m)"
    for bm :: "(string, string list) gomap"
    by (induction m arbitrary: bm) (auto simp: update_conv' split: option.splits)
  from this [of "[]"] show ?thesis by (simp add: bmc_map_def case_prod_unfold)
qed

lemma fold_delete: "fold map_delete ks m = filter (\<lambda>(k, n). k \<notin> set ks) m"
  by (induction ks arbitrary: m) (auto simp: AList.delete_eq case_prod_unfold intro!: filter_cong)

lemma remove_acknowledged_filter:
  assumes "wf_map m"
  shows "remove_acknowledged (bmc_map m) ts m = filter (\<lambda>(k, n). \<not> acknowledged ts (BmcName n)) m"
proof -
  have key: "k \<in> set (map fst (filter (\<lambda>(k, n). BmcName n = b) m)) \<longleftrightarrow> BmcName n = b"
    if "(k, n) \<in> set m" for k n b
    using that assms by (auto simp: wf_map_in_set image_iff)
  have "remove_acknowledged (bmc_map m) ts m' = filter (\<lambda>(k, n). \<not> acknowledged ts (BmcName n)) m'"
    if "set m' \<subseteq> set m" for m'
    using that
  proof (induction ts arbitrary: m')
    case Nil
    then show ?case by (simp add: remove_acknowledged_def acknowledged_def case_prod_unfold)
  next
    case (Cons t ts)
    let ?m1 = "if StatusCode t = 204 then filter (\<lambda>(k, n). BmcName n \<noteq> Xname t) m' else m'"
    have "fold map_delete (map fst (filter (\<lambda>(k, n). BmcName n = Xname t) m)) m' =
        filter (\<lambda>(k, n). BmcName n \<noteq> Xname t) m'"
      unfolding fold_delete
    proof (rule filter_cong [OF refl])
      fix x
      assume "x \<in> set m'"
      with Cons.prems obtain k n where "x = (k, n)" and "(k, n) \<in> set m" by (cases x) auto
      with key show "(case x of (k, n) \<Rightarrow> k \<notin> set (map fst (filter (\<lambda>(k, n). BmcName n = Xname t) m))) =
          (case x of (k, n) \<Rightarrow> BmcName n \<noteq> Xname t)"
        by simp
    qed
    then have "remove_acknowledged (bmc_map m) (t # ts) m' = remove_acknowledged (bmc_map m) ts ?m1"
      by (simp add: remove_acknowledged_def bmc_map_lookup)
    also have "\<dots> = filter (\<lambda>(k, n). \<not> acknowledged ts (BmcName n)) ?m1"
      using Cons.prems by (intro Cons.IH) auto
    also have "\<dots> = filter (\<lambda>(k, n). \<not> acknowledged (t # ts) (BmcName n)) m'"
      by (auto simp: acknowledged_def intro!: filter_cong)
    finally show ?case .
  qed
  then show ?thesis by simp
qed

text \<open>The targets an attempt acknowledges, and the events it leaves.\<close>

definition creds_answer :: "(string, nodeConsoleInfo) gomap \<Rightarrow> env \<Rightarrow> op_state \<Rightarrow> scsdNode list" where
  "creds_answer m e s =
     (if debugOnly s then []
      else case os_read_file e (trace s) mountainConsoleKeyPub of
        Inl err \<Rightarrow> []
      | Inr pubKey \<Rightarrow>
          (let r = reply e (trace s @ [OsReadFile mountainConsoleKeyPub])
                     (scsd_request (creds_node_list m) pubKey)
           in if scsd_success r then scsd_targets (fst r) else []))"

definition creds_events :: "(string, nodeConsoleInfo) gomap \<Rightarrow> env \<Rightarrow> op_state \<Rightarrow> event list" where
  "creds_events m e s =
     (if debugOnly s then []
      else OsReadFile mountainConsoleKeyPub #
        (case os_read_file e (trace s) mountainConsoleKeyPub of
           Inl err \<Rightarrow> []
         | Inr pubKey \<Rightarrow> sent e (scsd_request (creds_node_list m) pubKey)))"

lemma doMountainCredsUpdate_run:
  assumes "wf_map m"
  shows "doMountainCredsUpdate m e s =
    (Ok (filter (\<lambda>(k, n). \<not> acknowledged (creds_answer m e s) (BmcName n)) m),
     s\<lparr>trace := trace s @ creds_events m e s\<rparr>)"
proof -
  have none: "filter (\<lambda>(k, n). \<not> acknowledged [] (BmcName n)) m = m"
    by (simp add: acknowledged_def case_prod_unfold)
  show ?thesis
    by (simp add: doMountainCredsUpdate_def bind_go_def deployMountainConsoleKeys_run Let_def
        creds_answer_def creds_events_def remove_acknowledged_filter [OF assms] none
        split: sum.split)
qed

text \<open>C15: What a batch update keeps. After an attempt exactly those nodes remain to be updated whose
  BMC was not acknowledged with code 204 in a successful reply of scsd; when the key file
  cannot be read or scsd refuses the request all nodes remain. The attempt changes no global.\<close>

theorem doMountainCredsUpdate_remaining:
  assumes "keyed_by NodeName m"
  shows "\<exists>m' evs. doMountainCredsUpdate m e s = (Ok m', s\<lparr>trace := trace s @ evs\<rparr>) \<and>
    keyed_by NodeName m' \<and>
    (\<forall>n. map_of m' (NodeName n) = Some n \<longleftrightarrow>
       map_of m (NodeName n) = Some n \<and> \<not> acknowledged (creds_answer m e s) (BmcName n))"
proof -
  let ?m = "filter (\<lambda>(k, n). \<not> acknowledged (creds_answer m e s) (BmcName n)) m"
  have wf: "wf_map m" using assms by (simp add: keyed_by_def)
  then have wf': "wf_map ?m" by (simp add: wf_map_def distinct_map_filter)
  with assms have "keyed_by NodeName ?m" by (auto simp: keyed_by_def)
  moreover have "map_of ?m (NodeName n) = Some n \<longleftrightarrow>
       map_of m (NodeName n) = Some n \<and> \<not> acknowledged (creds_answer m e s) (BmcName n)" for n
    by (auto simp: wf_map_in_set [OF wf, symmetric] wf_map_in_set [OF wf', symmetric])
  ultimately show ?thesis
    by (intro exI [of _ ?m] exI [of _ "creds_events m e s"]) (simp add: doMountainCredsUpdate_run [OF wf])
qed

text \<open>An scsd that acknowledges one BMC and refuses the other.\<close>

definition scsd_doc :: "scsdNode list \<Rightarrow> payload" where
  "scsd_doc ts = Json (JObj [(''Targets'', JArr (map (\<lambda>t. JObj [(''Xname'', JStr (Xname t)),
     (''StatusCode'', enc_int (StatusCode t)), (''StatusMsg'', JStr (StatusMsg t))]) ts))])"

lemma scsd_targets_doc:
  assumes "\<forall>t \<in> set ts. fits_int (StatusCode t)"
  shows "scsd_targets (Some (scsd_doc ts)) = ts"
proof -
  have "dec_scsdNode (JObj [(''Xname'', JStr (Xname t)), (''StatusCode'', enc_int (StatusCode t)),
      (''StatusMsg'', JStr (StatusMsg t))]) zero_scsdNode = (t, False)" if "t \<in> set ts" for t
    using that assms
    by (simp add: dec_scsdNode_def dec_struct_def find_field_def zero_scsdNode_def)
  then show ?thesis
    by (simp add: scsd_targets_def scsd_doc_def unmarshal_def dec_scsdList_def dec_struct_def
        find_field_def dec_sub_def dec_slice_map)
qed

definition scsd_env :: "scsdNode list \<Rightarrow> env" where
  "scsd_env ts = quiet_env\<lparr>http_client_do := (\<lambda>h r. Inr (200, Inr (scsd_doc ts)))\<rparr>"

definition sample_batch :: "(string, nodeConsoleInfo) gomap" where
  "sample_batch = index_by NodeName
     [mtn_node ''x1c0s0b0n0'' ''x1c0s0b0'', mtn_node ''x1c0s0b0n1'' ''x1c0s0b0'',
      mtn_node ''x1c0s1b0n0'' ''x1c0s1b0'']"

definition sample_acks :: "scsdNode list" where
  "sample_acks = [\<lparr>Xname = ''x1c0s0b0'', StatusCode = 204, StatusMsg = ''OK''\<rparr>,
     \<lparr>Xname = ''x1c0s1b0'', StatusCode = 422, StatusMsg = ''bad HSM state''\<rparr>]"

lemma sample_answer: "creds_answer sample_batch (scsd_env sample_acks) init_state = sample_acks"
proof -
  have "scsd_targets (Some (scsd_doc sample_acks)) = sample_acks"
    by (rule scsd_targets_doc) (simp add: sample_acks_def fits_int_def)
  then show ?thesis
    by (simp add: creds_answer_def init_state_def scsd_env_def quiet_env_def reply_def scsd_success_def)
qed

theorem doMountainCredsUpdate_remaining_witness:
  "\<exists>m' evs. doMountainCredsUpdate sample_batch (scsd_env sample_acks) init_state =
      (Ok m', init_state\<lparr>trace := trace init_state @ evs\<rparr>) \<and>
    map_of m' ''x1c0s0b0n0'' \<noteq> Some (mtn_node ''x1c0s0b0n0'' ''x1c0s0b0'') \<and>
    map_of m' ''x1c0s1b0n0'' = Some (mtn_node ''x1c0s1b0n0'' ''x1c0s1b0'')"
proof -
  have "keyed_by NodeName sample_batch" by (simp add: sample_batch_def)
  then obtain m' evs where d: "doMountainCredsUpdate sample_batch (scsd_env sample_acks) init_state =
      (Ok m', init_state\<lparr>trace := trace init_state @ evs\<rparr>)"
    and m: "\<And>n. map_of m' (NodeName n) = Some n \<longleftrightarrow>
       map_of sample_batch (NodeName n) = Some n \<and> \<not> acknowledged sample_acks (BmcName n)"
    using doMountainCredsUpdate_remaining sample_answer by metis
  have "map_of m' ''x1c0s0b0n0'' \<noteq> Some (mtn_node ''x1c0s0b0n0'' ''x1c0s0b0'')"
    using m [of "mtn_node ''x1c0s0b0n0'' ''x1c0s0b0''"]
    by (simp add: mtn_node_def acknowledged_def sample_acks_def)
  moreover have "map_of m' ''x1c0s1b0n0'' = Some (mtn_node ''x1c0s1b0n0'' ''x1c0s1b0'')"
    using m [of "mtn_node ''x1c0s1b0n0'' ''x1c0s1b0''"]
    by (simp add: mtn_node_def acknowledged_def sample_acks_def sample_batch_def index_by_def)
  ultimately show ?thesis using d by blast
qed

text \<open>Between two points of the history scsd acknowledged the key for a BMC.\<close>

definition acked_since :: "env \<Rightarrow> history \<Rightarrow> history \<Rightarrow> string \<Rightarrow> bool" where
  "acked_since e h0 h bmc \<longleftrightarrow>
     (\<exists>h1 req h2. h = h0 @ h1 @ HttpDo req # h2 \<and> req_url req = scsd_URL \<and>
        scsd_success (reply e (h0 @ h1) req) \<and> acknowledged (scsd_targets (fst (reply e (h0 @ h1) req))) bmc)"

lemma acked_since_append: "acked_since e h0 h bmc \<Longrightarrow> acked_since e h0 (h @ evs) bmc"
  unfolding acked_since_def by fastforce

lemma acked_since_earlier: "acked_since e (h0 @ evs) h bmc \<Longrightarrow> acked_since e h0 h bmc"
  unfolding acked_since_def by (metis append_assoc)

lemma not_acknowledged_Nil [simp]: "\<not> acknowledged [] b"
  by (simp add: acknowledged_def)

lemma scsd_targets_None [simp]: "scsd_targets None = []"
  by (simp add: scsd_targets_def unmarshal_def)

lemma answer_acked_since:
  assumes "acknowledged (creds_answer m e s) b"
  shows "acked_since e (trace s) (trace s @ creds_events m e s) b"
proof -
  let ?h1 = "[OsReadFile mountainConsoleKeyPub]"
  from assms obtain pubKey where d: "\<not> debugOnly s"
    and k: "os_read_file e (trace s) mountainConsoleKeyPub = Inr pubKey"
    by (auto simp: creds_answer_def split: if_splits sum.splits)
  let ?req = "scsd_request (creds_node_list m) pubKey"
  from assms d k have a: "scsd_success (reply e (trace s @ ?h1) ?req)"
    "acknowledged (scsd_targets (fst (reply e (trace s @ ?h1) ?req))) b"
    by (auto simp: creds_answer_def Let_def split: if_splits)
  then have "http_new_request e ''POST'' scsd_URL = None"
    by (cases "http_new_request e ''POST'' scsd_URL") (auto simp: reply_def)
  then have "trace s @ creds_events m e s = trace s @ ?h1 @ HttpDo ?req # []"
    using d k by (simp add: creds_events_def)
  with a show ?thesis unfolding acked_since_def by (metis request_fields(4))
qed

text \<open>The nodes the worker is responsible for: its batch and the channel. A set of nodes is kept when
  each of them is still there under its name, or a node of that name in the set was acknowledged
  in the meantime.\<close>

definition in_hand :: "(string, nodeConsoleInfo) gomap \<Rightarrow> op_state \<Rightarrow> nodeConsoleInfo set" where
  "in_hand m s = set (map_values m) \<union> set (mountainCredsUpdateChannel s)"

definition kept :: "env \<Rightarrow> history \<Rightarrow> history \<Rightarrow> nodeConsoleInfo set \<Rightarrow> nodeConsoleInfo set \<Rightarrow> bool" where
  "kept e h0 h A B \<longleftrightarrow> (\<forall>n \<in> A. NodeName n \<in> NodeName ` B \<or>
     (\<exists>n' \<in> A. NodeName n' = NodeName n \<and> acked_since e h0 h (BmcName n')))"

lemma trace_channel: "mountainCredsUpdateChannel (s\<lparr>trace := h\<rparr>) = mountainCredsUpdateChannel s"
  by simp

lemma kept_names: "NodeName ` A \<subseteq> NodeName ` B \<Longrightarrow> kept e h0 h A B"
  by (auto simp: kept_def)

lemma kept_nodes: "(\<And>n. n \<in> A \<Longrightarrow> n \<in> B \<or> acked_since e h0 h (BmcName n)) \<Longrightarrow> kept e h0 h A B"
  unfolding kept_def by blast

lemma kept_trans:
  assumes "kept e h0 h1 A B" and "kept e h1 h2 B C" and "B \<subseteq> A"
    and "h1 = h0 @ evs1" and "h2 = h1 @ evs2"
  shows "kept e h0 h2 A C"
  unfolding kept_def
proof
  fix n
  assume "n \<in> A"
  with assms(1) consider n1 where "n1 \<in> B" "NodeName n1 = NodeName n"
    | n1 where "n1 \<in> A" "NodeName n1 = NodeName n" "acked_since e h0 h1 (BmcName n1)"
    unfolding kept_def by (metis imageE)
  then show "NodeName n \<in> NodeName ` C \<or> (\<exists>n' \<in> A. NodeName n' = NodeName n \<and> acked_since e h0 h2 (BmcName n'))"
  proof cases
    case 1
    then show ?thesis
      using assms(2-4) acked_since_earlier unfolding kept_def by (metis subsetD)
  next
    case 2
    then show ?thesis using acked_since_append assms(5) by blast
  qed
qed

definition handed_over ::
    "env \<Rightarrow> (string, nodeConsoleInfo) gomap \<times> op_state \<Rightarrow> (string, nodeConsoleInfo) gomap \<times> op_state \<Rightarrow> bool" where
  "handed_over e a b \<longleftrightarrow> (case (a, b) of ((m, s), (m', t)) \<Rightarrow>
     in_hand m' t \<subseteq> in_hand m s \<and> (\<exists>evs. trace t = trace s @ evs) \<and>
     kept e (trace s) (trace t) (in_hand m s) (in_hand m' t))"

lemma handed_over_refl: "handed_over e x x"
  by (auto simp: handed_over_def kept_names split: prod.splits)

lemma handed_over_trans:
  assumes "handed_over e (m, s) (m', t)" and "handed_over e (m', t) (m'', u)"
  shows "handed_over e (m, s) (m'', u)"
  using assms by (auto simp: handed_over_def intro: kept_trans)

lemma map_keys_set: "fst ` set (map_set k v m) = insert k (fst ` set m)"
  by (simp add: dom_update)

lemma map_values_set: "set (map_values (map_set k v m)) \<subseteq> insert v (set (map_values m))"
  by (induction m) auto

lemma keyed_by_set: "keyed_by key m \<Longrightarrow> keyed_by key (map_set (key v) v m)"
  by (auto simp: keyed_by_def wf_map_in_set update_conv' split: if_splits)
    (metis (mono_tags, lifting) case_prodD wf_map_in_set)

lemma creds_receive_step:
  assumes "keyed_by NodeName m"
  shows "\<exists>m' t. creds_receive m e s = (Ok m', t) \<and> keyed_by NodeName m' \<and> handed_over e (m, s) (m', t)"
proof (cases "mountainCredsUpdateChannel s")
  case Nil
  then show ?thesis using assms by (simp add: creds_receive_def handed_over_refl)
next
  case (Cons node q)
  let ?m = "map_set (NodeName node) node m"
  have k: "keyed_by NodeName ?m" by (rule keyed_by_set [OF assms])
  have run: "creds_receive m e s = (Ok ?m, s\<lparr>mountainCredsUpdateChannel := q\<rparr>)"
    using Cons by (simp add: creds_receive_def)
  have "set (map_keys ?m) = insert (NodeName node) (set (map_keys m))" by (simp add: map_keys_set)
  then have "NodeName ` set (map_values ?m) = insert (NodeName node) (NodeName ` set (map_values m))"
    by (simp only: keyed_by_values [OF assms] keyed_by_values [OF k])
  then have "NodeName ` in_hand m s \<subseteq> NodeName ` in_hand ?m (s\<lparr>mountainCredsUpdateChannel := q\<rparr>)"
    using Cons by (simp add: in_hand_def image_Un)
  then have "kept e h h (in_hand m s) (in_hand ?m (s\<lparr>mountainCredsUpdateChannel := q\<rparr>))" for h
    by (rule kept_names)
  moreover have "in_hand ?m (s\<lparr>mountainCredsUpdateChannel := q\<rparr>) \<subseteq> in_hand m s"
    using Cons map_values_set [of "NodeName node" node m] by (auto simp: in_hand_def)
  ultimately have "handed_over e (m, s) (?m, s\<lparr>mountainCredsUpdateChannel := q\<rparr>)"
    by (simp add: handed_over_def)
  with run k show ?thesis by blast
qed

lemma keyed_by_filter: "keyed_by key m \<Longrightarrow> keyed_by key (filter P m)"
  by (auto simp: keyed_by_def wf_map_def distinct_map_filter)

lemma creds_timeout_step:
  assumes "keyed_by NodeName m"
  shows "\<exists>m' t. creds_timeout m e s = (Ok m', t) \<and> keyed_by NodeName m' \<and> handed_over e (m, s) (m', t)"
proof (cases "m = []")
  case True
  then show ?thesis by (simp add: creds_timeout_def handed_over_refl)
next
  case False
  let ?P = "\<lambda>(k, n). \<not> acknowledged (creds_answer m e s) (BmcName n)"
  let ?m = "filter ?P m"
  let ?h = "trace s @ creds_events m e s @ (if ?m = [] then [] else [TimeSleep 60])"
  have wf: "wf_map m" using assms by (simp add: keyed_by_def)
  have run: "creds_timeout m e s = (Ok ?m, s\<lparr>trace := ?h\<rparr>)"
    using False by (simp add: creds_timeout_def bind_go_run doMountainCredsUpdate_run [OF wf])
  have "n \<in> set (map_values ?m) \<or> acked_since e (trace s) ?h (BmcName n)" if "n \<in> set (map_values m)" for n
    using that acked_since_append [OF answer_acked_since, of m e s "BmcName n"] by force
  then have "n \<in> in_hand ?m (s\<lparr>trace := ?h\<rparr>) \<or> acked_since e (trace s) ?h (BmcName n)" if "n \<in> in_hand m s" for n
    using that unfolding in_hand_def by (metis Un_iff trace_channel)
  then have "kept e (trace s) ?h (in_hand m s) (in_hand ?m (s\<lparr>trace := ?h\<rparr>))"
    by (rule kept_nodes)
  then have "handed_over e (m, s) (?m, s\<lparr>trace := ?h\<rparr>)"
    by (auto simp: handed_over_def in_hand_def)
  with run keyed_by_filter [OF assms] show ?thesis by blast
qed

text \<open>C14: No node is lost and none is invented by the key worker. For every sequence of choices of its
  \<open>select\<close> and every behaviour of scsd, each node that was in the channel or in the batch is, by
  name, still in one of them, or scsd has in the meantime acknowledged a key update for the BMC
  of such a node of that name; and the worker never takes up a node that was not in the channel
  or in the batch.\<close>

theorem doMountainCredsUpdates_no_loss:
  assumes "keyed_by NodeName m"
  shows "\<exists>m' t. doMountainCredsUpdates cs m e s = (Ok m', t) \<and> keyed_by NodeName m' \<and>
    in_hand m' t \<subseteq> in_hand m s \<and> kept e (trace s) (trace t) (in_hand m s) (in_hand m' t)"
proof -
  have "\<exists>m' t. doMountainCredsUpdates cs m e s = (Ok m', t) \<and> keyed_by NodeName m' \<and>
      handed_over e (m, s) (m', t)"
    using assms
  proof (induction cs arbitrary: m s)
    case Nil
    then show ?case by (simp add: handed_over_refl)
  next
    case (Cons c cs)
    obtain m1 s1 where 1: "(case c of Receive \<Rightarrow> creds_receive m | Timeout \<Rightarrow> creds_timeout m) e s = (Ok m1, s1)"
      and k1: "keyed_by NodeName m1" and h1: "handed_over e (m, s) (m1, s1)"
      using creds_receive_step [OF Cons.prems] creds_timeout_step [OF Cons.prems]
      by (cases c) (metis creds_select.case)+
    obtain m' t where "doMountainCredsUpdates cs m1 e s1 = (Ok m', t)" and "keyed_by NodeName m'"
      and "handed_over e (m1, s1) (m', t)"
      using Cons.IH [OF k1] by blast
    with 1 h1 show ?case
      by (intro exI [of _ m'] exI [of _ t]) (auto simp: bind_go_run intro: handed_over_trans)
  qed
  then show ?thesis by (auto simp: handed_over_def)
qed

definition queued_state :: op_state where
  "queued_state = init_state\<lparr>mountainCredsUpdateChannel :=
     [mtn_node ''x1c0s0b0n0'' ''x1c0s0b0'', mtn_node ''x1c0s1b0n0'' ''x1c0s1b0'']\<rparr>"

theorem doMountainCredsUpdates_no_loss_witness:
  "\<exists>m' t. doMountainCredsUpdates [Receive, Receive, Timeout] [] (scsd_env sample_acks) queued_state =
      (Ok m', t) \<and>
    in_hand m' t \<subseteq> {mtn_node ''x1c0s0b0n0'' ''x1c0s0b0'', mtn_node ''x1c0s1b0n0'' ''x1c0s1b0''} \<and>
    kept (scsd_env sample_acks) (trace queued_state) (trace t)
      {mtn_node ''x1c0s0b0n0'' ''x1c0s0b0'', mtn_node ''x1c0s1b0n0'' ''x1c0s1b0''} (in_hand m' t)"
proof -
  have eq: "in_hand [] queued_state = {mtn_node ''x1c0s0b0n0'' ''x1c0s0b0'', mtn_node ''x1c0s1b0n0'' ''x1c0s1b0''}"
    by (simp add: in_hand_def queued_state_def)
  have "keyed_by NodeName ([] :: (string, nodeConsoleInfo) gomap)" by simp
  from doMountainCredsUpdates_no_loss [OF this, of "[Receive, Receive, Timeout]" "scsd_env sample_acks" queued_state]
  show ?thesis unfolding eq by (elim exE conjE) (intro exI conjI)
qed

text \<open>Receiving everything that is in the channel.\<close>

lemma receive_all:
  "doMountainCredsUpdates (replicate (length (mountainCredsUpdateChannel s)) Receive @ cs) m e s =
     doMountainCredsUpdates cs (fold (\<lambda>n m. map_set (NodeName n) n m) (mountainCredsUpdateChannel s) m) e
       (s\<lparr>mountainCredsUpdateChannel := []\<rparr>)"
proof (induction "mountainCredsUpdateChannel s" arbitrary: s m)
  case Nil
  then show ?case by (cases s) simp
next
  case (Cons node q)
  then have ch: "mountainCredsUpdateChannel s = node # q" by simp
  let ?t = "s\<lparr>mountainCredsUpdateChannel := q\<rparr>"
  from Cons(1) [of ?t "map_set (NodeName node) node m"]
  have "doMountainCredsUpdates (replicate (length q) Receive @ cs) (map_set (NodeName node) node m) e ?t =
      doMountainCredsUpdates cs (fold (\<lambda>n m. map_set (NodeName n) n m) q (map_set (NodeName node) node m)) e
        (s\<lparr>mountainCredsUpdateChannel := []\<rparr>)"
    by simp
  with ch show ?case by (simp add: bind_go_def creds_receive_def)
qed

text \<open>C17: The worker makes progress. If scsd, when asked with the batch of everything in the channel,
  acknowledges every BMC of a queued node, then receiving the channel and one quiet second
  later nothing is left: channel and batch are empty, and the worker does not go to sleep for
  a minute.\<close>

theorem doMountainCredsUpdates_drains:
  assumes "q = mountainCredsUpdateChannel s" and "batch = index_by NodeName q"
    and "\<forall>n \<in> set q. acknowledged (creds_answer batch e (s\<lparr>mountainCredsUpdateChannel := []\<rparr>)) (BmcName n)"
  shows "\<exists>t. doMountainCredsUpdates (replicate (length q) Receive @ [Timeout]) [] e s = (Ok [], t) \<and>
    mountainCredsUpdateChannel t = [] \<and> TimeSleep 60 \<notin> set (drop (length (trace s)) (trace t))"
proof -
  let ?s = "s\<lparr>mountainCredsUpdateChannel := []\<rparr>"
  have "n \<in> set q" if "(k, n) \<in> set batch" for k n
    using that assms(2) by (auto simp: wf_map_in_set dest: index_by_lookup)
  with assms(3) have "filter (\<lambda>(k, n). \<not> acknowledged (creds_answer batch e ?s) (BmcName n)) batch = []"
    by (auto simp: filter_empty_conv)
  then have "doMountainCredsUpdate batch e ?s = (Ok [], ?s\<lparr>trace := trace ?s @ creds_events batch e ?s\<rparr>)"
    using assms(2) by (simp add: doMountainCredsUpdate_run)
  then have "creds_timeout batch e ?s =
      (Ok [], ?s\<lparr>trace := trace s @ (if batch = [] then [] else creds_events batch e ?s)\<rparr>)"
    by (simp add: creds_timeout_def bind_go_run)
  moreover have "doMountainCredsUpdates (replicate (length q) Receive @ [Timeout]) [] e s =
      creds_timeout batch e ?s"
    using receive_all [of s "[Timeout]" "[]" e] assms(1,2)
    by (simp add: index_by_def bind_go_def split: prod.split outcome.split)
  moreover have "TimeSleep 60 \<notin> set (creds_events batch e ?s)"
    by (auto simp: creds_events_def sent_def split: sum.split)
  ultimately show ?thesis by (simp split: if_splits)
qed

theorem doMountainCredsUpdates_drains_witness:
  "\<exists>t. doMountainCredsUpdates [Receive, Timeout] [] (scsd_env sample_acks)
      (init_state\<lparr>mountainCredsUpdateChannel := [mtn_node ''x1c0s0b0n0'' ''x1c0s0b0'']\<rparr>) = (Ok [], t) \<and>
    mountainCredsUpdateChannel t = []"
proof -
  let ?q = "[mtn_node ''x1c0s0b0n0'' ''x1c0s0b0'']"
  let ?s = "init_state\<lparr>mountainCredsUpdateChannel := ?q\<rparr>"
  have "scsd_targets (Some (scsd_doc sample_acks)) = sample_acks"
    by (rule scsd_targets_doc) (simp add: sample_acks_def fits_int_def)
  then have "creds_answer (index_by NodeName ?q) (scsd_env sample_acks) (?s\<lparr>mountainCredsUpdateChannel := []\<rparr>) = sample_acks"
    by (simp add: creds_answer_def init_state_def scsd_env_def quiet_env_def reply_def scsd_success_def)
  then have "\<forall>n \<in> set ?q. acknowledged (creds_answer (index_by NodeName ?q) (scsd_env sample_acks)
      (?s\<lparr>mountainCredsUpdateChannel := []\<rparr>)) (BmcName n)"
    by (simp add: acknowledged_def sample_acks_def mtn_node_def)
  from doMountainCredsUpdates_drains [OF _ refl this] show ?thesis by auto
qed

text \<open>A deployment that never reached scsd is reported as a success. The comment promises success
  for codes below 400; the code tests for below 300, which also holds for the code -1 of a
  request that failed. The reply then has no targets, so the batch is kept all the same.\<close>

lemma deployMountainConsoleKeys_transport_error:
  assumes "\<not> debugOnly s" and "os_read_file e (trace s) mountainConsoleKeyPub = Inr pubKey"
    and "http_client_do e (trace s @ [OsReadFile mountainConsoleKeyPub]) (scsd_request nodes pubKey) = Inl err"
  shows "fst (deployMountainConsoleKeys nodes e s) = Ok (True, \<lparr>Targets = []\<rparr>)"
proof -
  obtain x where "reply e (trace s @ [OsReadFile mountainConsoleKeyPub]) (scsd_request nodes pubKey) = (None, -1, Some x)"
    using assms(3) by (cases "http_new_request e ''POST'' scsd_URL") (auto simp: reply_def)
  with assms(1,2) show ?thesis
    by (simp add: deployMountainConsoleKeys_run Let_def scsd_success_def)
qed

end
