(* ===== verification/Float64.thy ===== *)
theory Float64
  imports Complex_Main "HOL-Library.Log_Nat"
begin

text \<open>
  The slice of IEEE 754 binary64 arithmetic that \<open>updateNodeCounts\<close> uses: conversion of an
  integer, division, \<open>math.Ceil\<close>, \<open>math.Max\<close> and conversion back. A finite float is the
  rational number it denotes; an operation rounds its exact result to 53 significant bits,
  ties to even. Operands here lie between \<open>2 ^ -63\<close> and \<open>2 ^ 63\<close>, so neither overflow nor
  subnormal numbers arise, and these are left out.

  The locale states what an implementation of round-to-nearest promises; from the promise
  alone follows that the ceiling of a floating-point quotient of integers is the ceiling of
  the exact quotient.
\<close>

section \<open>The contract of round-to-nearest\<close>

locale round_to_nearest =
  fixes fl :: "rat \<Rightarrow> rat"
  assumes fl_int: "0 \<le> k \<Longrightarrow> k < 2 ^ 53 \<Longrightarrow> fl (of_int k) = of_int k"
    and fl_error: "0 < q \<Longrightarrow> \<bar>fl q - q\<bar> \<le> q / 2 ^ 53"
begin

lemma fl_div_close:
  assumes "0 < a" and "a < 2 ^ 53" and "0 < b"
  shows "\<bar>fl (of_int a / of_int b) - of_int a / of_int b\<bar> < 1 / of_int b"
proof -
  let ?q = "of_int a / of_int b :: rat"
  from assms have "0 < ?q" by simp
  then have "\<bar>fl ?q - ?q\<bar> \<le> ?q / 2 ^ 53" by (rule fl_error)
  also have "\<dots> < 1 / of_int b"
  proof -
    have "(of_int a :: rat) < of_int (2 ^ 53)" using assms(2) by (simp only: of_int_less_iff)
    with assms(3) show ?thesis by (simp add: field_simps)
  qed
  finally show ?thesis .
qed

theorem ceiling_fl_div:
  assumes "0 \<le> a" and "a < 2 ^ 53" and "0 < b"
  shows "\<lceil>fl (of_int a / of_int b)\<rceil> = \<lceil>of_int a / of_int b :: rat\<rceil>"
proof (cases "b dvd a")
  case True
  then obtain k where k: "a = b * k" ..
  with assms have "0 \<le> k" by (simp add: zero_le_mult_iff)
  moreover from k assms \<open>0 \<le> k\<close> have "k \<le> a"
    by (simp add: mult_le_cancel_right1)
  ultimately have "fl (of_int k) = of_int k" using assms(2) by (intro fl_int) auto
  moreover from k assms(3) have "of_int a / of_int b = (of_int k :: rat)" by simp
  ultimately show ?thesis by simp
next
  case False
  define k where "k = a div b"
  define r where "r = a mod b"
  from False assms have "0 < a" by (cases "a = 0") auto
  from False have "r \<noteq> 0" by (simp add: r_def dvd_eq_mod_eq_0)
  moreover have "0 \<le> r" and "r < b" using assms(3) by (simp_all add: r_def)
  ultimately have r: "1 \<le> r" "r + 1 \<le> b" by linarith+
  have a: "a = k * b + r" by (simp add: k_def r_def)
  let ?q = "of_int a / of_int b :: rat"
  have q: "?q = of_int k + of_int r / of_int b"
    using assms(3) by (simp add: a field_simps)
  have lo: "of_int k + 1 / of_int b \<le> ?q" and hi: "?q + 1 / of_int b \<le> of_int k + 1"
  proof -
    from r have "of_int 1 \<le> (of_int r :: rat)" and "of_int (r + 1) \<le> (of_int b :: rat)"
      by (simp_all only: of_int_le_iff)
    then have "1 \<le> (of_int r :: rat)" and "of_int r + 1 \<le> (of_int b :: rat)" by simp_all
    with assms(3) show "of_int k + 1 / of_int b \<le> ?q" and "?q + 1 / of_int b \<le> of_int k + 1"
      unfolding q by (simp_all add: field_simps)
  qed
  have close: "\<bar>fl ?q - ?q\<bar> < 1 / of_int b"
    using \<open>0 < a\<close> assms(2,3) by (rule fl_div_close)
  have pos: "0 < 1 / (of_int b :: rat)" using assms(3) by simp
  from close lo hi have "of_int k < fl ?q" and "fl ?q \<le> of_int k + 1" by linarith+
  then have "\<lceil>fl ?q\<rceil> = k + 1" by (intro ceiling_unique) simp_all
  moreover from pos lo hi have "of_int k < ?q" and "?q \<le> of_int k + 1" by linarith+
  then have "\<lceil>?q\<rceil> = k + 1" by (intro ceiling_unique) simp_all
  ultimately show ?thesis by simp
qed

end

section \<open>An executable rounding\<close>

text \<open>Rounding to the nearest integer, ties to even.\<close>

definition round_even :: "rat \<Rightarrow> int" where
  "round_even x =
     (let f = \<lfloor>x\<rfloor>; d = x - of_int f
      in if d < 1 / 2 then f else if 1 / 2 < d then f + 1 else if even f then f else f + 1)"

text \<open>The exponent \<open>x\<close> with \<open>2 ^ 52 \<le> q / 2 ^ x < 2 ^ 53\<close>, from the lengths of numerator and
  denominator.\<close>

definition f64_exponent :: "rat \<Rightarrow> int" where
  "f64_exponent q =
     (let (n, d) = quotient_of q;
          x = bitlen n - bitlen d - 53
      in if q < 2 ^ 53 * 2 powi x then x else x + 1)"

definition f64_pos :: "rat \<Rightarrow> rat" where
  "f64_pos q =
     (let x = f64_exponent q in of_int (round_even (q * 2 powi (- x))) * 2 powi x)"

text \<open>The float64 nearest to an exact value.\<close>

definition f64 :: "rat \<Rightarrow> rat" where
  "f64 q = (if q = 0 then 0 else if q < 0 then - f64_pos (- q) else f64_pos q)"

lemma round_even_error: "\<bar>of_int (round_even x) - x\<bar> \<le> 1 / 2"
proof -
  have "of_int \<lfloor>x\<rfloor> \<le> x" and "x < of_int \<lfloor>x\<rfloor> + 1" by linarith+
  then show ?thesis by (auto simp: round_even_def Let_def abs_le_iff)
qed

lemma round_even_int [simp]: "round_even (of_int k) = k"
  by (simp add: round_even_def)

lemma bitlen_powi:
  assumes "0 < n"
  shows "2 powi (bitlen n - 1) \<le> (of_int n :: rat)" and "(of_int n :: rat) < 2 powi (bitlen n)"
proof -
  from assms have "1 \<le> bitlen n" by (simp add: bitlen_alt_def)
  moreover from bitlen_bounds [OF assms]
  have "of_int (2 ^ nat (bitlen n - 1)) \<le> (of_int n :: rat)"
    and "(of_int n :: rat) < of_int (2 ^ nat (bitlen n))"
    by (simp_all only: of_int_le_iff of_int_less_iff)
  ultimately show "2 powi (bitlen n - 1) \<le> (of_int n :: rat)"
    and "(of_int n :: rat) < 2 powi (bitlen n)"
    by (simp_all add: power_int_def)
qed

lemma f64_exponent_lower:
  assumes "0 < q"
  shows "2 ^ 52 * 2 powi (f64_exponent q) \<le> q"
proof -
  obtain n d where nd: "quotient_of q = (n, d)" by (cases "quotient_of q")
  then have q: "q = of_int n / of_int d" and "0 < d"
    by (auto dest: quotient_of_div quotient_of_denom_pos)
  with assms have "0 < n" by (simp add: zero_less_divide_iff)
  define x where "x = bitlen n - bitlen d - 53"
  have split: "f64_exponent q = (if q < 2 ^ 53 * 2 powi x then x else x + 1)"
    by (simp add: f64_exponent_def nd x_def)
  have "2 ^ 52 * 2 powi x = (2 powi (bitlen n - 1) / 2 powi (bitlen d) :: rat)"
    by (simp add: x_def power_int_diff)
  also have "\<dots> \<le> of_int n / of_int d"
    using bitlen_powi [OF \<open>0 < n\<close>] bitlen_powi [OF \<open>0 < d\<close>] \<open>0 < d\<close> \<open>0 < n\<close>
    by (intro frac_le) (simp_all add: less_imp_le)
  finally have low: "2 ^ 52 * 2 powi x \<le> q" by (simp add: q)
  show ?thesis
  proof (cases "q < 2 ^ 53 * 2 powi x")
    case True
    with low show ?thesis by (simp add: split)
  next
    case False
    then show ?thesis by (simp add: split power_int_add)
  qed
qed

lemma f64_pos_error:
  assumes "0 < q"
  shows "\<bar>f64_pos q - q\<bar> \<le> q / 2 ^ 53"
proof -
  define x where "x = f64_exponent q"
  let ?p = "2 powi x :: rat"
  have p: "0 < ?p" by simp
  have inv: "2 powi (- x) = 1 / ?p" by (simp add: power_int_minus divide_inverse)
  have "f64_pos q - q = (of_int (round_even (q * 2 powi (- x))) - q * 2 powi (- x)) * ?p"
    using p by (simp add: f64_pos_def x_def [symmetric] Let_def inv left_diff_distrib)
  then have "\<bar>f64_pos q - q\<bar> = \<bar>of_int (round_even (q * 2 powi (- x))) - q * 2 powi (- x)\<bar> * ?p"
    using p by (simp add: abs_mult)
  also have "\<dots> \<le> 1 / 2 * ?p"
    using p round_even_error by (intro mult_right_mono) simp_all
  also have "\<dots> \<le> q / 2 ^ 53"
    using f64_exponent_lower [OF assms] by (simp add: x_def)
  finally show ?thesis .
qed

lemma f64_pos_int:
  assumes "0 < k" and "k < 2 ^ 53"
  shows "f64_pos (of_int k) = of_int k"
proof -
  define x where "x = f64_exponent (of_int k)"
  have "2 ^ 52 * 2 powi x \<le> (of_int k :: rat)"
    using f64_exponent_lower [of "of_int k"] assms(1) by (simp add: x_def)
  also have "(of_int k :: rat) < of_int (2 ^ 53)" using assms(2) by (simp only: of_int_less_iff)
  finally have "2 powi x < (2 powi 1 :: rat)" by simp
  then have "x \<le> 0" using power_int_increasing [of 1 x "2 :: rat"] by linarith
  then have "2 powi (- x) = (of_int (2 ^ nat (- x)) :: rat)" by (simp add: power_int_def)
  then have "of_int k * 2 powi (- x) = (of_int (k * 2 ^ nat (- x)) :: rat)" by simp
  then have "f64_pos (of_int k) = of_int (k * 2 ^ nat (- x)) * 2 powi x"
    by (simp only: f64_pos_def x_def [symmetric] Let_def round_even_int)
  also have "\<dots> = of_int k * (2 powi (- x) * 2 powi x)"
    using \<open>2 powi (- x) = _\<close> by simp
  also have "2 powi (- x) * 2 powi x = (1 :: rat)" by (simp add: power_int_minus)
  finally show ?thesis by simp
qed

interpretation ieee: round_to_nearest f64
proof unfold_locales
  fix k :: int
  assume "0 \<le> k" and "k < 2 ^ 53"
  then show "f64 (of_int k) = of_int k"
    by (cases "k = 0") (simp_all add: f64_def f64_pos_int)
next
  fix q :: rat
  assume "0 < q"
  then show "\<bar>f64 q - q\<bar> \<le> q / 2 ^ 53" using f64_pos_error [of q] by (simp add: f64_def)
qed

section \<open>The operations the program calls\<close>

text \<open>\<open>float64(n)\<close>, \<open>x / y\<close>, \<open>x + y\<close>, \<open>math.Max\<close>, \<open>math.Ceil\<close> and \<open>int(x)\<close>.\<close>

definition float64 :: "int \<Rightarrow> rat" where
  "float64 n = f64 (of_int n)"

definition f64_div :: "rat \<Rightarrow> rat \<Rightarrow> rat" where
  "f64_div x y = f64 (x / y)"

definition f64_add :: "rat \<Rightarrow> rat \<Rightarrow> rat" where
  "f64_add x y = f64 (x + y)"

definition math_Max :: "rat \<Rightarrow> rat \<Rightarrow> rat" where
  "math_Max x y = max x y"

definition math_Ceil :: "rat \<Rightarrow> rat" where
  "math_Ceil x = of_int \<lceil>x\<rceil>"

definition int_of_f64 :: "rat \<Rightarrow> int" where
  "int_of_f64 x = (if x < 0 then \<lceil>x\<rceil> else \<lfloor>x\<rfloor>)"

text \<open>\<open>int(math.Ceil(float64(a)/float64(b)) + 1)\<close> computes the exact integer ceiling plus one.\<close>

lemma ceil_div_plus_one:
  assumes "0 \<le> a" and "a < 2 ^ 52" and "0 < b" and "b < 2 ^ 53"
  shows "int_of_f64 (f64_add (math_Ceil (f64_div (float64 a) (float64 b))) 1) =
           \<lceil>of_int a / of_int b :: rat\<rceil> + 1"
proof -
  from assms have fa: "float64 a = of_int a" and fb: "float64 b = of_int b"
    by (simp_all add: float64_def ieee.fl_int)
  let ?c = "\<lceil>of_int a / of_int b :: rat\<rceil>"
  have c: "math_Ceil (f64_div (float64 a) (float64 b)) = of_int ?c"
    using assms by (simp add: math_Ceil_def f64_div_def fa fb ieee.ceiling_fl_div)
  have "0 \<le> ?c" using assms by (simp add: order_less_le_trans [of _ 0])
  moreover have "?c \<le> a"
  proof -
    have "of_int a / of_int b \<le> (of_int a :: rat)"
      using assms by (simp add: divide_le_eq mult_le_cancel_left1)
    then show ?thesis by (simp add: ceiling_le_iff)
  qed
  moreover have "a + 1 < 2 ^ 53" using assms(2) by simp
  ultimately have "0 \<le> ?c + 1" and "?c + 1 < 2 ^ 53" by linarith+
  then have "f64 (of_int (?c + 1)) = of_int (?c + 1)" by (rule ieee.fl_int)
  then have sum: "f64_add (of_int ?c) 1 = of_int (?c + 1)" by (simp add: f64_add_def)
  have "\<not> of_int (?c + 1) < (of_int 0 :: rat)"
    using \<open>0 \<le> ?c + 1\<close> by (simp only: of_int_less_iff not_less)
  then have "int_of_f64 (of_int (?c + 1)) = ?c + 1"
    by (simp only: int_of_f64_def of_int_0 if_False floor_of_int)
  then show ?thesis by (simp only: c sum)
qed

lemma float64_Max_one:
  "1 \<le> n \<Longrightarrow> n < 2 ^ 53 \<Longrightarrow> math_Max (float64 n) 1 = of_int n"
  by (simp add: math_Max_def float64_def ieee.fl_int)

end
