(* ===== verification/Nodes.thy ===== *)
theory Nodes
  imports K8s Float64
begin

text \<open>
  \<open>nodes.go\<close>: reading the hardware inventory from the state manager (HSM) and sizing the
  console-node pods. The three HSM queries go through \<open>getURL\<close> and \<open>json.Unmarshal\<close>; the
  replica count and the target file are written through the \<open>K8Service\<close> the manager was
  constructed with.
\<close>

section \<open>HSM data\<close>

record redfishEndpoint =
  rf_ID :: string
  rf_Type :: string
  rf_FQDN :: string
  rf_User :: string
  rf_Password :: string

record stateComponent =
  sc_ID :: string
  sc_Type :: string
  sc_Class :: string
  sc_NID :: int
  sc_Role :: string

record hsmNodeFRUInfo =
  fru_Model :: string
  fru_Manufacturer :: string
  fru_PartNumber :: string
  fru_SerialNumber :: string

record hsmPopulatedFRU =
  pf_Type :: string
  pf_Subtype :: string
  pf_NodeFRUInfo :: hsmNodeFRUInfo

record hsmHardwareInventoryItem =
  hi_ID :: string
  hi_Type :: string
  hi_PopulatedFRU :: hsmPopulatedFRU

text \<open>The \<open>String\<close> methods, which the log lines use.\<close>

definition nodeConsoleInfo_String :: "nodeConsoleInfo \<Rightarrow> string" where
  "nodeConsoleInfo_String nc =
     ''NodeName:'' @ NodeName nc @ '', BmcName:'' @ BmcName nc @ '', BmcFqdn:'' @ BmcFqdn nc @
     '', Class:'' @ Class nc @ '', NID:'' @ show_int (NID nc) @ '', Role:'' @ Role nc"

definition redfishEndpoint_String :: "redfishEndpoint \<Rightarrow> string" where
  "redfishEndpoint_String re =
     ''ID:'' @ rf_ID re @ '', Type:'' @ rf_Type re @ '', FQDN:'' @ rf_FQDN re @
     '', User:'' @ rf_User re @ '', Password:REDACTED''"

definition stateComponent_String :: "stateComponent \<Rightarrow> string" where
  "stateComponent_String sc =
     ''ID:'' @ sc_ID sc @ '', Type:'' @ sc_Type sc @ '', Class:'' @ sc_Class sc @
     '', NID:'' @ show_int (sc_NID sc) @ '', Role:'' @ sc_Role sc"

lemma redfishEndpoint_String_redacts:
  "redfishEndpoint_String (re\<lparr>rf_Password := p\<rparr>) = redfishEndpoint_String re"
  by (simp add: redfishEndpoint_String_def)

definition zero_rf :: redfishEndpoint where
  "zero_rf = \<lparr>rf_ID = '''', rf_Type = '''', rf_FQDN = '''', rf_User = '''', rf_Password = ''''\<rparr>"

definition zero_sc :: stateComponent where
  "zero_sc = \<lparr>sc_ID = '''', sc_Type = '''', sc_Class = '''', sc_NID = 0, sc_Role = ''''\<rparr>"

definition zero_fru :: hsmNodeFRUInfo where
  "zero_fru = \<lparr>fru_Model = '''', fru_Manufacturer = '''', fru_PartNumber = '''',
     fru_SerialNumber = ''''\<rparr>"

definition zero_hi :: hsmHardwareInventoryItem where
  "zero_hi = \<lparr>hi_ID = '''', hi_Type = '''',
     hi_PopulatedFRU = \<lparr>pf_Type = '''', pf_Subtype = '''', pf_NodeFRUInfo = zero_fru\<rparr>\<rparr>"

definition dec_rf :: "redfishEndpoint decoder" where
  "dec_rf = dec_struct
     [(''ID'', dec_string (\<lambda>x v. v\<lparr>rf_ID := x\<rparr>)),
      (''Type'', dec_string (\<lambda>x v. v\<lparr>rf_Type := x\<rparr>)),
      (''FQDN'', dec_string (\<lambda>x v. v\<lparr>rf_FQDN := x\<rparr>)),
      (''User'', dec_string (\<lambda>x v. v\<lparr>rf_User := x\<rparr>)),
      (''Password'', dec_string (\<lambda>x v. v\<lparr>rf_Password := x\<rparr>))]"

definition dec_sc :: "stateComponent decoder" where
  "dec_sc = dec_struct
     [(''ID'', dec_string (\<lambda>x v. v\<lparr>sc_ID := x\<rparr>)),
      (''Type'', dec_string (\<lambda>x v. v\<lparr>sc_Type := x\<rparr>)),
      (''Class'', dec_string (\<lambda>x v. v\<lparr>sc_Class := x\<rparr>)),
      (''NID'', dec_int (\<lambda>x v. v\<lparr>sc_NID := x\<rparr>)),
      (''Role'', dec_string (\<lambda>x v. v\<lparr>sc_Role := x\<rparr>))]"

definition dec_fru :: "hsmNodeFRUInfo decoder" where
  "dec_fru = dec_struct
     [(''Model'', dec_string (\<lambda>x v. v\<lparr>fru_Model := x\<rparr>)),
      (''Manufacturer'', dec_string (\<lambda>x v. v\<lparr>fru_Manufacturer := x\<rparr>)),
      (''PartNumber'', dec_string (\<lambda>x v. v\<lparr>fru_PartNumber := x\<rparr>)),
      (''SerialNumber'', dec_string (\<lambda>x v. v\<lparr>fru_SerialNumber := x\<rparr>))]"

definition dec_pf :: "hsmPopulatedFRU decoder" where
  "dec_pf = dec_struct
     [(''Type'', dec_string (\<lambda>x v. v\<lparr>pf_Type := x\<rparr>)),
      (''Subtype'', dec_string (\<lambda>x v. v\<lparr>pf_Subtype := x\<rparr>)),
      (''NodeFRUInfo'', dec_sub pf_NodeFRUInfo (\<lambda>x v. v\<lparr>pf_NodeFRUInfo := x\<rparr>) dec_fru)]"

definition dec_hi :: "hsmHardwareInventoryItem decoder" where
  "dec_hi = dec_struct
     [(''ID'', dec_string (\<lambda>x v. v\<lparr>hi_ID := x\<rparr>)),
      (''Type'', dec_string (\<lambda>x v. v\<lparr>hi_Type := x\<rparr>)),
      (''PopulatedFRU'', dec_sub hi_PopulatedFRU (\<lambda>x v. v\<lparr>hi_PopulatedFRU := x\<rparr>) dec_pf)]"

text \<open>The local \<open>response\<close> structs have one slice field each.\<close>

definition dec_rf_response :: "redfishEndpoint list decoder" where
  "dec_rf_response = dec_struct [(''RedfishEndpoints'', dec_slice zero_rf dec_rf)]"

definition dec_sc_response :: "stateComponent list decoder" where
  "dec_sc_response = dec_struct [(''Components'', dec_slice zero_sc dec_sc)]"

section \<open>Queries\<close>

definition rf_URL :: string where
  "rf_URL = ''http://cray-smd/hsm/v2/Inventory/RedfishEndpoints''"

definition sc_URL :: string where
  "sc_URL = ''http://cray-smd/hsm/v2/State/Components''"

definition hw_URL :: string where
  "hw_URL = ''http://cray-smd/hsm/v2/Inventory/Hardware?Manufacturer=Foxconn&Type=Node''"

definition getRedfishEndpoints :: "(redfishEndpoint list \<times> go_error option) op" where
  "getRedfishEndpoints =
     bind_go (getURL rf_URL None) (\<lambda>(data, _, err).
       case err of
         Some x \<Rightarrow> ret ([], Some x)
       | None \<Rightarrow>
           (case unmarshal dec_rf_response [] data of
              (rp, Some je) \<Rightarrow> ret ([], Some (JsonError je))
            | (rp, None) \<Rightarrow> ret (rp, None)))"

text \<open>A reply that cannot be decoded yields no components and no error.\<close>

definition getStateComponents :: "(stateComponent list \<times> go_error option) op" where
  "getStateComponents =
     bind_go (getURL sc_URL None) (\<lambda>(data, _, err).
       case err of
         Some x \<Rightarrow> ret ([], Some x)
       | None \<Rightarrow>
           (case unmarshal dec_sc_response [] data of
              (rp, Some je) \<Rightarrow> ret ([], None)
            | (rp, None) \<Rightarrow> ret (rp, None)))"

definition is_paradise_model :: "hsmHardwareInventoryItem \<Rightarrow> bool" where
  "is_paradise_model node \<longleftrightarrow>
     fru_Model (pf_NodeFRUInfo (hi_PopulatedFRU node)) = ''HPE Cray Supercomputing XD224'' \<or>
     fru_Model (pf_NodeFRUInfo (hi_PopulatedFRU node)) = ''1A62WCB00-600-G''"

definition getParadiseNodes :: "((string, unit) gomap \<times> go_error option) op" where
  "getParadiseNodes =
     bind_go (getURL hw_URL None) (\<lambda>(data, _, err).
       case err of
         Some x \<Rightarrow> ret ([], Some x)
       | None \<Rightarrow>
           (case unmarshal (dec_slice zero_hi dec_hi) [] data of
              (rp, Some je) \<Rightarrow> ret ([], Some (JsonError je))
            | (rp, None) \<Rightarrow>
                ret (fold (\<lambda>node nodes. if is_paradise_model node then map_set (hi_ID node) () nodes
                                       else nodes) rp [], None)))"

definition add_component ::
    "(string, redfishEndpoint) gomap \<Rightarrow> (string, unit) gomap \<Rightarrow> stateComponent \<Rightarrow>
       nodeConsoleInfo list \<Rightarrow> nodeConsoleInfo list op" where
  "add_component rfMap paradiseNodes sc nodes =
     (if sc_Type sc = ''Node'' then
        (let newNode = zero_node\<lparr>NodeName := sc_ID sc, Class := sc_Class sc, NID := sc_NID sc,
                                 Role := sc_Role sc\<rparr>;
             newNode = (if has_key paradiseNodes (sc_ID sc) then newNode\<lparr>Class := ''Paradise''\<rparr>
                        else newNode)
         in bind_go (slice_prefix (sc_ID sc) (LastIndex (sc_ID sc) (CHR ''n''))) (\<lambda>bmcName.
              case map_of rfMap bmcName of
                Some rf \<Rightarrow> ret (nodes @ [newNode\<lparr>BmcName := bmcName, BmcFqdn := rf_FQDN rf\<rparr>])
              | None \<Rightarrow> ret nodes))
      else ret nodes)"

definition getCurrentNodesFromHSM :: "nodeConsoleInfo list op" where
  "getCurrentNodesFromHSM =
     bind_go getRedfishEndpoints (\<lambda>(rfEndpoints, err).
       if err \<noteq> None then ret []
       else bind_go getStateComponents (\<lambda>(stComps, err).
         if err \<noteq> None then ret []
         else bind_go getParadiseNodes (\<lambda>(paradiseNodes, err).
           let rfMap = index_by rf_ID rfEndpoints
           in for_range stComps [] (add_component rfMap paradiseNodes))))"

section \<open>Pod sizing\<close>

text \<open>\<open>int(math.Ceil(float64(n)/d) + 1)\<close>.\<close>

definition ceil_plus_one :: "int \<Rightarrow> rat \<Rightarrow> int" where
  "ceil_plus_one n d = int_of_f64 (f64_add (math_Ceil (f64_div (float64 n) d)) 1)"

definition updateNodeCounts :: "k8Service \<Rightarrow> int \<Rightarrow> int \<Rightarrow> unit op" where
  "updateNodeCounts k8 numMtnNodes numRvrNodes =
     (if numMtnNodes + numRvrNodes = 0 then ret ()
      else
        then_go (modify (\<lambda>s. s\<lparr>totalRvrNodes := numRvrNodes, totalMtnNodes := numMtnNodes\<rparr>))
        (bind_go (gets maxMtnNodesPerPod) (\<lambda>maxMtn.
         bind_go (gets maxRvrNodesPerPod) (\<lambda>maxRvr.
           let mm = math_Max (float64 maxMtn) 1;
               mr = math_Max (float64 maxRvr) 1;
               numMtnReq = ceil_plus_one numMtnNodes mm;
               numRvrReq = ceil_plus_one numRvrNodes mr;
               newNumPods = (if numRvrReq > numMtnReq then numRvrReq else numMtnReq)
           in then_go (k8_updateReplicaCount k8 newNumPods)
             (let newMtn = ceil_plus_one numMtnNodes (float64 newNumPods);
                  newRvr = ceil_plus_one numRvrNodes (float64 newNumPods)
              in bind_go (k8_getReplicaCount k8) (\<lambda>(currNodeReplicas, err).
                   if err \<noteq> None then
                     k8_updateNodesPerPod k8 (newMtn + currNodeReplicas) (newRvr + currNodeReplicas)
                   else
                     bind_go (gets numRvrNodesPerPod) (\<lambda>oldRvr.
                     bind_go (gets numMtnNodesPerPod) (\<lambda>oldMtn.
                       if newRvr \<noteq> oldRvr \<or> newMtn \<noteq> oldMtn
                       then k8_updateNodesPerPod k8 newMtn newRvr
                       else ret ()))))))))"

text \<open>The \<open>NodeService\<close> interface and \<open>NewNodeManager\<close>.\<close>

record nodeService =
  ns_getRedfishEndpoints :: "(redfishEndpoint list \<times> go_error option) op"
  ns_getStateComponents :: "(stateComponent list \<times> go_error option) op"
  ns_getCurrentNodesFromHSM :: "nodeConsoleInfo list op"
  ns_updateNodeCounts :: "int \<Rightarrow> int \<Rightarrow> unit op"

definition NewNodeManager :: "k8Service \<Rightarrow> nodeService" where
  "NewNodeManager k8 = \<lparr>
     ns_getRedfishEndpoints = getRedfishEndpoints,
     ns_getStateComponents = getStateComponents,
     ns_getCurrentNodesFromHSM = getCurrentNodesFromHSM,
     ns_updateNodeCounts = updateNodeCounts k8\<rparr>"

section \<open>Reading the inventory\<close>

subsection \<open>Reference definition\<close>

text \<open>The node a component stands for, if its BMC is among the Redfish endpoints.\<close>

definition bmc_of :: "string \<Rightarrow> string" where
  "bmc_of xname = take (nat (LastIndex xname (CHR ''n''))) xname"

definition hsm_class :: "(string, unit) gomap \<Rightarrow> stateComponent \<Rightarrow> string" where
  "hsm_class paradise sc = (if has_key paradise (sc_ID sc) then ''Paradise'' else sc_Class sc)"

definition node_of ::
    "(string, redfishEndpoint) gomap \<Rightarrow> (string, unit) gomap \<Rightarrow> stateComponent \<Rightarrow>
       nodeConsoleInfo option" where
  "node_of rfMap paradise sc =
     (if sc_Type sc = ''Node'' then
        map_option (\<lambda>rf. \<lparr>NodeName = sc_ID sc, BmcName = bmc_of (sc_ID sc), BmcFqdn = rf_FQDN rf,
            Class = hsm_class paradise sc, NID = sc_NID sc, Role = sc_Role sc\<rparr>)
          (map_of rfMap (bmc_of (sc_ID sc)))
      else None)"

text \<open>A node component whose name has no \<open>n\<close> cannot be split into BMC and node number.\<close>

definition malformed :: "stateComponent \<Rightarrow> bool" where
  "malformed sc \<longleftrightarrow> sc_Type sc = ''Node'' \<and> CHR ''n'' \<notin> set (sc_ID sc)"

lemma LastIndex_le: "LastIndex s c \<le> int (length s) - 1"
  by (induction s) (auto simp: Let_def)

lemma add_component_run:
  "add_component rfMap paradise sc nodes e s =
     (if malformed sc then (Panic SliceBounds, s)
      else (Ok (nodes @ (case node_of rfMap paradise sc of None \<Rightarrow> [] | Some n \<Rightarrow> [n])), s))"
proof (cases "malformed sc")
  case True
  then show ?thesis
    by (simp add: add_component_def malformed_def slice_prefix_def LastIndex_none [symmetric]
        Let_def)
next
  case False
  moreover have "LastIndex (sc_ID sc) (CHR ''n'') \<le> int (length (sc_ID sc))"
    using LastIndex_le [of "sc_ID sc" "CHR ''n''"] by linarith
  ultimately show ?thesis
    by (auto simp: add_component_def malformed_def slice_prefix_def LastIndex_none [symmetric]
        node_of_def bmc_of_def hsm_class_def zero_node_def not_less split: option.split)
qed

lemma component_loop:
  "for_range stComps acc (add_component rfMap paradise) e s =
     (if list_ex malformed stComps then (Panic SliceBounds, s)
      else (Ok (acc @ List.map_filter (node_of rfMap paradise) stComps), s))"
  by (induction stComps arbitrary: acc)
    (auto simp: bind_go_run add_component_run map_filter_simps split: option.split)

subsection \<open>What the three replies mean\<close>

type_synonym http_reply = "payload option \<times> int \<times> go_error option"

definition parse_reply :: "'a decoder \<Rightarrow> 'a \<Rightarrow> http_reply \<Rightarrow> 'a \<times> go_error option" where
  "parse_reply d zero r =
     (case r of
        (data, code, Some x) \<Rightarrow> (zero, Some x)
      | (data, code, None) \<Rightarrow>
          (case unmarshal d zero data of
             (v, Some je) \<Rightarrow> (zero, Some (JsonError je))
           | (v, None) \<Rightarrow> (v, None)))"

definition paradise_set :: "hsmHardwareInventoryItem list \<Rightarrow> (string, unit) gomap" where
  "paradise_set rp =
     fold (\<lambda>node nodes. if is_paradise_model node then map_set (hi_ID node) () nodes else nodes) rp []"

lemma paradise_set_iff:
  "has_key (paradise_set rp) x \<longleftrightarrow> (\<exists>i \<in> set rp. is_paradise_model i \<and> hi_ID i = x)"
proof -
  have "has_key (fold (\<lambda>node nodes. if is_paradise_model node then map_set (hi_ID node) () nodes
      else nodes) rp m) x \<longleftrightarrow> has_key m x \<or> (\<exists>i \<in> set rp. is_paradise_model i \<and> hi_ID i = x)" for m
    by (induction rp arbitrary: m) auto
  then show ?thesis by (simp add: paradise_set_def has_key_def)
qed

abbreviation rf_request :: http_request where "rf_request \<equiv> get_request rf_URL None"
abbreviation sc_request :: http_request where "sc_request \<equiv> get_request sc_URL None"
abbreviation hw_request :: http_request where "hw_request \<equiv> get_request hw_URL None"

lemma getRedfishEndpoints_run:
  "getRedfishEndpoints e s =
     (Ok (parse_reply dec_rf_response [] (reply e (trace s) rf_request)),
      s\<lparr>trace := trace s @ sent e rf_request\<rparr>)"
  by (simp add: getRedfishEndpoints_def url_runs parse_reply_def
      split: prod.split option.split)

lemma getStateComponents_run:
  "getStateComponents e s =
     (Ok (fst (parse_reply dec_sc_response [] (reply e (trace s) sc_request)),
          snd (snd (reply e (trace s) sc_request))),
      s\<lparr>trace := trace s @ sent e sc_request\<rparr>)"
  by (simp add: getStateComponents_def url_runs parse_reply_def
      split: prod.split option.split)

lemma getParadiseNodes_run:
  "getParadiseNodes e s =
     (Ok (let (items, err) = parse_reply (dec_slice zero_hi dec_hi) [] (reply e (trace s) hw_request)
          in (paradise_set items, err)),
      s\<lparr>trace := trace s @ sent e hw_request\<rparr>)"
  by (simp add: getParadiseNodes_def url_runs parse_reply_def paradise_set_def
      split: prod.split option.split)

text \<open>
  What the operator makes of the state manager at a point of the history: endpoints,
  components and the Paradise set, or \<open>None\<close> when one of the first two queries fails.
\<close>

type_synonym hsm_data = "redfishEndpoint list \<times> stateComponent list \<times> (string, unit) gomap"

definition hsm_view :: "env \<Rightarrow> history \<Rightarrow> hsm_data option" where
  "hsm_view e h =
     (let h1 = h @ sent e rf_request; h2 = h1 @ sent e sc_request;
          rf = parse_reply dec_rf_response [] (reply e h rf_request);
          sc = reply e h1 sc_request
      in if snd rf \<noteq> None \<or> snd (snd sc) \<noteq> None then None
         else Some (fst rf, fst (parse_reply dec_sc_response [] sc),
                paradise_set (fst (parse_reply (dec_slice zero_hi dec_hi) [] (reply e h2 hw_request)))))"

definition hsm_events :: "env \<Rightarrow> history \<Rightarrow> event list" where
  "hsm_events e h =
     (let h1 = h @ sent e rf_request;
          rf = parse_reply dec_rf_response [] (reply e h rf_request);
          sc = reply e h1 sc_request
      in sent e rf_request @
         (if snd rf \<noteq> None then []
          else sent e sc_request @ (if snd (snd sc) \<noteq> None then [] else sent e hw_request)))"

definition hsm_nodes :: "hsm_data \<Rightarrow> nodeConsoleInfo list" where
  "hsm_nodes v = (case v of (rfs, comps, paradise) \<Rightarrow>
     List.map_filter (node_of (index_by rf_ID rfs) paradise) comps)"

definition hsm_malformed :: "hsm_data \<Rightarrow> bool" where
  "hsm_malformed v = (case v of (rfs, comps, paradise) \<Rightarrow> list_ex malformed comps)"

lemma getCurrentNodesFromHSM_run:
  "getCurrentNodesFromHSM e s =
     (case hsm_view e (trace s) of
        None \<Rightarrow> Ok []
      | Some v \<Rightarrow> (if hsm_malformed v then Panic SliceBounds else Ok (hsm_nodes v)),
      s\<lparr>trace := trace s @ hsm_events e (trace s)\<rparr>)"
  by (simp add: getCurrentNodesFromHSM_def bind_go_def getRedfishEndpoints_run
      getStateComponents_run getParadiseNodes_run component_loop hsm_view_def hsm_events_def
      hsm_nodes_def hsm_malformed_def Let_def split: prod.split)

section \<open>Sizing the pods\<close>

subsection \<open>Reference arithmetic\<close>

text \<open>The least \<open>k\<close> with \<open>a \<le> k * b\<close>.\<close>

definition ceil_div :: "int \<Rightarrow> int \<Rightarrow> int" where
  "ceil_div a b = - ((- a) div b)"

lemma ceil_div_bounds:
  assumes "0 < b"
  shows "a \<le> ceil_div a b * b" and "ceil_div a b * b < a + b"
proof -
  have "(- a) div b * b + (- a) mod b = - a" by simp
  moreover have "0 \<le> (- a) mod b" and "(- a) mod b < b" using assms by simp_all
  moreover have "ceil_div a b * b = - ((- a) div b * b)" by (simp add: ceil_div_def)
  ultimately show "a \<le> ceil_div a b * b" and "ceil_div a b * b < a + b" by linarith+
qed

lemma ceil_div_least:
  assumes "0 < b" and "a \<le> k * b"
  shows "ceil_div a b \<le> k"
proof -
  from ceil_div_bounds(2) [OF assms(1), of a] assms(2) have "ceil_div a b * b < (k + 1) * b"
    by (simp add: distrib_right)
  with assms(1) show ?thesis by (simp add: mult_less_cancel_right)
qed

lemma ceil_div_nonneg: "0 < b \<Longrightarrow> 0 \<le> a \<Longrightarrow> 0 \<le> ceil_div a b"
  by (simp add: ceil_div_def div_nonpos_pos_le0)

lemma ceil_div_le: "0 < b \<Longrightarrow> 0 \<le> a \<Longrightarrow> ceil_div a b \<le> a"
  by (rule ceil_div_least) (simp_all add: mult_le_cancel_left1)

definition counts_in_range :: "op_state \<Rightarrow> int \<Rightarrow> int \<Rightarrow> bool" where
  "counts_in_range s mtn rvr \<longleftrightarrow>
     0 \<le> mtn \<and> mtn < 2 ^ 52 \<and> 0 \<le> rvr \<and> rvr < 2 ^ 52 \<and>
     1 \<le> maxMtnNodesPerPod s \<and> maxMtnNodesPerPod s < 2 ^ 53 \<and>
     1 \<le> maxRvrNodesPerPod s \<and> maxRvrNodesPerPod s < 2 ^ 53"

definition pods_needed :: "op_state \<Rightarrow> int \<Rightarrow> int \<Rightarrow> int" where
  "pods_needed s mtn rvr =
     max (ceil_div mtn (maxMtnNodesPerPod s)) (ceil_div rvr (maxRvrNodesPerPod s)) + 1"

definition per_pod :: "op_state \<Rightarrow> int \<Rightarrow> int \<Rightarrow> int \<Rightarrow> int" where
  "per_pod s mtn rvr n = ceil_div n (pods_needed s mtn rvr) + 1"

lemma pods_needed_bounds:
  assumes "counts_in_range s mtn rvr"
  shows "1 \<le> pods_needed s mtn rvr" and "pods_needed s mtn rvr \<le> max mtn rvr + 1"
  using assms ceil_div_nonneg [of "maxMtnNodesPerPod s" mtn] ceil_div_le [of "maxMtnNodesPerPod s" mtn]
    ceil_div_le [of "maxRvrNodesPerPod s" rvr]
  by (auto simp: counts_in_range_def pods_needed_def)

subsection \<open>The floating-point computation is exact\<close>

lemma ceil_plus_one_exact:
  assumes "0 \<le> n" and "n < 2 ^ 52" and "0 < m" and "m < 2 ^ 53"
  shows "ceil_plus_one n (float64 m) = ceil_div n m + 1"
  using ceil_div_plus_one [OF assms]
  by (simp add: ceil_plus_one_def ceil_div_def ceiling_divide_eq_div)

lemma float64_small: "0 \<le> m \<Longrightarrow> m < 2 ^ 53 \<Longrightarrow> float64 m = of_int m"
  by (simp add: float64_def ieee.fl_int)

lemma math_Max_float64: "1 \<le> m \<Longrightarrow> m < 2 ^ 53 \<Longrightarrow> math_Max (float64 m) 1 = float64 m"
  by (simp add: float64_small math_Max_def)

lemma updateNodeCounts_exact:
  assumes "counts_in_range s mtn rvr" and "mtn + rvr \<noteq> 0"
  shows "updateNodeCounts k8 mtn rvr e s =
    (let pods = pods_needed s mtn rvr; newMtn = per_pod s mtn rvr mtn; newRvr = per_pod s mtn rvr rvr
     in then_go (k8_updateReplicaCount k8 pods)
          (bind_go (k8_getReplicaCount k8) (\<lambda>(cur, err).
             if err \<noteq> None then k8_updateNodesPerPod k8 (newMtn + cur) (newRvr + cur)
             else bind_go (gets numRvrNodesPerPod) (\<lambda>oldRvr. bind_go (gets numMtnNodesPerPod) (\<lambda>oldMtn.
               if newRvr \<noteq> oldRvr \<or> newMtn \<noteq> oldMtn then k8_updateNodesPerPod k8 newMtn newRvr
               else ret ()))))
          e (s\<lparr>totalRvrNodes := rvr, totalMtnNodes := mtn\<rparr>))"
proof -
  let ?pods = "pods_needed s mtn rvr"
  have b: "0 < ?pods" "?pods < 2 ^ 53"
  proof -
    have "max mtn rvr < 2 ^ 52" using assms(1) by (simp add: counts_in_range_def)
    moreover have "(2::int) ^ 52 + 1 < 2 ^ 53" by simp
    ultimately show "0 < ?pods" "?pods < 2 ^ 53"
      using pods_needed_bounds [OF assms(1)] by linarith+
  qed
  from assms(1) have req:
    "ceil_plus_one mtn (math_Max (float64 (maxMtnNodesPerPod s)) 1) =
       ceil_div mtn (maxMtnNodesPerPod s) + 1"
    "ceil_plus_one rvr (math_Max (float64 (maxRvrNodesPerPod s)) 1) =
       ceil_div rvr (maxRvrNodesPerPod s) + 1"
    by (simp_all add: counts_in_range_def math_Max_float64 ceil_plus_one_exact)
  have per: "ceil_plus_one mtn (float64 ?pods) = per_pod s mtn rvr mtn"
    "ceil_plus_one rvr (float64 ?pods) = per_pod s mtn rvr rvr"
    using assms(1) b by (simp_all add: counts_in_range_def ceil_plus_one_exact per_pod_def)
  have pods: "(if ceil_div rvr (maxRvrNodesPerPod s) + 1 > ceil_div mtn (maxMtnNodesPerPod s) + 1
      then ceil_div rvr (maxRvrNodesPerPod s) + 1 else ceil_div mtn (maxMtnNodesPerPod s) + 1) = ?pods"
    by (simp add: pods_needed_def max_def)
  have fields: "maxMtnNodesPerPod (s\<lparr>totalRvrNodes := rvr, totalMtnNodes := mtn\<rparr>) = maxMtnNodesPerPod s"
    "maxRvrNodesPerPod (s\<lparr>totalRvrNodes := rvr, totalMtnNodes := mtn\<rparr>) = maxRvrNodesPerPod s"
    by simp_all
  show ?thesis
    by (simp only: updateNodeCounts_def if_not_P [OF assms(2)] then_modify bind_gets fields
        Let_def req pods per)
qed

section \<open>The documents the state manager sends\<close>

text \<open>
  Reference encodings of the three HSM replies, restricted to the fields the operator reads;
  decoding them gives the data back.
\<close>

definition enc_rf :: "redfishEndpoint \<Rightarrow> json" where
  "enc_rf r = JObj [(''ID'', JStr (rf_ID r)), (''Type'', JStr (rf_Type r)), (''FQDN'', JStr (rf_FQDN r)),
     (''User'', JStr (rf_User r)), (''Password'', JStr (rf_Password r))]"

definition enc_sc :: "stateComponent \<Rightarrow> json" where
  "enc_sc c = JObj [(''ID'', JStr (sc_ID c)), (''Type'', JStr (sc_Type c)), (''Class'', JStr (sc_Class c)),
     (''NID'', enc_int (sc_NID c)), (''Role'', JStr (sc_Role c))]"

definition enc_fru :: "hsmNodeFRUInfo \<Rightarrow> json" where
  "enc_fru f = JObj [(''Model'', JStr (fru_Model f)), (''Manufacturer'', JStr (fru_Manufacturer f)),
     (''PartNumber'', JStr (fru_PartNumber f)), (''SerialNumber'', JStr (fru_SerialNumber f))]"

definition enc_hi :: "hsmHardwareInventoryItem \<Rightarrow> json" where
  "enc_hi i = JObj [(''ID'', JStr (hi_ID i)), (''Type'', JStr (hi_Type i)),
     (''PopulatedFRU'', JObj [(''Type'', JStr (pf_Type (hi_PopulatedFRU i))),
        (''Subtype'', JStr (pf_Subtype (hi_PopulatedFRU i))),
        (''NodeFRUInfo'', enc_fru (pf_NodeFRUInfo (hi_PopulatedFRU i)))])]"

definition rf_doc :: "redfishEndpoint list \<Rightarrow> payload" where
  "rf_doc rfs = Json (JObj [(''RedfishEndpoints'', JArr (map enc_rf rfs))])"

definition sc_doc :: "stateComponent list \<Rightarrow> payload" where
  "sc_doc comps = Json (JObj [(''Components'', JArr (map enc_sc comps))])"

definition hw_doc :: "hsmHardwareInventoryItem list \<Rightarrow> payload" where
  "hw_doc items = Json (JArr (map enc_hi items))"

lemma dec_rf_enc: "dec_rf (enc_rf r) zero_rf = (r, False)"
  by (cases r) (simp add: dec_rf_def enc_rf_def dec_struct_def find_field_def zero_rf_def)

lemma dec_sc_enc: "fits_int (sc_NID c) \<Longrightarrow> dec_sc (enc_sc c) zero_sc = (c, False)"
  by (cases c) (simp add: dec_sc_def enc_sc_def dec_struct_def find_field_def zero_sc_def)

lemma dec_fru_enc: "dec_fru (enc_fru f) zero_fru = (f, False)"
  by (cases f) (simp add: dec_fru_def enc_fru_def dec_struct_def find_field_def zero_fru_def)

lemma dec_hi_enc: "dec_hi (enc_hi i) zero_hi = (i, False)"
proof -
  obtain x y p where i: "i = \<lparr>hi_ID = x, hi_Type = y, hi_PopulatedFRU = p\<rparr>" by (cases i)
  obtain a b f where p: "p = \<lparr>pf_Type = a, pf_Subtype = b, pf_NodeFRUInfo = f\<rparr>" by (cases p)
  show ?thesis
    by (simp add: i p dec_hi_def dec_pf_def enc_hi_def dec_struct_def find_field_def dec_sub_def
        zero_hi_def dec_fru_enc)
qed

lemma parse_rf_doc: "parse_reply dec_rf_response [] (Some (rf_doc rfs), c, None) = (rfs, None)"
  by (simp add: parse_reply_def unmarshal_def rf_doc_def dec_rf_response_def dec_struct_def
      find_field_def dec_slice_map dec_rf_enc)

lemma parse_sc_doc:
  assumes "\<forall>sc \<in> set comps. fits_int (sc_NID sc)"
  shows "parse_reply dec_sc_response [] (Some (sc_doc comps), c, None) = (comps, None)"
  using assms
  by (simp add: parse_reply_def unmarshal_def sc_doc_def dec_sc_response_def dec_struct_def
      find_field_def dec_slice_map dec_sc_enc)

lemma parse_hw_doc:
  "parse_reply (dec_slice zero_hi dec_hi) [] (Some (hw_doc items), c, None) = (items, None)"
  by (simp add: parse_reply_def unmarshal_def hw_doc_def dec_slice_map dec_hi_enc)

lemma hsm_view_docs:
  assumes "reply e h rf_request = (Some (rf_doc rfs), c1, None)"
    and "reply e (h @ sent e rf_request) sc_request = (Some (sc_doc comps), c2, None)"
    and "reply e (h @ sent e rf_request @ sent e sc_request) hw_request = (Some (hw_doc items), c3, None)"
    and "\<forall>sc \<in> set comps. fits_int (sc_NID sc)"
  shows "hsm_view e h = Some (rfs, comps, paradise_set items)"
  using assms(1-3)
  by (simp add: hsm_view_def Let_def parse_rf_doc parse_sc_doc [OF assms(4)] parse_hw_doc)

lemma set_map_filter: "set (List.map_filter f xs) = {y. \<exists>x \<in> set xs. f x = Some y}"
  by (induction xs) (auto simp: map_filter_simps split: option.splits)

text \<open>With distinct endpoint ids, a lookup by id finds exactly the endpoint of that id.\<close>

lemma index_by_distinct:
  assumes "distinct (map key xs)"
  shows "map_of (index_by key xs) k = Some x \<longleftrightarrow> x \<in> set xs \<and> key x = k"
proof
  assume "x \<in> set xs \<and> key x = k"
  then have "has_key (index_by key xs) k" by auto
  then obtain y where y: "map_of (index_by key xs) k = Some y" by (auto simp: has_key_def)
  then have "y \<in> set xs \<and> key y = k" by (rule index_by_lookup)
  with \<open>x \<in> set xs \<and> key x = k\<close> assms have "y = x" by (auto simp: distinct_map dest: inj_onD)
  with y show "map_of (index_by key xs) k = Some x" by simp
qed (rule index_by_lookup)

lemma node_of_Some_iff:
  assumes "distinct (map rf_ID rfs)"
  shows "node_of (index_by rf_ID rfs) paradise sc = Some n \<longleftrightarrow>
    (\<exists>rf \<in> set rfs. sc_Type sc = ''Node'' \<and> rf_ID rf = bmc_of (sc_ID sc) \<and>
       n = \<lparr>NodeName = sc_ID sc, BmcName = rf_ID rf, BmcFqdn = rf_FQDN rf,
            Class = hsm_class paradise sc, NID = sc_NID sc, Role = sc_Role sc\<rparr>)"
proof -
  let ?n = "\<lambda>rf. \<lparr>NodeName = sc_ID sc, BmcName = bmc_of (sc_ID sc), BmcFqdn = rf_FQDN rf,
            Class = hsm_class paradise sc, NID = sc_NID sc, Role = sc_Role sc\<rparr>"
  have "node_of (index_by rf_ID rfs) paradise sc = Some n \<longleftrightarrow> sc_Type sc = ''Node'' \<and>
      (\<exists>rf. map_of (index_by rf_ID rfs) (bmc_of (sc_ID sc)) = Some rf \<and> n = ?n rf)"
    by (auto simp: node_of_def map_option_case split: option.splits)
  then show ?thesis by (auto simp: index_by_distinct [OF assms])
qed

text \<open>C11: The inventory read from HSM is complete and correct. If HSM answers the three queries with
  documents for the endpoints \<open>rfs\<close> (with distinct ids), the components \<open>comps\<close> and the
  hardware items, and every node component's name contains an \<open>n\<close>, then
  \<open>getCurrentNodesFromHSM\<close> returns exactly one entry per component of type Node whose BMC (the
  name up to its last \<open>n\<close>) is a Redfish endpoint, with the endpoint's FQDN and with class
  Paradise exactly for the hardware of a Paradise model.\<close>

theorem getCurrentNodesFromHSM_inventory:
  assumes "reply e (trace s) rf_request = (Some (rf_doc rfs), c1, None)"
    and "reply e (trace s @ sent e rf_request) sc_request = (Some (sc_doc comps), c2, None)"
    and "reply e (trace s @ sent e rf_request @ sent e sc_request) hw_request =
      (Some (hw_doc items), c3, None)"
    and "\<forall>sc \<in> set comps. fits_int (sc_NID sc)"
    and "\<forall>sc \<in> set comps. sc_Type sc = ''Node'' \<longrightarrow> CHR ''n'' \<in> set (sc_ID sc)"
    and "distinct (map rf_ID rfs)"
  shows "\<exists>nodes. fst (getCurrentNodesFromHSM e s) = Ok nodes \<and>
    nodes = List.map_filter (node_of (index_by rf_ID rfs) (paradise_set items)) comps \<and>
    (\<forall>n. n \<in> set nodes \<longleftrightarrow>
      (\<exists>sc \<in> set comps. \<exists>rf \<in> set rfs.
         sc_Type sc = ''Node'' \<and> rf_ID rf = bmc_of (sc_ID sc) \<and>
         n = \<lparr>NodeName = sc_ID sc, BmcName = rf_ID rf, BmcFqdn = rf_FQDN rf,
              Class = (if \<exists>i \<in> set items. is_paradise_model i \<and> hi_ID i = sc_ID sc
                       then ''Paradise'' else sc_Class sc),
              NID = sc_NID sc, Role = sc_Role sc\<rparr>))"
proof -
  let ?nodes = "List.map_filter (node_of (index_by rf_ID rfs) (paradise_set items)) comps"
  have "hsm_view e (trace s) = Some (rfs, comps, paradise_set items)"
    using assms(1-4) by (rule hsm_view_docs)
  moreover from assms(5) have "\<not> hsm_malformed (rfs, comps, paradise_set items)"
    by (auto simp: hsm_malformed_def list_ex_iff malformed_def)
  ultimately have "fst (getCurrentNodesFromHSM e s) = Ok ?nodes"
    by (simp add: getCurrentNodesFromHSM_run hsm_nodes_def)
  moreover have "n \<in> set ?nodes \<longleftrightarrow>
      (\<exists>sc \<in> set comps. \<exists>rf \<in> set rfs.
         sc_Type sc = ''Node'' \<and> rf_ID rf = bmc_of (sc_ID sc) \<and>
         n = \<lparr>NodeName = sc_ID sc, BmcName = rf_ID rf, BmcFqdn = rf_FQDN rf,
              Class = (if \<exists>i \<in> set items. is_paradise_model i \<and> hi_ID i = sc_ID sc
                       then ''Paradise'' else sc_Class sc),
              NID = sc_NID sc, Role = sc_Role sc\<rparr>)" for n
    by (simp only: set_map_filter mem_Collect_eq node_of_Some_iff [OF assms(6)] hsm_class_def
        paradise_set_iff)
  ultimately show ?thesis by blast
qed

text \<open>C29: When reading the inventory crashes. Reading never changes a global, it panics only with a
  slice error, and it does so exactly when the endpoint and component queries succeed and some
  component of type Node has a name without an \<open>n\<close>.\<close>

theorem getCurrentNodesFromHSM_panics_iff:
  "snd (getCurrentNodesFromHSM e s) = s\<lparr>trace := trace s @ hsm_events e (trace s)\<rparr> \<and>
   (fst (getCurrentNodesFromHSM e s) = Panic p \<longleftrightarrow> p = SliceBounds \<and>
      (\<exists>rfs comps paradise. hsm_view e (trace s) = Some (rfs, comps, paradise) \<and>
        list_ex (\<lambda>sc. sc_Type sc = ''Node'' \<and> CHR ''n'' \<notin> set (sc_ID sc)) comps))"
  by (auto simp: getCurrentNodesFromHSM_run hsm_malformed_def list_ex_iff malformed_def
      split: option.splits if_splits)

text \<open>An unreachable state manager looks like an empty system. If the endpoint query or the
  component query fails, \<open>getCurrentNodesFromHSM\<close> returns no nodes and no error, and the same
  happens when the component reply is not a decodable document.\<close>

lemma getCurrentNodesFromHSM_failure_is_empty:
  assumes "snd (parse_reply dec_rf_response [] (reply e (trace s) rf_request)) \<noteq> None \<or>
    snd (parse_reply dec_sc_response [] (reply e (trace s @ sent e rf_request) sc_request)) \<noteq> None"
  shows "fst (getCurrentNodesFromHSM e s) = Ok []"
proof (cases "hsm_view e (trace s)")
  case None
  then show ?thesis by (simp add: getCurrentNodesFromHSM_run)
next
  case (Some v)
  then obtain rfs comps paradise where v: "v = (rfs, comps, paradise)" by (cases v)
  obtain data code err where r:
    "reply e (trace s @ sent e rf_request) sc_request = (data, code, err)"
    by (cases "reply e (trace s @ sent e rf_request) sc_request")
  with Some v assms have "err = None"
    and "snd (parse_reply dec_sc_response [] (data, code, err)) \<noteq> None"
    by (auto simp: hsm_view_def Let_def split: if_splits)
  then have "fst (parse_reply dec_sc_response [] (data, code, err)) = []"
    by (auto simp: parse_reply_def split: option.splits prod.splits)
  with Some v r have "comps = []" by (auto simp: hsm_view_def Let_def split: if_splits)
  with Some v show ?thesis
    by (simp add: getCurrentNodesFromHSM_run hsm_malformed_def hsm_nodes_def map_filter_simps)
qed

subsection \<open>A scripted state manager for the witnesses\<close>

definition hsm_env ::
    "redfishEndpoint list \<Rightarrow> stateComponent list \<Rightarrow> hsmHardwareInventoryItem list \<Rightarrow> env" where
  "hsm_env rfs comps items = quiet_env\<lparr>http_client_do := (\<lambda>h r.
     if req_url r = rf_URL then Inr (200, Inr (rf_doc rfs))
     else if req_url r = sc_URL then Inr (200, Inr (sc_doc comps))
     else if req_url r = hw_URL then Inr (200, Inr (hw_doc items))
     else Inr (200, Inr (Json (JObj []))))\<rparr>"

definition sample_rfs :: "redfishEndpoint list" where
  "sample_rfs =
     [zero_rf\<lparr>rf_ID := ''x3000c0s17b1'', rf_FQDN := ''x3000c0s17b1.hmn''\<rparr>,
      zero_rf\<lparr>rf_ID := ''x1000c0s0b0'', rf_FQDN := ''x1000c0s0b0''\<rparr>]"

definition sample_comps :: "stateComponent list" where
  "sample_comps =
     [\<lparr>sc_ID = ''x3000c0s17b1n0'', sc_Type = ''Node'', sc_Class = ''River'', sc_NID = 1, sc_Role = ''Compute''\<rparr>,
      \<lparr>sc_ID = ''x3000c0s17b1'', sc_Type = ''NodeBMC'', sc_Class = ''River'', sc_NID = 0, sc_Role = ''''\<rparr>,
      \<lparr>sc_ID = ''x1000c0s0b0n0'', sc_Type = ''Node'', sc_Class = ''Mountain'', sc_NID = 1000, sc_Role = ''Compute''\<rparr>]"

lemma url_distinct [simp]:
  "sc_URL \<noteq> rf_URL" "hw_URL \<noteq> rf_URL" "hw_URL \<noteq> sc_URL"
  by (simp_all add: sc_URL_def rf_URL_def hw_URL_def)

lemma hsm_env_replies:
  "reply (hsm_env rfs comps items) h rf_request = (Some (rf_doc rfs), 200, None)"
  "reply (hsm_env rfs comps items) h sc_request = (Some (sc_doc comps), 200, None)"
  "reply (hsm_env rfs comps items) h hw_request = (Some (hw_doc items), 200, None)"
  by (simp_all add: reply_def hsm_env_def quiet_env_def)

theorem getCurrentNodesFromHSM_inventory_witness:
  "fst (getCurrentNodesFromHSM (hsm_env sample_rfs sample_comps []) init_state) = Ok
     [\<lparr>NodeName = ''x3000c0s17b1n0'', BmcName = ''x3000c0s17b1'', BmcFqdn = ''x3000c0s17b1.hmn'',
       Class = ''River'', NID = 1, Role = ''Compute''\<rparr>,
      \<lparr>NodeName = ''x1000c0s0b0n0'', BmcName = ''x1000c0s0b0'', BmcFqdn = ''x1000c0s0b0'',
       Class = ''Mountain'', NID = 1000, Role = ''Compute''\<rparr>]"
proof -
  have 1: "\<forall>sc \<in> set sample_comps. fits_int (sc_NID sc)"
    by (simp add: sample_comps_def fits_int_def)
  have 2: "\<forall>sc \<in> set sample_comps. sc_Type sc = ''Node'' \<longrightarrow> CHR ''n'' \<in> set (sc_ID sc)"
    by (simp add: sample_comps_def)
  have 3: "distinct (map rf_ID sample_rfs)" by (simp add: sample_rfs_def zero_rf_def)
  have "List.map_filter (node_of (index_by rf_ID sample_rfs) (paradise_set [])) sample_comps =
     [\<lparr>NodeName = ''x3000c0s17b1n0'', BmcName = ''x3000c0s17b1'', BmcFqdn = ''x3000c0s17b1.hmn'',
       Class = ''River'', NID = 1, Role = ''Compute''\<rparr>,
      \<lparr>NodeName = ''x1000c0s0b0n0'', BmcName = ''x1000c0s0b0'', BmcFqdn = ''x1000c0s0b0'',
       Class = ''Mountain'', NID = 1000, Role = ''Compute''\<rparr>]"
    by (simp add: sample_rfs_def sample_comps_def zero_rf_def map_filter_simps node_of_def bmc_of_def
        index_by_def paradise_set_def hsm_class_def has_key_def Let_def)
  with getCurrentNodesFromHSM_inventory [where s = init_state, OF hsm_env_replies 1 2 3]
  show ?thesis by auto
qed

section \<open>What the operator asks for\<close>

definition k8s_healthy :: "k8Manager \<Rightarrow> bool" where
  "k8s_healthy k8s \<longleftrightarrow> (\<exists>cs. initialized k8s = Some cs \<and>
     (\<forall>h. \<exists>dep n. sts_Get cs h = Inr dep \<and> Replicas dep = Some n) \<and>
     (\<forall>h d. \<exists>d' n. sts_Update cs h d = Inr d' \<and> Replicas d' = Some n))"

definition target_file_writable :: "env \<Rightarrow> bool" where
  "target_file_writable e \<longleftrightarrow>
     (\<forall>h. os_stat e h ''/var/log/console'' \<noteq> StatNotExist \<and> os_open_file e h targetNodeFile = None)"

lemma initialized_clientset: "initialized k8s = Some cs \<Longrightarrow> k8_clientset k8s = Some cs"
  by (simp add: initialized_def split: if_splits)

lemma healthy_updateReplicaCount:
  assumes "k8s_healthy k8s"
  shows "\<exists>evs. updateReplicaCount k8s n e s = (Ok (), s\<lparr>numNodePods := n, trace := trace s @ evs\<rparr>)"
proof -
  obtain cs where cs: "initialized k8s = Some cs"
    and get: "\<And>h. \<exists>dep n. sts_Get cs h = Inr dep \<and> Replicas dep = Some n"
    and upd: "\<And>h d. \<exists>d' n. sts_Update cs h d = Inr d' \<and> Replicas d' = Some n"
    using assms by (auto simp: k8s_healthy_def)
  obtain dep cur where dep: "sts_Get cs (trace s) = Inr dep" "Replicas dep = Some cur"
    using get by blast
  obtain d x where d: "sts_Update cs (trace s @ [StatefulSetGet]) (dep\<lparr>Replicas := Some (int32 n)\<rparr>) = Inr d"
    "Replicas d = Some x" using upd by blast
  show ?thesis
    unfolding updateReplicaCount_cases
    by (rule exI [where x = "if int32 n = cur then [StatefulSetGet]
            else [StatefulSetGet, StatefulSetUpdate (dep\<lparr>Replicas := Some (int32 n)\<rparr>)]"])
      (simp add: cs dep d)
qed

lemma healthy_getReplicaCount:
  assumes "k8s_healthy k8s"
  shows "\<exists>n. getReplicaCount k8s e s = (Ok (n, None), s\<lparr>trace := trace s @ [StatefulSetGet]\<rparr>)"
proof -
  obtain cs dep n where "k8_clientset k8s = Some cs" and "sts_Get cs (trace s) = Inr dep"
    and "Replicas dep = Some n"
    using assms by (metis initialized_clientset k8s_healthy_def)
  then show ?thesis by (simp add: getReplicaCount_run)
qed

lemma writable_updateNodesPerPod:
  assumes "target_file_writable e"
  shows "\<exists>evs. updateNodesPerPod mtn rvr e s =
    (Ok (), s\<lparr>numMtnNodesPerPod := mtn, numRvrNodesPerPod := rvr, numFileErrors := 0,
              trace := trace s @ evs\<rparr>)"
  using assms
  by (intro exI [where x = "OsStat ''/var/log/console'' # OsOpenFile targetNodeFile # target_lines mtn rvr"])
    (simp add: target_file_writable_def updateNodesPerPod_run write_target_file_run)

lemma K8Manager_service_ops [simp]:
  "k8_getReplicaCount (K8Manager_service k8s) = getReplicaCount k8s"
  "k8_updateReplicaCount (K8Manager_service k8s) = updateReplicaCount k8s"
  "k8_updateNodesPerPod (K8Manager_service k8s) = updateNodesPerPod"
  "k8_getPodLocationAlias (K8Manager_service k8s) = getPodLocationAlias k8s"
  by (simp_all add: K8Manager_service_def)

lemma updateNodeCounts_healthy:
  assumes "k8s_healthy k8s" and "target_file_writable e"
    and "counts_in_range s mtn rvr" and "mtn + rvr \<noteq> 0"
  shows "\<exists>t. updateNodeCounts (K8Manager_service k8s) mtn rvr e s = (Ok (), t) \<and>
    numNodePods t = pods_needed s mtn rvr \<and>
    numMtnNodesPerPod t = per_pod s mtn rvr mtn \<and> numRvrNodesPerPod t = per_pod s mtn rvr rvr \<and>
    totalMtnNodes t = mtn \<and> totalRvrNodes t = rvr \<and> nodeCache t = nodeCache s"
proof -
  let ?s = "s\<lparr>totalRvrNodes := rvr, totalMtnNodes := mtn\<rparr>"
  let ?p = "pods_needed s mtn rvr"
  obtain evs where up: "updateReplicaCount k8s ?p e ?s =
      (Ok (), ?s\<lparr>numNodePods := ?p, trace := trace ?s @ evs\<rparr>)"
    using healthy_updateReplicaCount [OF assms(1)] by blast
  let ?u = "?s\<lparr>numNodePods := ?p, trace := trace ?s @ evs\<rparr>"
  obtain n where get: "getReplicaCount k8s e ?u = (Ok (n, None), ?u\<lparr>trace := trace ?u @ [StatefulSetGet]\<rparr>)"
    using healthy_getReplicaCount [OF assms(1)] by blast
  let ?v = "?u\<lparr>trace := trace ?u @ [StatefulSetGet]\<rparr>"
  obtain evs' where put: "updateNodesPerPod (per_pod s mtn rvr mtn) (per_pod s mtn rvr rvr) e ?v =
      (Ok (), ?v\<lparr>numMtnNodesPerPod := per_pod s mtn rvr mtn, numRvrNodesPerPod := per_pod s mtn rvr rvr,
              numFileErrors := 0, trace := trace ?v @ evs'\<rparr>)"
    using writable_updateNodesPerPod [OF assms(2)] by blast
  show ?thesis
    using up get put
    by (simp add: updateNodeCounts_exact [OF assms(3,4)] Let_def then_go_run bind_go_run)
qed

text \<open>The numbers: \<open>pods_needed\<close> is one more than the least sufficient number of pods, \<open>per_pod\<close> one
  more than the least share that places all nodes on them.\<close>

lemma pods_needed_least:
  assumes "counts_in_range s mtn rvr" and "p = pods_needed s mtn rvr"
  shows "mtn \<le> (p - 1) * maxMtnNodesPerPod s" and "rvr \<le> (p - 1) * maxRvrNodesPerPod s"
    and "mtn \<le> q * maxMtnNodesPerPod s \<and> rvr \<le> q * maxRvrNodesPerPod s \<Longrightarrow> p \<le> q + 1"
proof -
  let ?M = "maxMtnNodesPerPod s" and ?R = "maxRvrNodesPerPod s"
  have M: "0 < ?M" and R: "0 < ?R" using assms(1) by (simp_all add: counts_in_range_def)
  have "ceil_div mtn ?M * ?M \<le> (p - 1) * ?M" and "ceil_div rvr ?R * ?R \<le> (p - 1) * ?R"
    using M R assms(2) by (simp_all add: pods_needed_def mult_right_mono)
  then show "mtn \<le> (p - 1) * ?M" and "rvr \<le> (p - 1) * ?R"
    using ceil_div_bounds(1) [OF M, of mtn] ceil_div_bounds(1) [OF R, of rvr] by linarith+
  show "p \<le> q + 1" if "mtn \<le> q * ?M \<and> rvr \<le> q * ?R"
    using that ceil_div_least [OF M, of mtn q] ceil_div_least [OF R, of rvr q] assms(2)
    by (simp add: pods_needed_def)
qed

lemma per_pod_least:
  assumes "0 < pods_needed s mtn rvr"
  shows "n \<le> (per_pod s mtn rvr n - 1) * pods_needed s mtn rvr"
    and "(per_pod s mtn rvr n - 2) * pods_needed s mtn rvr < n"
  using ceil_div_bounds [OF assms, of n] by (simp_all add: per_pod_def left_diff_distrib)

lemma int32_eq_iff:
  assumes "- (2 ^ 31) \<le> n" and "n < 2 ^ 31"
  shows "int32 n = w \<longleftrightarrow> sint w = n"
proof
  assume "sint w = n"
  then show "int32 n = w" unfolding int32_def by auto
qed (use assms sint_int32 in blast)

text \<open>C12: Pods and targets are right, and they arrive. On a healthy cluster and for counts below
  \<open>2 ^ 31 - 1\<close> (so that the pod count fits the \<open>int32\<close> of Kubernetes), \<open>updateNodeCounts\<close> settles
  on a number \<open>p\<close> of pods that is one more than the least number whose pods hold all Mountain and
  all River nodes within the configured maxima, and on per-pod targets that are one more than
  the least share with which \<open>p\<close> pods hold all nodes of the kind. It asks Kubernetes for exactly
  \<open>p\<close> replicas unless there are \<open>p\<close> already, writes both targets to the file unless they are the
  recorded ones, records all of it, and makes no other call and changes no other global.\<close>

theorem updateNodeCounts_capacity:
  assumes "k8s_healthy k8s" and "target_file_writable e"
    and "counts_in_range s mtn rvr" and "mtn + rvr \<noteq> 0" and "mtn < 2 ^ 31 - 1" and "rvr < 2 ^ 31 - 1"
    and "initialized k8s = Some cs" and "sts_Get cs (trace s) = Inr dep" and "Replicas dep = Some cur"
  shows "\<exists>p m r same. updateNodeCounts (K8Manager_service k8s) mtn rvr e s =
      (Ok (), s\<lparr>totalRvrNodes := rvr, totalMtnNodes := mtn, numNodePods := p,
         numMtnNodesPerPod := m, numRvrNodesPerPod := r,
         numFileErrors := (if same then numFileErrors s else 0),
         trace := trace s @ [StatefulSetGet] @
           (if sint cur = p then [] else [StatefulSetUpdate (dep\<lparr>Replicas := Some (int32 p)\<rparr>)]) @
           [StatefulSetGet] @
           (if same then []
            else [OsStat ''/var/log/console'', OsOpenFile targetNodeFile,
                  FileWriteString targetNodeFile (''River:'' @ show_int r @ [CHR 0x0A]),
                  FileWriteString targetNodeFile (''Mountain:'' @ show_int m @ [CHR 0x0A])])\<rparr>) \<and>
    (same \<longleftrightarrow> m = numMtnNodesPerPod s \<and> r = numRvrNodesPerPod s) \<and> sint (int32 p) = p \<and>
    mtn \<le> (p - 1) * maxMtnNodesPerPod s \<and> rvr \<le> (p - 1) * maxRvrNodesPerPod s \<and>
    (\<forall>q. mtn \<le> q * maxMtnNodesPerPod s \<and> rvr \<le> q * maxRvrNodesPerPod s \<longrightarrow> p \<le> q + 1) \<and>
    mtn \<le> (m - 1) * p \<and> (m - 2) * p < mtn \<and> rvr \<le> (r - 1) * p \<and> (r - 2) * p < rvr"
proof -
  let ?p = "pods_needed s mtn rvr" and ?m = "per_pod s mtn rvr mtn" and ?r = "per_pod s mtn rvr rvr"
  let ?same = "?m = numMtnNodesPerPod s \<and> ?r = numRvrNodesPerPod s"
  let ?s = "s\<lparr>totalRvrNodes := rvr, totalMtnNodes := mtn\<rparr>"
  let ?evs = "StatefulSetGet # (if sint cur = ?p then [] else [StatefulSetUpdate (dep\<lparr>Replicas := Some (int32 ?p)\<rparr>)])"
  let ?u = "?s\<lparr>numNodePods := ?p, trace := trace s @ ?evs\<rparr>"
  let ?v = "?u\<lparr>trace := trace s @ ?evs @ [StatefulSetGet]\<rparr>"
  have p: "0 < ?p" "?p < 2 ^ 31" using pods_needed_bounds [OF assms(3)] assms(5,6) by linarith+
  then have fits: "int32 ?p = cur \<longleftrightarrow> sint cur = ?p" "sint (int32 ?p) = ?p"
    using int32_eq_iff [of ?p cur] sint_int32 [of ?p] by simp_all
  obtain d x where d: "sts_Update cs (trace s @ [StatefulSetGet]) (dep\<lparr>Replicas := Some (int32 ?p)\<rparr>) = Inr d"
    "Replicas d = Some x" using assms(1,7) unfolding k8s_healthy_def by (metis option.inject)
  have up: "updateReplicaCount k8s ?p e ?s = (Ok (), ?u)"
    by (cases s) (use assms(7-9) d fits(1) in \<open>simp add: updateReplicaCount_cases\<close>)
  obtain n where get: "getReplicaCount k8s e ?u = (Ok (n, None), ?u\<lparr>trace := trace ?u @ [StatefulSetGet]\<rparr>)"
    using healthy_getReplicaCount [OF assms(1)] by blast
  have put: "updateNodesPerPod ?m ?r e ?v = (Ok (), ?v\<lparr>numMtnNodesPerPod := ?m, numRvrNodesPerPod := ?r,
      numFileErrors := 0, trace := trace ?v @ [OsStat ''/var/log/console'', OsOpenFile targetNodeFile] @ target_lines ?m ?r\<rparr>)"
    using assms(2) by (simp add: target_file_writable_def updateNodesPerPod_run write_target_file_run)
  have "updateNodeCounts (K8Manager_service k8s) mtn rvr e s =
      (if ?same then (Ok (), ?v) else updateNodesPerPod ?m ?r e ?v)"
    using up get by (simp add: updateNodeCounts_exact [OF assms(3,4)] Let_def then_go_run bind_go_run conj_commute)
  also have "\<dots> = (Ok (), s\<lparr>totalRvrNodes := rvr, totalMtnNodes := mtn, numNodePods := ?p,
         numMtnNodesPerPod := ?m, numRvrNodesPerPod := ?r,
         numFileErrors := (if ?same then numFileErrors s else 0),
         trace := trace s @ [StatefulSetGet] @
           (if sint cur = ?p then [] else [StatefulSetUpdate (dep\<lparr>Replicas := Some (int32 ?p)\<rparr>)]) @
           [StatefulSetGet] @
           (if ?same then [] else [OsStat ''/var/log/console'', OsOpenFile targetNodeFile] @ target_lines ?m ?r)\<rparr>)"
    unfolding put by (cases s) simp
  finally show ?thesis
    using fits(2) pods_needed_least [OF assms(3) refl] per_pod_least [OF p(1)]
    by (intro exI [of _ ?p] exI [of _ ?m] exI [of _ ?r] exI [of _ ?same]) (simp add: target_lines_def)
qed

lemma healthy_sample:
  "target_file_writable quiet_env" "counts_in_range init_state 1600 4100"
  by (simp_all add: target_file_writable_def quiet_env_def counts_in_range_def init_state_def)

definition fixed_manager :: "32 word \<Rightarrow> k8Manager" where
  "fixed_manager n = \<lparr>k8_config = Some RestConfig, k8_clientset = Some \<lparr>
     sts_Get = (\<lambda>h. Inr \<lparr>Replicas = Some n\<rparr>), sts_Update = (\<lambda>h d. Inr \<lparr>Replicas = Some n\<rparr>),
     pods_Get = (\<lambda>h p. Inr \<lparr>pod_NodeName = ''ncn-w001''\<rparr>), pods_List = (\<lambda>h. Inr [])\<rparr>\<rparr>"

lemma fixed_manager_healthy: "k8s_healthy (fixed_manager n)"
  by (simp add: k8s_healthy_def fixed_manager_def initialized_def)

theorem updateNodeCounts_capacity_witness:
  "\<exists>t. updateNodeCounts (K8Manager_service (fixed_manager 4)) 1600 4100 quiet_env init_state = (Ok (), t) \<and>
    FileWriteString targetNodeFile (''River:'' @ show_int (numRvrNodesPerPod t) @ [CHR 0x0A]) \<in> set (trace t) \<and>
    4100 \<le> (numRvrNodesPerPod t - 1) * numNodePods t"
proof -
  have k: "initialized (fixed_manager 4) = Some \<lparr>sts_Get = (\<lambda>h. Inr \<lparr>Replicas = Some 4\<rparr>),
      sts_Update = (\<lambda>h d. Inr \<lparr>Replicas = Some 4\<rparr>),
      pods_Get = (\<lambda>h p. Inr \<lparr>pod_NodeName = ''ncn-w001''\<rparr>), pods_List = (\<lambda>h. Inr [])\<rparr>" (is "_ = Some ?cs")
    by (simp add: initialized_def fixed_manager_def)
  have g: "sts_Get ?cs (trace init_state) = Inr \<lparr>Replicas = Some 4\<rparr>"
    and n: "(1600::int) + 4100 \<noteq> 0" "(1600::int) < 2 ^ 31 - 1" "(4100::int) < 2 ^ 31 - 1"
    and cur: "Replicas \<lparr>Replicas = Some (4 :: 32 word)\<rparr> = Some 4" by simp_all
  obtain p m r same evs where run: "updateNodeCounts (K8Manager_service (fixed_manager 4)) 1600 4100 quiet_env init_state =
      (Ok (), init_state\<lparr>totalRvrNodes := 4100, totalMtnNodes := 1600, numNodePods := p, numMtnNodesPerPod := m,
         numRvrNodesPerPod := r, numFileErrors := (if same then numFileErrors init_state else 0),
         trace := trace init_state @ [StatefulSetGet] @ evs @ [StatefulSetGet] @
           (if same then [] else [OsStat ''/var/log/console'', OsOpenFile targetNodeFile,
              FileWriteString targetNodeFile (''River:'' @ show_int r @ [CHR 0x0A]),
              FileWriteString targetNodeFile (''Mountain:'' @ show_int m @ [CHR 0x0A])])\<rparr>)"
    and same: "same \<longleftrightarrow> m = numMtnNodesPerPod init_state \<and> r = numRvrNodesPerPod init_state"
    and cap: "4100 \<le> (p - 1) * maxRvrNodesPerPod init_state" "4100 \<le> (r - 1) * p"
    using updateNodeCounts_capacity [OF fixed_manager_healthy healthy_sample n k g cur] by blast
  have "0 < p" using cap(1) by (simp add: init_state_def)
  with cap(2) have "r \<noteq> -1" by auto
  then have "\<not> same" using same by (simp add: init_state_def)
  with run cap(2) show ?thesis by simp
qed

text \<open>The frame of a sizing step: the globals that \<open>updateNodeCounts\<close> and the calls below it leave alone.\<close>

definition sizing_only :: "op_state \<Rightarrow> op_state \<Rightarrow> bool" where
  "sizing_only s t \<longleftrightarrow>
     debugOnly t = debugOnly s \<and> nodeCache t = nodeCache s \<and>
     maxMtnNodesPerPod t = maxMtnNodesPerPod s \<and> maxRvrNodesPerPod t = maxRvrNodesPerPod s \<and>
     newHardwareCheckPeriodSec t = newHardwareCheckPeriodSec s \<and>
     hardwareUpdateTime t = hardwareUpdateTime s \<and>
     heartbeatStaleMinutes t = heartbeatStaleMinutes s \<and>
     heartbeatCheckPeriodSec t = heartbeatCheckPeriodSec s \<and> inShutdown t = inShutdown s \<and>
     mountainCredsUpdateChannel t = mountainCredsUpdateChannel s \<and> creds_taken t = creds_taken s"

lemma sizing_only_refl [simp]: "sizing_only s s"
  by (simp add: sizing_only_def)

context k8_service
begin

lemma sizing_updateReplicaCount: "preserves (sizing_only s0) (k8_updateReplicaCount k8 n)"
  by (rule preserves_updateReplicaCount) (simp add: sizing_only_def)

lemma sizing_updateNodesPerPod: "preserves (sizing_only s0) (k8_updateNodesPerPod k8 m r)"
  by (rule preserves_updateNodesPerPod) (simp add: sizing_only_def)

lemma sizing_getReplicaCount: "preserves (sizing_only s0) (k8_getReplicaCount k8)"
  by (rule preserves_getReplicaCount) (simp add: sizing_only_def)

lemma updateNodeCounts_sizing_only:
  "sizing_only s (snd (updateNodeCounts k8 mtn rvr e s))"
proof -
  have "preserves (sizing_only s) (updateNodeCounts k8 mtn rvr)"
    unfolding updateNodeCounts_def Let_def
    by (intro preserves_intros sizing_updateReplicaCount sizing_updateNodesPerPod
        sizing_getReplicaCount) (simp add: sizing_only_def)
  then show ?thesis by (rule preservesD) simp
qed

lemma updateNodeCounts_no_http: "preserves (emits not_http s0) (updateNodeCounts k8 mtn rvr)"
  unfolding updateNodeCounts_def Let_def
  by (intro k8s_emits updateReplicaCount_no_http updateNodesPerPod_no_http
      getReplicaCount_no_http) simp

text \<open>When the replica count cannot be read, the targets pushed are one below the normal ones.\<close>

lemma updateNodeCounts_count_error:
  assumes "counts_in_range s mtn rvr" and "mtn + rvr \<noteq> 0"
    and "k8_updateReplicaCount k8 (pods_needed s mtn rvr) e
      (s\<lparr>totalRvrNodes := rvr, totalMtnNodes := mtn\<rparr>) = (Ok (), u)"
    and "k8_getReplicaCount k8 e u = (Ok (n, Some err), v)"
  shows "updateNodeCounts k8 mtn rvr e s =
    k8_updateNodesPerPod k8 (per_pod s mtn rvr mtn - 1) (per_pod s mtn rvr rvr - 1) e v"
proof -
  have "n = -1" using assms(4) by (rule getReplicaCount_error)
  with assms show ?thesis
    by (simp add: updateNodeCounts_exact Let_def then_go_run bind_go_run)
qed

end

section \<open>The contract of the node service\<close>

text \<open>What the hardware watcher relies on.\<close>

locale node_service =
  fixes ns :: nodeService
  assumes getCurrentNodes_frame:
      "\<exists>evs. snd (ns_getCurrentNodesFromHSM ns e s) = s\<lparr>trace := trace s @ evs\<rparr>"
    and updateNodeCounts_frame:
      "sizing_only s (snd (ns_updateNodeCounts ns mtn rvr e s))"
    and getCurrentNodes_reads: "preserves (emits read_only s0) (ns_getCurrentNodesFromHSM ns)"
    and updateNodeCounts_reads: "preserves (emits read_only s0) (ns_updateNodeCounts ns mtn rvr)"

lemma emits_getCurrentNodes: "preserves (emits read_only s0) getCurrentNodesFromHSM"
  by (rule preservesI)
    (auto simp: getCurrentNodesFromHSM_run hsm_events_def sent_def intro: emits_more)

sublocale k8_service \<subseteq> node_service "NewNodeManager k8"
proof
  fix e s
  show "\<exists>evs. snd (ns_getCurrentNodesFromHSM (NewNodeManager k8) e s) = s\<lparr>trace := trace s @ evs\<rparr>"
    by (rule exI [of _ "hsm_events e (trace s)"])
      (simp add: NewNodeManager_def getCurrentNodesFromHSM_run)
next
  fix mtn rvr e s
  show "sizing_only s (snd (ns_updateNodeCounts (NewNodeManager k8) mtn rvr e s))"
    by (simp add: NewNodeManager_def updateNodeCounts_sizing_only)
next
  fix s0
  show "preserves (emits read_only s0) (ns_getCurrentNodesFromHSM (NewNodeManager k8))"
    by (simp add: NewNodeManager_def emits_getCurrentNodes)
next
  fix mtn rvr s0
  have "preserves (emits read_only s0) (updateNodeCounts k8 mtn rvr)"
    by (rule emits_weaken, rule updateNodeCounts_no_http, rule not_http_read_only)
  then show "preserves (emits read_only s0) (ns_updateNodeCounts (NewNodeManager k8) mtn rvr)"
    by (simp add: NewNodeManager_def)
qed

interpretation nm: node_service "NewNodeManager (K8Manager_service k8s)" for k8s
  by (rule k8m.node_service_axioms)

section \<open>Targets and maxima\<close>

lemma per_pod_le_max:
  assumes "0 < M" and "0 < p" and "0 \<le> n" and "n \<le> (p - 1) * M"
  shows "ceil_div n p \<le> M" and "ceil_div n p = M \<longleftrightarrow> p * (M - 1) < n"
proof -
  have "(p - 1) * M \<le> M * p" using assms(1) by (simp add: algebra_simps)
  with assms(4) have "n \<le> M * p" by linarith
  with assms(2) show le: "ceil_div n p \<le> M" by (rule ceil_div_least)
  show "ceil_div n p = M \<longleftrightarrow> p * (M - 1) < n"
  proof
    assume "ceil_div n p = M"
    with ceil_div_bounds(2) [OF assms(2), of n] show "p * (M - 1) < n" by (simp add: algebra_simps)
  next
    assume "p * (M - 1) < n"
    moreover have "n \<le> ceil_div n p * p" using assms(2) by (rule ceil_div_bounds(1))
    ultimately have "(M - 1) * p < ceil_div n p * p" by (simp add: mult.commute)
    with assms(2) have "M - 1 < ceil_div n p" by (simp add: mult_less_cancel_right)
    with le show "ceil_div n p = M" by simp
  qed
qed

text \<open>C13: How far the published target can go beyond the configured maximum. The variables are
  documented as hard maximums which no pod exceeds; on a healthy cluster the target written
  for Mountain nodes is at most the maximum plus one, and it does exceed the maximum exactly
  when the nodes fill all \<open>p\<close> pods to more than one below the maximum. The same holds for
  River nodes.\<close>

theorem updateNodeCounts_target_bound:
  assumes "k8s_healthy k8s" and "target_file_writable e"
    and "counts_in_range s mtn rvr" and "mtn + rvr \<noteq> 0"
  shows "\<exists>t p. updateNodeCounts (K8Manager_service k8s) mtn rvr e s = (Ok (), t) \<and> p = numNodePods t \<and>
    numMtnNodesPerPod t \<le> maxMtnNodesPerPod s + 1 \<and> numRvrNodesPerPod t \<le> maxRvrNodesPerPod s + 1 \<and>
    (numMtnNodesPerPod t > maxMtnNodesPerPod s \<longleftrightarrow> p * (maxMtnNodesPerPod s - 1) < mtn) \<and>
    (numRvrNodesPerPod t > maxRvrNodesPerPod s \<longleftrightarrow> p * (maxRvrNodesPerPod s - 1) < rvr)"
proof -
  let ?p = "pods_needed s mtn rvr"
  let ?M = "maxMtnNodesPerPod s" and ?R = "maxRvrNodesPerPod s"
  have M: "0 < ?M" and R: "0 < ?R" and n: "0 \<le> mtn" "0 \<le> rvr"
    using assms(3) by (simp_all add: counts_in_range_def)
  have p: "0 < ?p" using pods_needed_bounds(1) [OF assms(3)] by linarith
  note cap = pods_needed_least(1,2) [OF assms(3) refl]
  note mtn = per_pod_le_max [OF M p n(1) cap(1)] and rvr = per_pod_le_max [OF R p n(2) cap(2)]
  obtain t where "updateNodeCounts (K8Manager_service k8s) mtn rvr e s = (Ok (), t)"
    and t: "numNodePods t = ?p" "numMtnNodesPerPod t = ceil_div mtn ?p + 1"
      "numRvrNodesPerPod t = ceil_div rvr ?p + 1"
    using updateNodeCounts_healthy [OF assms] unfolding per_pod_def by blast
  moreover have "numMtnNodesPerPod t > ?M \<longleftrightarrow> ceil_div mtn ?p = ?M"
    and "numRvrNodesPerPod t > ?R \<longleftrightarrow> ceil_div rvr ?p = ?R"
    using t mtn(1) rvr(1) by linarith+
  ultimately show ?thesis using mtn rvr by (intro exI [of _ t] exI [of _ ?p]) simp
qed

text \<open>With a maximum of 2 Mountain nodes per pod, 4 nodes lead to a target of 3.\<close>

theorem updateNodeCounts_target_bound_witness:
  "\<exists>t. updateNodeCounts (K8Manager_service (fixed_manager 3)) 4 0 quiet_env
      (init_state\<lparr>maxMtnNodesPerPod := 2\<rparr>) = (Ok (), t) \<and> numMtnNodesPerPod t = 3"
proof -
  let ?s = "init_state\<lparr>maxMtnNodesPerPod := 2\<rparr>"
  have c: "counts_in_range ?s 4 0" and nz: "(4::int) + 0 \<noteq> 0"
    by (simp_all add: counts_in_range_def init_state_def)
  obtain t where t: "updateNodeCounts (K8Manager_service (fixed_manager 3)) 4 0 quiet_env ?s = (Ok (), t)"
    and le: "numMtnNodesPerPod t \<le> 3" and gt: "numMtnNodesPerPod t > 2 \<longleftrightarrow> numNodePods t * 1 < 4"
    using updateNodeCounts_target_bound [OF fixed_manager_healthy healthy_sample(1) c nz] by auto
  moreover have "numNodePods t = 3"
    using updateNodeCounts_healthy [OF fixed_manager_healthy healthy_sample(1) c nz, of 3] t
    by (simp add: pods_needed_def ceil_div_def init_state_def)
  ultimately show ?thesis by auto
qed

definition api_down :: "k8Manager \<Rightarrow> bool" where
  "api_down k8s \<longleftrightarrow> (\<exists>cs. initialized k8s = Some cs \<and> (\<forall>h. \<exists>err. sts_Get cs h = Inl err))"

lemma down_updateReplicaCount:
  assumes "api_down k8s"
  shows "updateReplicaCount k8s n e s = (Ok (), s\<lparr>trace := trace s @ [StatefulSetGet]\<rparr>)"
proof -
  obtain cs err where "initialized k8s = Some cs" and "sts_Get cs (trace s) = Inl err"
    using assms unfolding api_down_def by blast
  then show ?thesis by (simp add: updateReplicaCount_cases)
qed

lemma down_getReplicaCount:
  assumes "api_down k8s"
  shows "\<exists>err. getReplicaCount k8s e s = (Ok (-1, Some err), s\<lparr>trace := trace s @ [StatefulSetGet]\<rparr>)"
proof -
  obtain cs err where "initialized k8s = Some cs" and "sts_Get cs (trace s) = Inl err"
    using assms unfolding api_down_def by blast
  then show ?thesis by (simp add: getReplicaCount_run initialized_clientset)
qed

text \<open>C39: The replica padding has the wrong sign and the wrong condition. The comment says the
  replica count is added to the targets as slop; the code adds it only when reading it failed,
  and then it is -1. So with the Kubernetes API down, the targets written to the file are one
  less than the ones written on a healthy cluster: exactly the rounded-up share of each pod,
  with no slop at all. The number of pods is left alone.\<close>

theorem updateNodeCounts_api_down:
  assumes "api_down k8s" and "target_file_writable e"
    and "counts_in_range s mtn rvr" and "mtn + rvr \<noteq> 0"
  shows "\<exists>t. updateNodeCounts (K8Manager_service k8s) mtn rvr e s = (Ok (), t) \<and>
    numNodePods t = numNodePods s \<and>
    numMtnNodesPerPod t = ceil_div mtn (pods_needed s mtn rvr) \<and>
    numRvrNodesPerPod t = ceil_div rvr (pods_needed s mtn rvr)"
proof -
  let ?s = "s\<lparr>totalRvrNodes := rvr, totalMtnNodes := mtn\<rparr>"
  let ?u = "?s\<lparr>trace := trace ?s @ [StatefulSetGet]\<rparr>"
  let ?v = "?u\<lparr>trace := trace ?u @ [StatefulSetGet]\<rparr>"
  obtain err where "getReplicaCount k8s e ?u = (Ok (-1, Some err), ?v)"
    using down_getReplicaCount [OF assms(1)] by blast
  then have "k8_getReplicaCount (K8Manager_service k8s) e ?u = (Ok (-1, Some err), ?v)" by simp
  moreover have "k8_updateReplicaCount (K8Manager_service k8s) (pods_needed s mtn rvr) e ?s = (Ok (), ?u)"
    by (simp add: down_updateReplicaCount [OF assms(1)])
  ultimately have "updateNodeCounts (K8Manager_service k8s) mtn rvr e s =
      updateNodesPerPod (per_pod s mtn rvr mtn - 1) (per_pod s mtn rvr rvr - 1) e ?v"
    using k8m.updateNodeCounts_count_error [OF assms(3,4)] by simp
  moreover obtain evs where "updateNodesPerPod (per_pod s mtn rvr mtn - 1) (per_pod s mtn rvr rvr - 1) e ?v =
      (Ok (), ?v\<lparr>numMtnNodesPerPod := per_pod s mtn rvr mtn - 1,
         numRvrNodesPerPod := per_pod s mtn rvr rvr - 1, numFileErrors := 0, trace := trace ?v @ evs\<rparr>)"
    using writable_updateNodesPerPod [OF assms(2)] by blast
  ultimately show ?thesis by (simp add: per_pod_def)
qed

theorem updateNodeCounts_api_down_witness:
  "\<exists>t. updateNodeCounts (K8Manager_service \<lparr>k8_config = Some RestConfig, k8_clientset = Some dead_server\<rparr>)
      1600 4100 quiet_env init_state = (Ok (), t) \<and>
    numNodePods t = -1 \<and> numMtnNodesPerPod t = 400 \<and> numRvrNodesPerPod t = 1025"
proof -
  have "api_down \<lparr>k8_config = Some RestConfig, k8_clientset = Some dead_server\<rparr>"
    by (simp add: api_down_def initialized_def dead_server_def)
  from updateNodeCounts_api_down [OF this healthy_sample] show ?thesis
    by (simp add: pods_needed_def ceil_div_def init_state_def)
qed

end
