(* ===== verification/Hardware.thy ===== *)
theory Hardware
  imports Creds Nodes
begin

text \<open>
  The hardware watcher of \<open>consoleOpMain.go\<close>: comparing the inventory of the state manager with
  the node cache, sending the difference to console-data, resizing the pods and queueing new
  Mountain nodes for the key worker; and reading the configuration from the environment.
\<close>

section \<open>One update\<close>

definition updateCachedNodeData ::
    "dataService \<Rightarrow> nodeService \<Rightarrow> bool \<Rightarrow> (bool \<times> nodeConsoleInfo list) op" where
  "updateCachedNodeData ds ns updateAll =
     bind_go (ns_getCurrentNodesFromHSM ns) (\<lambda>currNodes.
     bind_go (gets nodeCache) (\<lambda>cache.
       let currNodesMap = index_by NodeName currNodes;
           newNodes = filter (\<lambda>n. \<not> has_key cache (NodeName n)) currNodes;
           removedNodes = filter (\<lambda>n. \<not> has_key currNodesMap (NodeName n)) (map_values cache);
           nodesToUpdate = (if updateAll then currNodes else newNodes)
       in bind_go (if length nodesToUpdate > 0 then ds_dataAddNodes ds nodesToUpdate else ret True)
            (\<lambda>updateSuccessful.
          then_go (if length removedNodes > 0 then ds_dataRemoveNodes ds removedNodes else ret ())
          (then_go (if updateSuccessful then modify (\<lambda>s. s\<lparr>nodeCache := currNodesMap\<rparr>) else ret ())
          (ret (updateSuccessful, newNodes))))))"

text \<open>The stretches of an update between its calls of other services, where another goroutine can run:
  the queries to HSM, the upload (after comparing with the cache), the removal, and the new cache.\<close>

definition begin_update :: "nodeService \<Rightarrow> nodeConsoleInfo list op" where
  "begin_update ns =
     bind_go (syscall TimeNow (\<lambda>e h. time_now e h)) (\<lambda>now.
     then_go (modify (\<lambda>s. s\<lparr>hardwareUpdateTime := now\<rparr>)) (ns_getCurrentNodesFromHSM ns))"

definition upload_nodes ::
    "dataService \<Rightarrow> bool \<Rightarrow> nodeConsoleInfo list \<Rightarrow> (bool \<times> nodeConsoleInfo list \<times> nodeConsoleInfo list) op" where
  "upload_nodes ds updateAll currNodes =
     bind_go (gets nodeCache) (\<lambda>cache.
       let newNodes = filter (\<lambda>n. \<not> has_key cache (NodeName n)) currNodes;
           removedNodes = filter (\<lambda>n. \<not> has_key (index_by NodeName currNodes) (NodeName n)) (map_values cache);
           nodesToUpdate = (if updateAll then currNodes else newNodes)
       in bind_go (if length nodesToUpdate > 0 then ds_dataAddNodes ds nodesToUpdate else ret True)
            (\<lambda>updateSuccessful. ret (updateSuccessful, newNodes, removedNodes)))"

definition remove_gone :: "dataService \<Rightarrow> nodeConsoleInfo list \<Rightarrow> unit op" where
  "remove_gone ds removedNodes =
     (if length removedNodes > 0 then ds_dataRemoveNodes ds removedNodes else ret ())"

definition store_cache :: "nodeConsoleInfo list \<Rightarrow> bool \<Rightarrow> unit op" where
  "store_cache currNodes updateSuccessful =
     (if updateSuccessful then modify (\<lambda>s. s\<lparr>nodeCache := index_by NodeName currNodes\<rparr>) else ret ())"

text \<open>The count over the cache: nodes of an unknown class are only logged.\<close>

definition count_node :: "nodeConsoleInfo \<Rightarrow> int \<times> int \<Rightarrow> int \<times> int" where
  "count_node v c = (case c of (numRvrNodes, numMtnNodes) \<Rightarrow>
     if isRiver v then (numRvrNodes + 1, numMtnNodes)
     else if isMountain v \<or> isParadise v then (numRvrNodes, numMtnNodes + 1)
     else (numRvrNodes, numMtnNodes))"

text \<open>What follows the cache update: sizing the pods, and the keys if there are Mountain nodes. The
  nodes to send on the channel come back with the status, because a send may block.\<close>

definition size_and_keys ::
    "nodeService \<Rightarrow> bool \<Rightarrow> nodeConsoleInfo list \<Rightarrow> (bool \<times> nodeConsoleInfo list) op" where
  "size_and_keys ns updateSuccessful newNodes =
     bind_go (gets nodeCache) (\<lambda>cache.
       let (numRvrNodes, numMtnNodes) = fold count_node (map_values cache) (0, 0)
       in then_go (ns_updateNodeCounts ns numMtnNodes numRvrNodes)
            (if numMtnNodes > 0 then
               then_go ensureMountainConsoleKeysExist
                 (ret (updateSuccessful, filter isMountain newNodes))
             else ret (updateSuccessful, [])))"

definition hardware_update_calls ::
    "dataService \<Rightarrow> nodeService \<Rightarrow> bool \<Rightarrow> (bool \<times> nodeConsoleInfo list) op" where
  "hardware_update_calls ds ns updateAll =
     bind_go (syscall TimeNow (\<lambda>e h. time_now e h)) (\<lambda>now.
     then_go (modify (\<lambda>s. s\<lparr>hardwareUpdateTime := now\<rparr>))
     (bind_go (updateCachedNodeData ds ns updateAll) (\<lambda>(updateSuccessful, newNodes).
      size_and_keys ns updateSuccessful newNodes)))"

text \<open>The channel has room for 100 nodes, and a send on a full channel waits for the key worker to
  receive. In this sequential reading the worker then receives the oldest node, and no more than
  that one; \<open>creds_taken\<close> records it. In the step relation of the running program a send needs
  room, and the worker's receives are steps of its own.\<close>

definition channel_capacity :: nat where
  "channel_capacity = 100"

definition send_one :: "nodeConsoleInfo \<Rightarrow> op_state \<Rightarrow> op_state" where
  "send_one n s =
     (let q = mountainCredsUpdateChannel s
      in if length q < channel_capacity then s\<lparr>mountainCredsUpdateChannel := q @ [n]\<rparr>
         else s\<lparr>mountainCredsUpdateChannel := drop 1 q @ [n], creds_taken := creds_taken s @ take 1 q\<rparr>)"

definition send_creds :: "nodeConsoleInfo \<Rightarrow> unit op" where
  "send_creds n = modify (send_one n)"

definition doHardwareUpdate :: "dataService \<Rightarrow> nodeService \<Rightarrow> bool \<Rightarrow> bool op" where
  "doHardwareUpdate ds ns updateAll =
     bind_go (hardware_update_calls ds ns updateAll) (\<lambda>(updateSuccessful, toSend).
       then_go (for_range toSend () (\<lambda>n _. send_creds n)) (ret updateSuccessful))"

text \<open>Without interference the stretches add up to the functions.\<close>

lemma update_phases:
  "updateCachedNodeData ds ns updateAll =
     bind_go (ns_getCurrentNodesFromHSM ns) (\<lambda>currNodes.
     bind_go (upload_nodes ds updateAll currNodes) (\<lambda>(updateSuccessful, newNodes, removedNodes).
     then_go (remove_gone ds removedNodes)
     (then_go (store_cache currNodes updateSuccessful) (ret (updateSuccessful, newNodes)))))"
  by (simp only: updateCachedNodeData_def upload_nodes_def remove_gone_def store_cache_def then_go_def bind_go_assoc bind_ret
      Let_def prod.case)

lemma calls_phases:
  "hardware_update_calls ds ns updateAll =
     bind_go (begin_update ns) (\<lambda>currNodes.
     bind_go (upload_nodes ds updateAll currNodes) (\<lambda>(updateSuccessful, newNodes, removedNodes).
     then_go (remove_gone ds removedNodes)
     (then_go (store_cache currNodes updateSuccessful)
       (size_and_keys ns updateSuccessful newNodes))))"
  by (simp add: hardware_update_calls_def update_phases begin_update_def then_go_def bind_go_assoc split_def)

section \<open>The loop\<close>

definition next_force :: "bool \<Rightarrow> int \<Rightarrow> int" where
  "next_force updateSuccessful forceUpdateCnt =
     (let cnt = forceUpdateCnt - 1;
          cnt = (if cnt < 0 then 10 else cnt)
      in if \<not> updateSuccessful then 0 else cnt)"

definition hardware_round :: "dataService \<Rightarrow> nodeService \<Rightarrow> int \<Rightarrow> int op" where
  "hardware_round ds ns forceUpdateCnt =
     bind_go (gets inShutdown) (\<lambda>stopped.
     bind_go (if \<not> stopped then
                bind_go (doHardwareUpdate ds ns (forceUpdateCnt = 0)) (\<lambda>updateSuccessful.
                  ret (next_force updateSuccessful forceUpdateCnt))
              else ret forceUpdateCnt) (\<lambda>cnt.
     bind_go (gets newHardwareCheckPeriodSec) (\<lambda>period.
     then_go (syscall (TimeSleep period) (\<lambda>e h. ())) (ret cnt))))"

primrec watch_rounds :: "nat \<Rightarrow> dataService \<Rightarrow> nodeService \<Rightarrow> int \<Rightarrow> int op" where
  "watch_rounds 0 ds ns cnt = ret cnt"
| "watch_rounds (Suc k) ds ns cnt = bind_go (hardware_round ds ns cnt) (watch_rounds k ds ns)"

definition watchHardware :: "nat \<Rightarrow> dataService \<Rightarrow> nodeService \<Rightarrow> int op" where
  "watchHardware k ds ns = watch_rounds k ds ns 0"

section \<open>Configuration\<close>

definition readSingleEnvVarInt :: "string \<Rightarrow> int \<Rightarrow> int \<Rightarrow> int \<Rightarrow> int op" where
  "readSingleEnvVarInt envVar outVar minVal maxVal =
     bind_go (ask_env (\<lambda>e. os_getenv e envVar)) (\<lambda>v.
       if v \<noteq> '''' then
         (case Atoi v of
            None \<Rightarrow> ret outVar
          | Some vi \<Rightarrow>
              (let vi = (if vi < minVal then minVal else vi);
                   vi = (if vi > maxVal then maxVal else vi)
               in ret vi))
       else ret outVar)"

section \<open>What an update does\<close>

text \<open>
  The cache against console-data: the inventory never has a name the cache lacks, and unless a
  full update is due it has exactly the names of the cache.
\<close>

definition synced :: "(env \<Rightarrow> history \<Rightarrow> inventory) \<Rightarrow> env \<Rightarrow> int \<Rightarrow> op_state \<Rightarrow> bool" where
  "synced iv e cnt s \<longleftrightarrow>
     keyed_by NodeName (nodeCache s) \<and>
     dom (iv e (trace s)) \<subseteq> set (map_keys (nodeCache s)) \<and>
     (cnt \<noteq> 0 \<longrightarrow> dom (iv e (trace s)) = set (map_keys (nodeCache s)))"

lemma gone_names:
  assumes "keyed_by NodeName m"
  shows "NodeName ` set (filter (\<lambda>n. NodeName n \<notin> N) (map_values m)) = set (map_keys m) - N"
proof -
  have "NodeName ` set (filter (\<lambda>n. NodeName n \<notin> N) (map_values m)) =
      NodeName ` set (map_values m) - N" by auto
  then show ?thesis by (simp only: keyed_by_values [OF assms])
qed

text \<open>The cache and the suspension flag are the same and no inventory request was made in between.\<close>

definition same_cache :: "op_state \<Rightarrow> op_state \<Rightarrow> bool" where
  "same_cache s t \<longleftrightarrow>
     nodeCache t = nodeCache s \<and> inShutdown t = inShutdown s \<and> emits no_inventory s t"

lemma same_cache_keys: "preserves (same_cache s0) ensureMountainConsoleKeysExist"
proof (rule preservesI)
  fix e s
  assume s: "same_cache s0 s"
  obtain a evs where run: "ensureMountainConsoleKeysExist e s = (Ok a, s\<lparr>trace := trace s @ evs\<rparr>)"
    using only_calls_ensureKeys by (rule only_callsE)
  have "emits no_inventory s0 (snd (ensureMountainConsoleKeysExist e s))"
    by (rule preservesD [OF emits_ensureKeys]) (use s in \<open>simp add: same_cache_def\<close>)
  with run s show "same_cache s0 (snd (ensureMountainConsoleKeysExist e s))"
    by (simp add: same_cache_def)
qed

text \<open>The sends of an update.\<close>

lemma send_loop_run: "for_range xs () (\<lambda>n _. send_creds n) e s = (Ok (), fold send_one xs s)"
  by (induction xs arbitrary: s) (simp_all add: bind_go_run send_creds_def)

lemma send_one_frame [simp]:
  "nodeCache (send_one n s) = nodeCache s" "inShutdown (send_one n s) = inShutdown s"
  "trace (send_one n s) = trace s" "newHardwareCheckPeriodSec (send_one n s) = newHardwareCheckPeriodSec s"
  "maxMtnNodesPerPod (send_one n s) = maxMtnNodesPerPod s" "maxRvrNodesPerPod (send_one n s) = maxRvrNodesPerPod s"
  by (simp_all add: send_one_def Let_def)

lemma send_frame_all [simp]:
  "nodeCache (fold send_one xs s) = nodeCache s" "inShutdown (fold send_one xs s) = inShutdown s"
  "trace (fold send_one xs s) = trace s"
  "newHardwareCheckPeriodSec (fold send_one xs s) = newHardwareCheckPeriodSec s"
  "maxMtnNodesPerPod (fold send_one xs s) = maxMtnNodesPerPod s"
  "maxRvrNodesPerPod (fold send_one xs s) = maxRvrNodesPerPod s"
  by (induction xs arbitrary: s) simp_all




definition is_mtn_like :: "nodeConsoleInfo \<Rightarrow> bool" where
  "is_mtn_like n \<longleftrightarrow> \<not> isRiver n \<and> (isMountain n \<or> isParadise n)"

lemma count_fold:
  "fold count_node ns (0, 0) = (int (length (filter isRiver ns)), int (length (filter is_mtn_like ns)))"
proof -
  have "fold count_node ns (r, m) =
      (r + int (length (filter isRiver ns)), m + int (length (filter is_mtn_like ns)))" for r m
    by (induction ns arbitrary: r m) (auto simp: count_node_def is_mtn_like_def)
  then show ?thesis by simp
qed

text \<open>The bodies an update sends to console-data: one list of all nodes read or of the new ones, none if
  it is empty.\<close>

definition uploads :: "bool \<Rightarrow> (string, nodeConsoleInfo) gomap \<Rightarrow> nodeConsoleInfo list \<Rightarrow> payload option list" where
  "uploads full cache nodes =
     (let upd = (if full then nodes else filter (\<lambda>n. \<not> has_key cache (NodeName n)) nodes)
      in if upd = [] then [] else [Some (marshal_nodes upd)])"

lemma store_cache_run:
  "store_cache nodes ok e s = (Ok (), s\<lparr>nodeCache := (if ok then index_by NodeName nodes else nodeCache s)\<rparr>)"
  by (simp add: store_cache_def)

text \<open>Client lemmas over the contracts of the two services.\<close>

locale hardware_watcher = node_service ns + data_service ds iv
  for ns :: nodeService and ds :: dataService and iv :: "env \<Rightarrow> history \<Rightarrow> inventory"
begin

text \<open>The two calls to console-data, each made only when there is something to send.\<close>

lemma add_phase:
  "\<exists>ok evs. (if length upd > 0 then ds_dataAddNodes ds upd else ret True) e u =
      (Ok ok, u\<lparr>trace := trace u @ evs\<rparr>) \<and>
    iv e (trace u @ evs) = iv e (trace u) ++ (if ok then docs_of upd else Map.empty) \<and>
    (upd = [] \<or> puts_accepted e \<longrightarrow> ok)"
proof (cases "upd = []")
  case True
  then show ?thesis
    by (intro exI [of _ True] exI [of _ "[]"]) (simp add: docs_of_def index_by_def)
next
  case False
  obtain ok evs where "ds_dataAddNodes ds upd e u = (Ok ok, u\<lparr>trace := trace u @ evs\<rparr>)"
    and "iv e (trace u @ evs) = (if ok then iv e (trace u) ++ docs_of upd else iv e (trace u))"
    and "puts_accepted e \<longrightarrow> ok"
    using add_nodes by blast
  with False show ?thesis by (intro exI [of _ ok] exI [of _ evs]) simp
qed

lemma remove_phase:
  "\<exists>removed evs. remove_gone ds gone e v =
      (Ok (), v\<lparr>trace := trace v @ evs\<rparr>) \<and>
    iv e (trace v @ evs) = iv e (trace v) |` (if removed then - NodeName ` set gone else UNIV) \<and>
    (deletes_accepted e \<longrightarrow> removed)"
proof (cases "gone = []")
  case True
  then show ?thesis
    by (intro exI [of _ True] exI [of _ "[]"]) (simp add: remove_gone_def restrict_map_def)
next
  case False
  obtain removed evs where "ds_dataRemoveNodes ds gone e v = (Ok (), v\<lparr>trace := trace v @ evs\<rparr>)"
    and "iv e (trace v @ evs) =
      (if removed then iv e (trace v) |` (- NodeName ` set gone) else iv e (trace v))"
    and "deletes_accepted e \<longrightarrow> removed"
    using remove_nodes by blast
  with False show ?thesis
    by (intro exI [of _ removed] exI [of _ evs]) (simp add: remove_gone_def restrict_map_def)
qed

text \<open>The upload makes at most one request, the removal is seen in the ghost inventory when it was accepted.\<close>

lemma upload_run:
  assumes "new = filter (\<lambda>n. \<not> has_key (nodeCache s) (NodeName n)) nodes"
    and "gone = filter (\<lambda>n. NodeName n \<notin> NodeName ` set nodes) (map_values (nodeCache s))"
    and "upd = (if updateAll then nodes else new)"
  shows "\<exists>ok evs. upload_nodes ds updateAll nodes e s = (Ok (ok, new, gone), s\<lparr>trace := trace s @ evs\<rparr>) \<and>
    iv e (trace s @ evs) = iv e (trace s) ++ (if ok then docs_of upd else Map.empty) \<and>
    (upd = [] \<or> puts_accepted e \<longrightarrow> ok)"
proof -
  obtain ok evs where add: "(if length upd > 0 then ds_dataAddNodes ds upd else ret True) e s =
      (Ok ok, s\<lparr>trace := trace s @ evs\<rparr>)"
    and "iv e (trace s @ evs) = iv e (trace s) ++ (if ok then docs_of upd else Map.empty)"
    and "upd = [] \<or> puts_accepted e \<longrightarrow> ok"
    using add_phase by blast
  moreover have "(\<lambda>n. \<not> has_key (index_by NodeName nodes) (NodeName n)) =
      (\<lambda>n :: nodeConsoleInfo. NodeName n \<notin> NodeName ` set nodes)" by simp
  then have "upload_nodes ds updateAll nodes e s =
      bind_go (if length upd > 0 then ds_dataAddNodes ds upd else ret True) (\<lambda>ok. ret (ok, new, gone)) e s"
    by (simp only: upload_nodes_def bind_gets Let_def assms)
  then have "upload_nodes ds updateAll nodes e s = (Ok (ok, new, gone), s\<lparr>trace := trace s @ evs\<rparr>)"
    by (simp only: bind_go_run add prod.case outcome.case ret_run)
  ultimately show ?thesis by blast
qed


text \<open>The result and the final state of an update, given the nodes that were read.\<close>

lemma update_run:
  assumes "ns_getCurrentNodesFromHSM ns e s = (Ok nodes, u)"
    and "new = filter (\<lambda>n. \<not> has_key (nodeCache s) (NodeName n)) nodes"
    and "gone = filter (\<lambda>n. NodeName n \<notin> NodeName ` set nodes) (map_values (nodeCache s))"
    and "upd = (if updateAll then nodes else new)"
  shows "\<exists>ok evs removed. updateCachedNodeData ds ns updateAll e s =
      (Ok (ok, new), s\<lparr>nodeCache := (if ok then index_by NodeName nodes else nodeCache s),
         trace := trace s @ evs\<rparr>) \<and>
    (upd = [] \<or> puts_accepted e \<longrightarrow> ok) \<and> (deletes_accepted e \<longrightarrow> removed) \<and>
    iv e (trace s @ evs) =
      (iv e (trace s) ++ (if ok then docs_of upd else Map.empty)) |`
        (if removed then - NodeName ` set gone else UNIV)"
proof -
  obtain evs0 where u: "u = s\<lparr>trace := trace s @ evs0\<rparr>"
    using getCurrentNodes_frame [of e s] assms(1) by auto
  then have cache: "nodeCache u = nodeCache s" by simp
  have "emits read_only s u"
    using getCurrentNodes_reads [of s] assms(1) by (metis emits_refl preservesD snd_conv)
  then have iv0: "iv e (trace u) = iv e (trace s)"
    by (rule inv_emits [OF emits_mono]) (rule read_only_no_inventory)
  obtain ok evs1 where up: "upload_nodes ds updateAll nodes e u = (Ok (ok, new, gone), u\<lparr>trace := trace u @ evs1\<rparr>)"
    and iv1: "iv e (trace u @ evs1) = iv e (trace u) ++ (if ok then docs_of upd else Map.empty)"
    and nil: "upd = [] \<or> puts_accepted e \<longrightarrow> ok"
    using upload_run [OF assms(2-4) [folded cache]] by blast
  let ?v = "u\<lparr>trace := trace u @ evs1\<rparr>"
  obtain removed evs2 where rem: "remove_gone ds gone e ?v = (Ok (), ?v\<lparr>trace := trace ?v @ evs2\<rparr>)"
    and iv2: "iv e (trace ?v @ evs2) = iv e (trace ?v) |` (if removed then - NodeName ` set gone else UNIV)"
    and acc: "deletes_accepted e \<longrightarrow> removed"
    using remove_phase by blast
  let ?w = "?v\<lparr>trace := trace ?v @ evs2\<rparr>"
  have "updateCachedNodeData ds ns updateAll e s =
      (Ok (ok, new), ?w\<lparr>nodeCache := (if ok then index_by NodeName nodes else nodeCache ?w)\<rparr>)"
    by (simp only: update_phases bind_go_run then_go_run assms(1) up rem store_cache_run prod.case outcome.case ret_run)
  also have "\<dots> = (Ok (ok, new), s\<lparr>nodeCache := (if ok then index_by NodeName nodes else nodeCache s),
         trace := trace s @ evs0 @ evs1 @ evs2\<rparr>)"
    by (cases s) (simp add: u)
  finally have "updateCachedNodeData ds ns updateAll e s =
      (Ok (ok, new), s\<lparr>nodeCache := (if ok then index_by NodeName nodes else nodeCache s),
         trace := trace s @ evs0 @ evs1 @ evs2\<rparr>)" .
  moreover have "iv e (trace s @ evs0 @ evs1 @ evs2) =
      (iv e (trace s) ++ (if ok then docs_of upd else Map.empty)) |`
        (if removed then - NodeName ` set gone else UNIV)"
    using iv0 iv1 iv2 u by simp
  ultimately show ?thesis using nil acc by blast
qed

lemma update_cache:
  assumes "ns_getCurrentNodesFromHSM ns e s = (Ok nodes, u)"
    and "updateCachedNodeData ds ns updateAll e s = (Ok (ok, new), t)"
  shows "nodeCache t = (if ok then index_by NodeName nodes else nodeCache s)"
    and "new = filter (\<lambda>n. \<not> has_key (nodeCache s) (NodeName n)) nodes"
    and "\<exists>h. t = s\<lparr>nodeCache := nodeCache t, trace := h\<rparr>"
proof -
  obtain ok' evs where "updateCachedNodeData ds ns updateAll e s =
      (Ok (ok', filter (\<lambda>n. \<not> has_key (nodeCache s) (NodeName n)) nodes),
       s\<lparr>nodeCache := (if ok' then index_by NodeName nodes else nodeCache s), trace := trace s @ evs\<rparr>)"
    using update_run [OF assms(1) refl refl refl, of updateAll] by blast
  with assms(2) have "ok' = ok"
    and t: "t = s\<lparr>nodeCache := (if ok then index_by NodeName nodes else nodeCache s), trace := trace s @ evs\<rparr>"
    and new: "new = filter (\<lambda>n. \<not> has_key (nodeCache s) (NodeName n)) nodes"
    by auto
  from t show c: "nodeCache t = (if ok then index_by NodeName nodes else nodeCache s)" by simp
  from t show "\<exists>h. t = s\<lparr>nodeCache := nodeCache t, trace := h\<rparr>"
    unfolding c by (intro exI [of _ "trace s @ evs"]) simp
  from new show "new = filter (\<lambda>n. \<not> has_key (nodeCache s) (NodeName n)) nodes" .
qed

lemma update_succeeds:
  assumes "ns_getCurrentNodesFromHSM ns e s = (Ok nodes, u)" and "nodes = [] \<or> puts_accepted e"
  shows "\<exists>new t. updateCachedNodeData ds ns updateAll e s = (Ok (True, new), t)"
proof -
  obtain ok new t where "updateCachedNodeData ds ns updateAll e s = (Ok (ok, new), t)"
    and "(if updateAll then nodes else filter (\<lambda>n. \<not> has_key (nodeCache s) (NodeName n)) nodes) = [] \<or>
      puts_accepted e \<longrightarrow> ok"
    using update_run [OF assms(1) refl refl refl, of updateAll] by blast
  moreover from this assms(2) have ok by (auto split: if_splits)
  ultimately show ?thesis by auto
qed

text \<open>An update moves from one synced state to the next, and a successful one reaches the inventory read.\<close>

lemma update_sync:
  assumes "deletes_accepted e" and "synced iv e cnt s"
    and "ns_getCurrentNodesFromHSM ns e s = (Ok nodes, u)"
    and "updateCachedNodeData ds ns (cnt = 0) e s = (Ok (ok, new), t)"
  shows "keyed_by NodeName (nodeCache t)" and "dom (iv e (trace t)) \<subseteq> set (map_keys (nodeCache t))"
    and "ok \<Longrightarrow> dom (iv e (trace t)) = set (map_keys (nodeCache t))"
    and "ok \<Longrightarrow> dom (iv e (trace t)) = NodeName ` set nodes"
    and "ok \<Longrightarrow> cnt = 0 \<Longrightarrow> iv e (trace t) = docs_of nodes"
proof -
  let ?C = "set (map_keys (nodeCache s))" and ?N = "NodeName ` set nodes"
  let ?new = "filter (\<lambda>n. \<not> has_key (nodeCache s) (NodeName n)) nodes"
  let ?upd = "if cnt = 0 then nodes else ?new"
  let ?gone = "filter (\<lambda>n. NodeName n \<notin> ?N) (map_values (nodeCache s))"
  have keyed: "keyed_by NodeName (nodeCache s)" and sub: "dom (iv e (trace s)) \<subseteq> ?C"
    and eq: "cnt \<noteq> 0 \<Longrightarrow> dom (iv e (trace s)) = ?C"
    using assms(2) by (auto simp: synced_def)
  have names: "NodeName ` set ?gone = ?C - ?N" by (rule gone_names [OF keyed])
  have new: "NodeName ` set ?new = ?N - ?C" by (auto simp: has_key_iff)
  have t: "t = s\<lparr>nodeCache := (if ok then index_by NodeName nodes else nodeCache s), trace := trace t\<rparr>"
    and iv: "iv e (trace t) = (iv e (trace s) ++ (if ok then docs_of ?upd else Map.empty)) |` (- (?C - ?N))"
    using update_run [OF assms(3) refl refl refl, of "cnt = 0"] assms(1,4) names by auto
  have keys: "set (map_keys (index_by NodeName nodes)) = ?N"
    using has_key_index_by [of NodeName nodes] by (auto simp: has_key_iff)
  have cache: "nodeCache t = (if ok then index_by NodeName nodes else nodeCache s)"
    by (subst t) simp
  show "keyed_by NodeName (nodeCache t)" using cache keyed by simp
  have upd: "NodeName ` set ?upd = (if cnt = 0 then ?N else ?N - ?C)" using new by simp
  have dom: "dom (iv e (trace t)) = ?N" if ok
    using that sub eq upd by (auto simp: iv)
  show "ok \<Longrightarrow> dom (iv e (trace t)) = ?N" by (rule dom)
  show "ok \<Longrightarrow> dom (iv e (trace t)) = set (map_keys (nodeCache t))" using dom keys cache by simp
  show "dom (iv e (trace t)) \<subseteq> set (map_keys (nodeCache t))"
    using dom keys cache sub by (cases ok) (auto simp: iv)
  show "iv e (trace t) = docs_of nodes" if ok "cnt = 0"
  proof
    fix k
    show "iv e (trace t) k = docs_of nodes k"
    proof (cases "k \<in> ?N")
      case True
      then have "k \<in> dom (docs_of nodes)" by simp
      then obtain d where "docs_of nodes k = Some d" by blast
      with that True show ?thesis by (simp add: iv map_add_def restrict_map_def)
    next
      case False
      with dom that(1) have "k \<notin> dom (iv e (trace t))" and "k \<notin> dom (docs_of nodes)" by simp_all
      then show ?thesis by (simp add: domIff del: dom_docs_of)
    qed
  qed
qed

text \<open>What follows the cache update changes neither the cache nor the inventory.\<close>

lemma quiet_counts: "preserves (same_cache s0) (ns_updateNodeCounts ns mtn rvr)"
proof (rule preservesI)
  fix e s
  assume "same_cache s0 s"
  moreover have "sizing_only s (snd (ns_updateNodeCounts ns mtn rvr e s))"
    by (rule updateNodeCounts_frame)
  moreover have "emits no_inventory s (snd (ns_updateNodeCounts ns mtn rvr e s))"
    using emits_weaken [OF updateNodeCounts_reads read_only_no_inventory]
    by (rule preservesD) simp_all
  ultimately show "same_cache s0 (snd (ns_updateNodeCounts ns mtn rvr e s))"
    by (auto simp: same_cache_def sizing_only_def intro: emits_trans)
qed

lemma size_and_keys_ok:
  assumes "size_and_keys ns ok new e s = (Ok (ok', toSend), t)"
  shows "same_cache s t" and "mountainCredsUpdateChannel t = mountainCredsUpdateChannel s" and "ok' = ok"
    and "toSend = (if list_ex is_mtn_like (map_values (nodeCache s)) then filter isMountain new else [])"
    and "sizing_only s t"
proof -
  let ?m = "int (length (filter is_mtn_like (map_values (nodeCache s))))"
  let ?r = "int (length (filter isRiver (map_values (nodeCache s))))"
  let ?frame = "\<lambda>t. same_cache s t \<and> sizing_only s t"
  have "then_go (ns_updateNodeCounts ns ?m ?r)
      (if ?m > 0 then then_go ensureMountainConsoleKeysExist (ret (ok, filter isMountain new))
       else ret (ok, [])) e s = (Ok (ok', toSend), t)"
    using assms by (simp only: size_and_keys_def bind_gets count_fold Let_def prod.case)
  then obtain v where v: "ns_updateNodeCounts ns ?m ?r e s = (Ok (), v)"
    and rest: "(if ?m > 0 then then_go ensureMountainConsoleKeysExist (ret (ok, filter isMountain new))
       else ret (ok, [])) e v = (Ok (ok', toSend), t)"
    unfolding then_go_def by (rule bind_OkE) simp
  have "same_cache s v"
    using preservesD [OF quiet_counts, of s s ?m ?r e] v by (simp add: same_cache_def)
  moreover have "sizing_only s v" using updateNodeCounts_frame [of s ?m ?r e] v by simp
  ultimately have fv: "?frame v" by blast
  obtain b evs where keys: "ensureMountainConsoleKeysExist e v = (Ok b, v\<lparr>trace := trace v @ evs\<rparr>)"
    using only_calls_ensureKeys by (rule only_callsE)
  have "same_cache v (v\<lparr>trace := trace v @ evs\<rparr>)"
    using preservesD [OF same_cache_keys, of v v e] keys by (simp add: same_cache_def)
  then have fk: "?frame (v\<lparr>trace := trace v @ evs\<rparr>)"
    using fv by (auto simp: same_cache_def sizing_only_def intro: emits_trans)
  have pos: "?m > 0 \<longleftrightarrow> list_ex is_mtn_like (map_values (nodeCache s))"
    by (auto simp: list_ex_iff filter_empty_conv)
  have "?frame t \<and> ok' = ok \<and>
      toSend = (if list_ex is_mtn_like (map_values (nodeCache s)) then filter isMountain new else [])"
    using rest fv fk keys pos by (cases "?m > 0") (auto simp: then_go_run)
  then show "same_cache s t" and "sizing_only s t" and "ok' = ok"
    and "mountainCredsUpdateChannel t = mountainCredsUpdateChannel s"
    and "toSend = (if list_ex is_mtn_like (map_values (nodeCache s)) then filter isMountain new else [])"
    by (simp_all add: sizing_only_def)
qed

lemma update_calls_ok:
  assumes "hardware_update_calls ds ns updateAll e s = (Ok (ok, toSend), t)"
  shows "\<exists>s0 u new. s0 = s\<lparr>hardwareUpdateTime := time_now e (trace s), trace := trace s @ [TimeNow]\<rparr> \<and>
    updateCachedNodeData ds ns updateAll e s0 = (Ok (ok, new), u) \<and>
    size_and_keys ns ok new e u = (Ok (ok, toSend), t)"
proof -
  let ?s0 = "s\<lparr>hardwareUpdateTime := time_now e (trace s), trace := trace s @ [TimeNow]\<rparr>"
  have s0: "s\<lparr>trace := trace s @ [TimeNow], hardwareUpdateTime := time_now e (trace s)\<rparr> = ?s0"
    by (cases s) simp
  have "bind_go (updateCachedNodeData ds ns updateAll) (\<lambda>(ok, new). size_and_keys ns ok new) e ?s0 =
      (Ok (ok, toSend), t)"
    using assms by (simp only: hardware_update_calls_def bind_syscall then_modify s0)
  then obtain r u where up: "updateCachedNodeData ds ns updateAll e ?s0 = (Ok r, u)"
    and rest: "(case r of (ok, new) \<Rightarrow> size_and_keys ns ok new) e u = (Ok (ok, toSend), t)"
    by (rule bind_OkE)
  obtain ok' new where r: "r = (ok', new)" by (cases r)
  with rest have "size_and_keys ns ok' new e u = (Ok (ok, toSend), t)" by simp
  moreover from this have "ok' = ok" using size_and_keys_ok(3) by blast
  ultimately show ?thesis using up r by blast
qed

text \<open>A round that ends normally is a cache update followed by steps that leave cache and inventory alone.\<close>

lemma round_ok:
  assumes "hardware_round ds ns cnt e s = (Ok cnt', t)" and "\<not> inShutdown s"
  shows "\<exists>s0 u ok new. same_cache s s0 \<and> updateCachedNodeData ds ns (cnt = 0) e s0 = (Ok (ok, new), u) \<and>
    same_cache u t \<and> cnt' = next_force ok cnt \<and>
    s0 = s\<lparr>hardwareUpdateTime := time_now e (trace s), trace := trace s @ [TimeNow]\<rparr>"
proof -
  from assms obtain ok v where up: "doHardwareUpdate ds ns (cnt = 0) e s = (Ok ok, v)"
    and cnt': "cnt' = next_force ok cnt"
    and t: "t = v\<lparr>trace := trace v @ [TimeSleep (newHardwareCheckPeriodSec v)]\<rparr>"
    by (auto simp: hardware_round_def bind_go_run split: prod.splits outcome.splits)
  from up obtain toSend w where calls: "hardware_update_calls ds ns (cnt = 0) e s = (Ok (ok, toSend), w)"
    and v: "same_cache w v"
    by (auto simp: doHardwareUpdate_def bind_go_run then_go_run send_loop_run same_cache_def emits_def
        split: prod.splits outcome.splits)
  let ?s0 = "s\<lparr>hardwareUpdateTime := time_now e (trace s), trace := trace s @ [TimeNow]\<rparr>"
  obtain u new where upd: "updateCachedNodeData ds ns (cnt = 0) e ?s0 = (Ok (ok, new), u)"
    and w: "same_cache u w"
    using update_calls_ok [OF calls] size_and_keys_ok(1) by blast
  have "same_cache u t"
    using w v unfolding same_cache_def t by (auto intro: emits_trans emits_more)
  moreover have "same_cache s ?s0" by (simp add: same_cache_def emits_def)
  ultimately show ?thesis using upd cnt' by blast
qed

lemma round_shutdown:
  assumes "hardware_round ds ns cnt e s = (Ok cnt', t)" and "inShutdown s"
  shows "same_cache s t \<and> cnt' = cnt"
  using assms by (auto simp: hardware_round_def same_cache_def emits_def)

lemma same_cache_inv: "same_cache s t \<Longrightarrow> nodeCache t = nodeCache s \<and> iv e (trace t) = iv e (trace s)"
  by (auto simp: same_cache_def inv_emits)

lemma round_sync:
  assumes "deletes_accepted e" and "synced iv e cnt s"
    and "hardware_round ds ns cnt e s = (Ok cnt', t)"
  shows "synced iv e cnt' t"
proof (cases "inShutdown s")
  case True
  with assms(3) round_shutdown same_cache_inv [of s t e] assms(2) show ?thesis
    by (auto simp: synced_def)
next
  case False
  obtain s0 u ok new where s0: "same_cache s s0"
    and upd: "updateCachedNodeData ds ns (cnt = 0) e s0 = (Ok (ok, new), u)"
    and t: "same_cache u t" and cnt': "cnt' = next_force ok cnt"
    using round_ok [OF assms(3) False] by blast
  obtain nodes x where nodes: "ns_getCurrentNodesFromHSM ns e s0 = (Ok nodes, x)"
    using upd unfolding updateCachedNodeData_def by (rule bind_OkE)
  have "synced iv e cnt s0" using assms(2) same_cache_inv [OF s0, of e] by (simp add: synced_def)
  note sync = update_sync [OF assms(1) this nodes upd]
  moreover have "ok" if "cnt' \<noteq> 0" using that by (cases ok) (simp_all add: cnt' next_force_def)
  ultimately show ?thesis using same_cache_inv [OF t, of e] by (auto simp: synced_def)
qed

lemma rounds_sync:
  assumes "deletes_accepted e" and "synced iv e cnt s" and "watch_rounds k ds ns cnt e s = (Ok cnt', t)"
  shows "synced iv e cnt' t"
  using assms(2,3)
proof (induction k arbitrary: cnt s)
  case 0
  then show ?case by simp
next
  case (Suc k)
  from Suc.prems(2) obtain c u where "hardware_round ds ns cnt e s = (Ok c, u)"
    and "watch_rounds k ds ns c e u = (Ok cnt', t)"
    unfolding watch_rounds.simps by (rule bind_OkE)
  then show ?case using Suc.IH round_sync [OF assms(1) Suc.prems(1)] by blast
qed

text \<open>Which documents a round uploads: at most one request, with all nodes read if a full update is due
  and with the new ones otherwise.\<close>

lemma add_phase_puts:
  assumes "puts_accepted e"
  shows "\<exists>ok evs. (if length upd > 0 then ds_dataAddNodes ds upd else ret True) e s = (Ok ok, s\<lparr>trace := trace s @ evs\<rparr>) \<and>
    puts_of evs = (if upd = [] then [] else [Some (marshal_nodes upd)])"
proof (cases "upd = []")
  case True
  then show ?thesis by (intro exI [of _ True] exI [of _ "[]"]) simp
next
  case False
  then show ?thesis using add_puts [OF assms, of upd s] by simp
qed

lemma upload_puts:
  assumes "puts_accepted e" and "upload_nodes ds updateAll nodes e s = (Ok (ok, new, gone), t)"
  shows "\<exists>evs. trace t = trace s @ evs \<and> puts_of evs = uploads updateAll (nodeCache s) nodes"
proof -
  let ?upd = "if updateAll then nodes else filter (\<lambda>n. \<not> has_key (nodeCache s) (NodeName n)) nodes"
  obtain ok' evs where add: "(if length ?upd > 0 then ds_dataAddNodes ds ?upd else ret True) e s =
      (Ok ok', s\<lparr>trace := trace s @ evs\<rparr>)" and puts: "puts_of evs = (if ?upd = [] then [] else [Some (marshal_nodes ?upd)])"
    using add_phase_puts [OF assms(1)] by blast
  let ?f = "\<lambda>ok. ret (ok, filter (\<lambda>n. \<not> has_key (nodeCache s) (NodeName n)) nodes,
      filter (\<lambda>n. \<not> has_key (index_by NodeName nodes) (NodeName n)) (map_values (nodeCache s)))"
  have "upload_nodes ds updateAll nodes e s =
      bind_go (if length ?upd > 0 then ds_dataAddNodes ds ?upd else ret True) ?f e s"
    by (simp only: upload_nodes_def bind_gets Let_def)
  with assms(2) have "t = s\<lparr>trace := trace s @ evs\<rparr>"
    by (simp only: bind_go_run add prod.case outcome.case ret_run prod.inject)
  with puts show ?thesis by (intro exI [of _ evs]) (simp add: uploads_def Let_def)
qed

lemma remove_gone_puts: "\<exists>evs. remove_gone ds gone e s = (Ok (), s\<lparr>trace := trace s @ evs\<rparr>) \<and> puts_of evs = []"
proof (cases "gone = []")
  case True
  then show ?thesis by (intro exI [of _ "[]"]) (simp add: remove_gone_def)
next
  case False
  then show ?thesis using remove_puts [of gone e s] by (simp add: remove_gone_def)
qed

lemma update_puts:
  assumes "puts_accepted e" and "ns_getCurrentNodesFromHSM ns e s = (Ok nodes, u)"
    and "updateCachedNodeData ds ns updateAll e s = (Ok (ok, new), t)"
  shows "\<exists>evs. trace t = trace s @ evs \<and> puts_of evs = uploads updateAll (nodeCache s) nodes"
proof -
  obtain evs0 where u: "u = s\<lparr>trace := trace s @ evs0\<rparr>"
    using getCurrentNodes_frame [of e s] assms(2) by auto
  have "emits read_only s u"
    using getCurrentNodes_reads [of s] assms(2) by (metis emits_refl preservesD snd_conv)
  then have "list_all no_inventory evs0"
    using u by (auto simp: emits_def list_all_iff intro: read_only_no_inventory)
  then have p0: "puts_of evs0 = []" by (rule puts_of_quiet)
  from assms(3) [unfolded update_phases bind_go_run assms(2) prod.case outcome.case]
  obtain ok1 new1 gone v where up: "upload_nodes ds updateAll nodes e u = (Ok (ok1, new1, gone), v)"
    and rest: "then_go (remove_gone ds gone) (then_go (store_cache nodes ok1) (ret (ok1, new1))) e v = (Ok (ok, new), t)"
    by (auto split: prod.splits outcome.splits)
  obtain evs1 where v: "trace v = trace u @ evs1" "puts_of evs1 = uploads updateAll (nodeCache u) nodes"
    using upload_puts [OF assms(1) up] by blast
  obtain evs2 where rem: "remove_gone ds gone e v = (Ok (), v\<lparr>trace := trace v @ evs2\<rparr>)" "puts_of evs2 = []"
    using remove_gone_puts by blast
  from rest have "trace t = trace v @ evs2"
    by (auto simp: then_go_run rem(1) store_cache_run)
  with u v p0 rem(2) show ?thesis by (intro exI [of _ "evs0 @ evs1 @ evs2"]) simp
qed

lemma round_puts:
  assumes "puts_accepted e" and "hardware_round ds ns cnt e s = (Ok cnt', t)" and "\<not> inShutdown s"
    and "ns_getCurrentNodesFromHSM ns e
      (s\<lparr>hardwareUpdateTime := time_now e (trace s), trace := trace s @ [TimeNow]\<rparr>) = (Ok nodes, u)"
  shows "\<exists>evs. trace t = trace s @ evs \<and> puts_of evs = uploads (cnt = 0) (nodeCache s) nodes"
proof -
  let ?s0 = "s\<lparr>hardwareUpdateTime := time_now e (trace s), trace := trace s @ [TimeNow]\<rparr>"
  obtain v ok new where up: "updateCachedNodeData ds ns (cnt = 0) e ?s0 = (Ok (ok, new), v)" and t: "same_cache v t"
    using round_ok [OF assms(2,3)] by blast
  obtain evs where v: "trace v = trace ?s0 @ evs" "puts_of evs = uploads (cnt = 0) (nodeCache ?s0) nodes"
    using update_puts [OF assms(1,4) up] by blast
  obtain evs' where "trace t = trace v @ evs'" and "list_all no_inventory evs'"
    using t by (auto simp: same_cache_def emits_def)
  with v puts_of_quiet [of evs'] show ?thesis by (intro exI [of _ "TimeNow # evs @ evs'"]) simp
qed

text \<open>A name the cache does not have stays in the inventory as long as HSM does not report it.\<close>

lemma update_orphan:
  assumes "keyed_by NodeName (nodeCache s)" and "k \<notin> set (map_keys (nodeCache s))"
    and "k \<in> dom (iv e (trace s))"
    and "ns_getCurrentNodesFromHSM ns e s = (Ok nodes, u)" and "k \<notin> NodeName ` set nodes"
    and "updateCachedNodeData ds ns updateAll e s = (Ok (ok, new), t)"
  shows "keyed_by NodeName (nodeCache t) \<and> k \<notin> set (map_keys (nodeCache t)) \<and> k \<in> dom (iv e (trace t))"
proof -
  let ?gone = "filter (\<lambda>n. NodeName n \<notin> NodeName ` set nodes) (map_values (nodeCache s))"
  let ?upd = "if updateAll then nodes else filter (\<lambda>n. \<not> has_key (nodeCache s) (NodeName n)) nodes"
  obtain ok' evs removed where run: "updateCachedNodeData ds ns updateAll e s =
      (Ok (ok', filter (\<lambda>n. \<not> has_key (nodeCache s) (NodeName n)) nodes),
       s\<lparr>nodeCache := (if ok' then index_by NodeName nodes else nodeCache s), trace := trace s @ evs\<rparr>)"
    and iv': "iv e (trace s @ evs) = (iv e (trace s) ++ (if ok' then docs_of ?upd else Map.empty)) |`
        (if removed then - NodeName ` set ?gone else UNIV)"
    using update_run [OF assms(4) refl refl refl, of updateAll] by blast
  have t: "t = s\<lparr>nodeCache := (if ok then index_by NodeName nodes else nodeCache s), trace := trace t\<rparr>"
    and iv: "iv e (trace t) = (iv e (trace s) ++ (if ok then docs_of ?upd else Map.empty)) |`
        (if removed then - NodeName ` set ?gone else UNIV)"
    using run iv' assms(6) by auto
  have "k \<notin> NodeName ` set ?gone" unfolding gone_names [OF assms(1)] using assms(2) by blast
  with assms(3) have "k \<in> dom (iv e (trace t))" unfolding iv by auto
  moreover have "nodeCache t = (if ok then index_by NodeName nodes else nodeCache s)" by (subst t) simp
  moreover have "k \<notin> set (map_keys (index_by NodeName nodes))"
    using assms(5) has_key_index_by [of NodeName nodes k] by (simp add: has_key_iff)
  ultimately show ?thesis using assms(1,2) by (cases ok) simp_all
qed

lemma rounds_orphan:
  assumes "\<forall>s nodes u. ns_getCurrentNodesFromHSM ns e s = (Ok nodes, u) \<longrightarrow> k \<notin> NodeName ` set nodes"
    and "keyed_by NodeName (nodeCache s)" and "k \<notin> set (map_keys (nodeCache s))"
    and "k \<in> dom (iv e (trace s))"
    and "watch_rounds j ds ns cnt e s = (Ok cnt', t)"
  shows "k \<notin> set (map_keys (nodeCache t)) \<and> k \<in> dom (iv e (trace t))"
  using assms(2-5)
proof (induction j arbitrary: cnt s)
  case 0
  then show ?case by simp
next
  case (Suc j)
  from Suc.prems(4) obtain c u where r: "hardware_round ds ns cnt e s = (Ok c, u)"
    and rest: "watch_rounds j ds ns c e u = (Ok cnt', t)"
    unfolding watch_rounds.simps by (rule bind_OkE)
  have "keyed_by NodeName (nodeCache u) \<and> k \<notin> set (map_keys (nodeCache u)) \<and> k \<in> dom (iv e (trace u))"
  proof (cases "inShutdown s")
    case True
    with r same_cache_inv [of s u e] Suc.prems show ?thesis using round_shutdown by auto
  next
    case False
    then obtain s0 x ok new where s0: "same_cache s s0"
      and up: "updateCachedNodeData ds ns (cnt = 0) e s0 = (Ok (ok, new), x)" and x: "same_cache x u"
      using round_ok [OF r] by blast
    obtain nodes y where nodes: "ns_getCurrentNodesFromHSM ns e s0 = (Ok nodes, y)"
      using up unfolding updateCachedNodeData_def by (rule bind_OkE)
    with assms(1) have "k \<notin> NodeName ` set nodes" by blast
    with update_orphan [OF _ _ _ nodes _ up] Suc.prems same_cache_inv [OF s0, of e] same_cache_inv [OF x, of e]
    show ?thesis by auto
  qed
  with Suc.IH rest show ?case by blast
qed

end

interpretation hw: hardware_watcher "NewNodeManager (K8Manager_service k8s)" "DataManager_service dm"
  "inventory_after inv0" for k8s dm inv0
  by unfold_locales

section \<open>A round ends normally on a healthy system\<close>

text \<open>What a healthy site is: Kubernetes and the target file work, and HSM never sends a node name that
  cannot be split.\<close>

definition site_healthy :: "k8Manager \<Rightarrow> env \<Rightarrow> bool" where
  "site_healthy k8s e \<longleftrightarrow> k8s_healthy k8s \<and> target_file_writable e \<and>
     (\<forall>h v. hsm_view e h = Some v \<longrightarrow> \<not> hsm_malformed v \<and> int (length (hsm_nodes v)) < 2 ^ 52)"

definition sane_config :: "op_state \<Rightarrow> bool" where
  "sane_config s \<longleftrightarrow> 1 \<le> maxMtnNodesPerPod s \<and> maxMtnNodesPerPod s < 2 ^ 53 \<and>
     1 \<le> maxRvrNodesPerPod s \<and> maxRvrNodesPerPod s < 2 ^ 53 \<and> int (length (nodeCache s)) < 2 ^ 52"

lemma healthy_nodes:
  assumes "site_healthy k8s e"
  shows "\<exists>nodes. getCurrentNodesFromHSM e s = (Ok nodes, s\<lparr>trace := trace s @ hsm_events e (trace s)\<rparr>) \<and>
    int (length nodes) < 2 ^ 52"
proof (cases "hsm_view e (trace s)")
  case None
  then show ?thesis by (simp add: getCurrentNodesFromHSM_run)
next
  case (Some v)
  with assms have "\<not> hsm_malformed v" and "int (length (hsm_nodes v)) < 2 ^ 52"
    unfolding site_healthy_def by blast+
  with Some show ?thesis by (simp add: getCurrentNodesFromHSM_run)
qed

lemma healthy_counts:
  assumes "site_healthy k8s e" and "sane_config s"
    and "fold count_node (map_values (nodeCache s)) (0, 0) = (rvr, mtn)"
  shows "\<exists>t. updateNodeCounts (K8Manager_service k8s) mtn rvr e s = (Ok (), t)"
proof (cases "mtn + rvr = 0")
  case True
  then show ?thesis by (simp add: updateNodeCounts_def)
next
  case False
  have "int (length (filter P (map_values (nodeCache s)))) < 2 ^ 52" for P
    using assms(2) length_filter_le [of P "map_values (nodeCache s)"]
    unfolding sane_config_def length_map by linarith
  then have "counts_in_range s mtn rvr"
    using assms(2,3) by (auto simp: counts_in_range_def sane_config_def count_fold)
  with assms(1) False show ?thesis
    using updateNodeCounts_healthy unfolding site_healthy_def by blast
qed

lemma length_index_by: "length (index_by key xs) \<le> length xs"
proof -
  have set: "length (map_set k v m) \<le> Suc (length m)" for k and v :: 'b and m :: "('a \<times> 'b) list"
    by (induction m) auto
  have "length (fold (\<lambda>x m. map_set (key x) x m) xs m) \<le> length m + length xs" for m
  proof (induction xs arbitrary: m)
    case (Cons x xs)
    have "length (fold (\<lambda>x m. map_set (key x) x m) xs (map_set (key x) x m)) \<le>
        length (map_set (key x) x m) + length xs"
      by (rule Cons.IH)
    then show ?case using set [of "key x" x m] by simp
  qed simp
  from this [of "[]"] show ?thesis by (simp add: index_by_def)
qed

lemma healthy_update:
  assumes "site_healthy k8s e" and "sane_config s"
  shows "\<exists>ok new t. updateCachedNodeData (DataManager_service dm) (NewNodeManager (K8Manager_service k8s))
      updateAll e s = (Ok (ok, new), t) \<and> sane_config t"
proof -
  let ?ns = "NewNodeManager (K8Manager_service k8s)"
  obtain nodes where nodes: "ns_getCurrentNodesFromHSM ?ns e s =
      (Ok nodes, s\<lparr>trace := trace s @ hsm_events e (trace s)\<rparr>)" and len: "int (length nodes) < 2 ^ 52"
    using healthy_nodes [OF assms(1), of s] by (auto simp: NewNodeManager_def)
  have "int (length (index_by NodeName nodes)) < 2 ^ 52"
    using length_index_by [of NodeName nodes] len by linarith
  then have "sane_config (s\<lparr>nodeCache := (if ok then index_by NodeName nodes else nodeCache s),
      trace := h\<rparr>)" for ok h
    using assms(2) by (simp add: sane_config_def)
  then show ?thesis using hw.update_run [OF nodes refl refl refl] by blast
qed

lemma sane_sizing: "sizing_only s t \<Longrightarrow> sane_config s \<Longrightarrow> sane_config t"
  by (simp add: sizing_only_def sane_config_def)

lemma sane_trace: "sane_config s \<Longrightarrow> sane_config (s\<lparr>trace := h\<rparr>)"
  by (simp add: sane_config_def)

lemma healthy_size:
  assumes "site_healthy k8s e" and "sane_config u"
  shows "\<exists>toSend t. size_and_keys (NewNodeManager (K8Manager_service k8s)) ok new e u = (Ok (ok, toSend), t) \<and>
    sane_config t"
proof -
  let ?ns = "NewNodeManager (K8Manager_service k8s)"
  obtain rvr mtn where c: "fold count_node (map_values (nodeCache u)) (0, 0) = (rvr, mtn)" by fastforce
  obtain v where v: "ns_updateNodeCounts ?ns mtn rvr e u = (Ok (), v)"
    using healthy_counts [OF assms c] by (auto simp: NewNodeManager_def)
  have "sizing_only u v" using k8m.updateNodeCounts_frame [of u k8s mtn rvr e] v by simp
  then have sane: "sane_config v" using assms(2) by (rule sane_sizing)
  obtain b evs where keys: "ensureMountainConsoleKeysExist e v = (Ok b, v\<lparr>trace := trace v @ evs\<rparr>)"
    using only_calls_ensureKeys by (rule only_callsE)
  show ?thesis
    using c v keys sane sane_trace [OF sane]
    by (cases "mtn > 0") (auto simp: size_and_keys_def then_go_run Let_def)
qed

lemma healthy_calls:
  assumes "site_healthy k8s e" and "sane_config s"
  shows "\<exists>ok toSend t. hardware_update_calls (DataManager_service dm) (NewNodeManager (K8Manager_service k8s))
      updateAll e s = (Ok (ok, toSend), t) \<and> sane_config t"
proof -
  let ?ds = "DataManager_service dm" and ?ns = "NewNodeManager (K8Manager_service k8s)"
  let ?s0 = "s\<lparr>trace := trace s @ [TimeNow], hardwareUpdateTime := time_now e (trace s)\<rparr>"
  have "sane_config ?s0" using assms(2) by (simp add: sane_config_def)
  then obtain ok new u where up: "updateCachedNodeData ?ds ?ns updateAll e ?s0 = (Ok (ok, new), u)"
    and u: "sane_config u"
    using healthy_update [OF assms(1)] by blast
  obtain toSend t where "size_and_keys ?ns ok new e u = (Ok (ok, toSend), t)" and "sane_config t"
    using healthy_size [OF assms(1) u] by blast
  with up show ?thesis
    by (simp add: hardware_update_calls_def bind_go_run [of "updateCachedNodeData ?ds ?ns updateAll"])
qed

lemma healthy_round:
  assumes "site_healthy k8s e" and "sane_config s"
  shows "\<exists>cnt' t. hardware_round (DataManager_service dm) (NewNodeManager (K8Manager_service k8s)) cnt e s =
      (Ok cnt', t) \<and> sane_config t"
proof (cases "inShutdown s")
  case True
  then show ?thesis using sane_trace [OF assms(2)] by (simp add: hardware_round_def)
next
  case False
  obtain ok toSend t where c: "hardware_update_calls (DataManager_service dm)
      (NewNodeManager (K8Manager_service k8s)) (cnt = 0) e s = (Ok (ok, toSend), t)" and "sane_config t"
    using healthy_calls [OF assms] by blast
  moreover from this have "sane_config (fold send_one toSend t\<lparr>trace := h\<rparr>)" for h
    by (simp add: sane_config_def)
  ultimately show ?thesis
    using False by (simp add: hardware_round_def doHardwareUpdate_def bind_go_run then_go_run send_loop_run)
qed

lemma healthy_rounds:
  assumes "site_healthy k8s e" and "sane_config s"
  shows "\<exists>cnt' t. watch_rounds k (DataManager_service dm) (NewNodeManager (K8Manager_service k8s)) cnt e s =
      (Ok cnt', t)"
  using assms(2)
proof (induction k arbitrary: cnt s)
  case 0
  then show ?case by simp
next
  case (Suc k)
  obtain c u where "hardware_round (DataManager_service dm) (NewNodeManager (K8Manager_service k8s)) cnt e s =
      (Ok c, u)" and "sane_config u"
    using healthy_round [OF assms(1) Suc.prems] by blast
  then show ?case using Suc.IH [of u c] by (simp add: bind_go_run)
qed

section \<open>Properties\<close>

text \<open>C9: Console-data follows the state manager. On a healthy site whose console-data accepts
  removals, from a state in which cache and inventory agree the hardware watcher runs for any
  number of rounds without a panic, and after each number of rounds console-data has no node
  that the cache lacks; whenever the next round is not a forced full update (that is, unless
  the last update failed) it has exactly the nodes of the cache. Updates that fail in between
  are allowed.\<close>

theorem watchHardware_in_sync:
  assumes "site_healthy k8s e" and "sane_config s" and "deletes_accepted e"
    and "keyed_by NodeName (nodeCache s)"
    and "dom (inventory_after iv e (trace s)) \<subseteq> set (map_keys (nodeCache s))"
  shows "\<exists>cnt t. watchHardware k (DataManager_service dm) (NewNodeManager (K8Manager_service k8s)) e s = (Ok cnt, t) \<and>
    keyed_by NodeName (nodeCache t) \<and>
    dom (inventory_after iv e (trace t)) \<subseteq> set (map_keys (nodeCache t)) \<and>
    (cnt \<noteq> 0 \<longrightarrow> dom (inventory_after iv e (trace t)) = set (map_keys (nodeCache t)))"
proof -
  obtain cnt t where r: "watchHardware k (DataManager_service dm) (NewNodeManager (K8Manager_service k8s)) e s = (Ok cnt, t)"
    using healthy_rounds [OF assms(1,2)] unfolding watchHardware_def by blast
  have "synced (inventory_after iv) e 0 s" using assms(4,5) by (simp add: synced_def)
  then have "synced (inventory_after iv) e cnt t"
    using hw.rounds_sync [OF assms(3)] r unfolding watchHardware_def by blast
  with r show ?thesis by (auto simp: synced_def)
qed

lemma inventory_URL_distinct [simp]:
  "inventory_URL \<noteq> rf_URL" "inventory_URL \<noteq> sc_URL" "inventory_URL \<noteq> hw_URL"
  by (simp_all add: inventory_URL_def dataAddrBase_def rf_URL_def sc_URL_def hw_URL_def)

lemma hsm_env_accepts: "req_url req = inventory_URL \<Longrightarrow> accepted (hsm_env rfs comps items) h req"
  by (simp add: accepted_def reply_def hsm_env_def quiet_env_def)

lemma hsm_env_deletes: "deletes_accepted (hsm_env rfs comps items)"
  by (simp add: deletes_accepted_def hsm_env_accepts)

lemma hsm_env_puts: "puts_accepted (hsm_env rfs comps items)"
  by (simp add: puts_accepted_def hsm_env_accepts)

lemma sample_view:
  "hsm_view (hsm_env sample_rfs sample_comps []) h = Some (sample_rfs, sample_comps, paradise_set [])"
proof -
  have "\<forall>sc \<in> set sample_comps. fits_int (sc_NID sc)" by (simp add: sample_comps_def fits_int_def)
  from hsm_view_docs [OF hsm_env_replies this] show ?thesis .
qed

lemma sample_healthy: "site_healthy (fixed_manager 3) (hsm_env sample_rfs sample_comps [])"
proof -
  have "\<not> hsm_malformed (sample_rfs, sample_comps, paradise_set [])"
    by (simp add: hsm_malformed_def sample_comps_def malformed_def)
  moreover have "length (List.map_filter f xs) \<le> length xs" for f :: "stateComponent \<Rightarrow> nodeConsoleInfo option" and xs
    by (induction xs) (auto simp: map_filter_simps split: option.split)
  then have "length (hsm_nodes (sample_rfs, sample_comps, paradise_set [])) \<le> length sample_comps"
    by (simp add: hsm_nodes_def)
  moreover have "length sample_comps = 3" by (simp add: sample_comps_def)
  moreover have "target_file_writable (hsm_env sample_rfs sample_comps [])"
    by (simp add: target_file_writable_def hsm_env_def quiet_env_def)
  ultimately show ?thesis by (simp add: site_healthy_def fixed_manager_healthy sample_view)
qed

lemma init_sane: "sane_config init_state"
  by (simp add: sane_config_def init_state_def)

definition sample_ds :: dataService where
  "sample_ds = DataManager_service
     (NewDataManager (K8Manager_service (fixed_manager 3)) (SlsManager_service NewSlsManager))"

theorem watchHardware_in_sync_witness:
  "\<exists>cnt t. watchHardware 25 sample_ds (NewNodeManager (K8Manager_service (fixed_manager 3)))
      (hsm_env sample_rfs sample_comps []) init_state = (Ok cnt, t) \<and>
    dom (inventory_after Map.empty (hsm_env sample_rfs sample_comps []) (trace t)) \<subseteq> set (map_keys (nodeCache t))"
proof -
  have "keyed_by NodeName (nodeCache init_state)"
    and "dom (inventory_after Map.empty (hsm_env sample_rfs sample_comps []) (trace init_state)) \<subseteq>
      set (map_keys (nodeCache init_state))"
    by (simp_all add: init_state_def inventory_after_def)
  from watchHardware_in_sync [OF sample_healthy init_sane hsm_env_deletes this] show ?thesis
    unfolding sample_ds_def by blast
qed

text \<open>C10: A forced update repairs everything. Assume that console-data accepts deletions (the code does
  not look at their result), and start from a state in which console-data has no node the cache
  lacks and, unless a full update is due, exactly the nodes of the cache. If a full update then
  succeeds, console-data holds exactly the documents of the nodes just read from HSM, attributes
  included; an ordinary successful update makes the names agree. The cache is the inventory
  read, by name.\<close>

theorem updateCachedNodeData_reaches_hsm:
  assumes "deletes_accepted e" and "synced (inventory_after iv) e cnt s"
    and "getCurrentNodesFromHSM e s = (Ok nodes, u)"
    and "updateCachedNodeData (DataManager_service dm) (NewNodeManager k8) (cnt = 0) e s = (Ok (True, new), t)"
    and "k8 = K8Manager_service k8s"
  shows "dom (inventory_after iv e (trace t)) = NodeName ` set nodes \<and>
    nodeCache t = index_by NodeName nodes \<and>
    (cnt = 0 \<longrightarrow> inventory_after iv e (trace t) = docs_of nodes)"
proof -
  have n: "ns_getCurrentNodesFromHSM (NewNodeManager (K8Manager_service k8s)) e s = (Ok nodes, u)"
    using assms(3) by (simp add: NewNodeManager_def)
  note sync = hw.update_sync [OF assms(1,2) n assms(4) [unfolded assms(5)]]
  have "nodeCache t = index_by NodeName nodes"
    using hw.update_cache(1) [OF n assms(4) [unfolded assms(5)]] by simp
  with sync(4,5) show ?thesis by blast
qed

definition outage_env :: env where
  "outage_env = quiet_env\<lparr>http_client_do := (\<lambda>h r.
     if req_url r = inventory_URL then Inr (200, Inr (Json (JObj []))) else Inl (TransportError ''no route''))\<rparr>"

lemma outage_facts:
  "deletes_accepted outage_env" "hsm_view outage_env h = None"
  by (simp_all add: deletes_accepted_def accepted_def reply_def outage_env_def quiet_env_def
      hsm_view_def parse_reply_def Let_def inventory_URL_distinct [symmetric])

text \<open>C38: A state manager outage empties the system. Assume that console-data accepts deletions and that
  it has no node the cache lacks (and exactly the nodes of the cache unless a full update is
  due). If the query for the Redfish endpoints or the one for the state components fails (a
  failing query for the Paradise hardware does not count), the update still counts as
  successful: console-data and the cache are empty afterwards, and no error is reported.\<close>

theorem hsm_outage_clears_inventory:
  assumes "hsm_view e (trace s) = None" and "deletes_accepted e"
    and "synced (inventory_after iv) e cnt s"
  shows "\<exists>t. updateCachedNodeData (DataManager_service dm) (NewNodeManager (K8Manager_service k8s))
        (cnt = 0) e s = (Ok (True, []), t) \<and>
    nodeCache t = [] \<and> inventory_after iv e (trace t) = Map.empty"
proof -
  let ?ds = "DataManager_service dm" and ?ns = "NewNodeManager (K8Manager_service k8s)"
  have n: "ns_getCurrentNodesFromHSM ?ns e s = (Ok [], s\<lparr>trace := trace s @ hsm_events e (trace s)\<rparr>)"
    using assms(1) by (simp add: NewNodeManager_def getCurrentNodesFromHSM_run)
  obtain new t where t: "updateCachedNodeData ?ds ?ns (cnt = 0) e s = (Ok (True, new), t)"
    using hw.update_succeeds [OF n] by blast
  have c: "nodeCache t = index_by NodeName []" and new: "new = []"
    using hw.update_cache [OF n t] by simp_all
  have "dom (inventory_after iv e (trace t)) = {}"
    using hw.update_sync(4) [OF assms(2,3) n t] by simp
  with t c new show ?thesis by (simp add: index_by_def)
qed

definition one_node_state :: op_state where
  "one_node_state = init_state\<lparr>nodeCache := index_by NodeName [mtn_node ''x1c0s0b0n0'' ''x1c0s0b0'']\<rparr>"

lemma one_node_synced:
  "synced (inventory_after (docs_of [mtn_node ''x1c0s0b0n0'' ''x1c0s0b0''])) e cnt one_node_state"
  unfolding synced_def one_node_state_def inventory_after_def
  by (simp add: init_state_def) (simp add: index_by_def)

theorem hsm_outage_clears_inventory_witness:
  "\<exists>t. updateCachedNodeData sample_ds (NewNodeManager (K8Manager_service (fixed_manager 3))) False
      outage_env one_node_state = (Ok (True, []), t) \<and> nodeCache t = [] \<and>
    inventory_after (docs_of [mtn_node ''x1c0s0b0n0'' ''x1c0s0b0'']) outage_env (trace t) = Map.empty"
  using hsm_outage_clears_inventory [OF outage_facts(2,1) one_node_synced, where cnt = 4]
  unfolding sample_ds_def by simp

lemma sample_nodes:
  "getCurrentNodesFromHSM (hsm_env sample_rfs sample_comps []) s =
     (Ok (hsm_nodes (sample_rfs, sample_comps, paradise_set [])),
      s\<lparr>trace := trace s @ hsm_events (hsm_env sample_rfs sample_comps []) (trace s)\<rparr>)"
proof -
  have "\<not> hsm_malformed (sample_rfs, sample_comps, paradise_set [])"
    by (simp add: hsm_malformed_def sample_comps_def malformed_def)
  then show ?thesis by (simp add: getCurrentNodesFromHSM_run sample_view)
qed

lemma sample_names:
  "NodeName ` set (hsm_nodes (sample_rfs, sample_comps, paradise_set [])) = {''x3000c0s17b1n0'', ''x1000c0s0b0n0''}"
  by (simp add: hsm_nodes_def sample_rfs_def sample_comps_def zero_rf_def map_filter_simps node_of_def bmc_of_def
      index_by_def paradise_set_def hsm_class_def has_key_def Let_def)

theorem updateCachedNodeData_reaches_hsm_witness:
  "\<exists>new t. updateCachedNodeData sample_ds (NewNodeManager (K8Manager_service (fixed_manager 3))) True
      (hsm_env sample_rfs sample_comps []) init_state = (Ok (True, new), t) \<and>
    dom (inventory_after Map.empty (hsm_env sample_rfs sample_comps []) (trace t)) =
      {''x3000c0s17b1n0'', ''x1000c0s0b0n0''}"
proof -
  let ?e = "hsm_env sample_rfs sample_comps []" and ?ns = "NewNodeManager (K8Manager_service (fixed_manager 3))"
  let ?N = "hsm_nodes (sample_rfs, sample_comps, paradise_set [])"
  let ?s = "init_state\<lparr>trace := trace init_state @ hsm_events ?e (trace init_state)\<rparr>"
  have sync: "synced (inventory_after Map.empty) ?e 0 init_state"
    by (simp add: synced_def init_state_def inventory_after_def)
  have n: "ns_getCurrentNodesFromHSM ?ns ?e init_state = (Ok ?N, ?s)"
    by (simp add: NewNodeManager_def sample_nodes)
  obtain new t where r: "updateCachedNodeData sample_ds ?ns True ?e init_state = (Ok (True, new), t)"
    using hw.update_succeeds [OF n] hsm_env_puts unfolding sample_ds_def by blast
  with updateCachedNodeData_reaches_hsm [OF hsm_env_deletes sync sample_nodes _ refl] sample_names
  show ?thesis unfolding sample_ds_def by fastforce
qed

text \<open>C37: Orphans stay. A node that console-data holds but the cache does not (because a removal was
  refused, since its result is not looked at, or because the node disappeared while the operator
  was not running) is never removed by the watcher: as long as HSM does not report the node, it
  is still in console-data after any number of rounds, whatever the services answer.\<close>

theorem watchHardware_orphans_stay:
  assumes "\<forall>s nodes u. getCurrentNodesFromHSM e s = (Ok nodes, u) \<longrightarrow> x \<notin> NodeName ` set nodes"
    and "keyed_by NodeName (nodeCache s)" and "x \<notin> set (map_keys (nodeCache s))"
    and "x \<in> dom (inventory_after iv e (trace s))"
    and "watchHardware k (DataManager_service dm) (NewNodeManager (K8Manager_service k8s)) e s = (Ok cnt, t)"
  shows "x \<in> dom (inventory_after iv e (trace t)) \<and> x \<notin> set (map_keys (nodeCache t))"
proof -
  have "\<forall>s nodes u. ns_getCurrentNodesFromHSM (NewNodeManager (K8Manager_service k8s)) e s = (Ok nodes, u) \<longrightarrow>
      x \<notin> NodeName ` set nodes"
    using assms(1) by (simp add: NewNodeManager_def)
  from hw.rounds_orphan [OF this assms(2-4) assms(5) [unfolded watchHardware_def]] show ?thesis by blast
qed

text \<open>The operator restarts on a site where a node has been taken out meanwhile.\<close>

theorem watchHardware_orphans_stay_witness:
  "\<exists>cnt t. watchHardware 12 sample_ds (NewNodeManager (K8Manager_service (fixed_manager 3)))
      (hsm_env sample_rfs sample_comps []) init_state = (Ok cnt, t) \<and>
    ''x1c0s0b0n0'' \<in> dom (inventory_after (docs_of [mtn_node ''x1c0s0b0n0'' ''x1c0s0b0''])
      (hsm_env sample_rfs sample_comps []) (trace t))"
proof -
  let ?e = "hsm_env sample_rfs sample_comps []" and ?x = "''x1c0s0b0n0''"
  let ?iv = "docs_of [mtn_node ''x1c0s0b0n0'' ''x1c0s0b0'']"
  have "?x \<notin> {''x3000c0s17b1n0'', ''x1000c0s0b0n0''}" by simp
  then have 1: "\<forall>s nodes u. getCurrentNodesFromHSM ?e s = (Ok nodes, u) \<longrightarrow> ?x \<notin> NodeName ` set nodes"
    by (simp only: sample_nodes prod.inject outcome.inject sample_names) (metis sample_names)
  have 2: "keyed_by NodeName (nodeCache init_state)" "?x \<notin> set (map_keys (nodeCache init_state))"
    by (simp_all add: init_state_def)
  have 3: "?x \<in> dom (inventory_after ?iv ?e (trace init_state))"
    unfolding inventory_after_def by (simp add: init_state_def mtn_node_def)
  obtain cnt t where r: "watchHardware 12 sample_ds (NewNodeManager (K8Manager_service (fixed_manager 3)))
      ?e init_state = (Ok cnt, t)"
    using healthy_rounds [OF sample_healthy init_sane] unfolding watchHardware_def sample_ds_def by blast
  from watchHardware_orphans_stay [OF 1 2 3 r [unfolded sample_ds_def]] r show ?thesis by blast
qed

text \<open>The counter in a run in which no update fails.\<close>

lemma healthy_round_ok:
  assumes "site_healthy k8s e" and "puts_accepted e" and "\<not> inShutdown s"
    and "hardware_round (DataManager_service dm) (NewNodeManager (K8Manager_service k8s)) cnt e s = (Ok cnt', t)"
  shows "cnt' = next_force True cnt \<and> \<not> inShutdown t"
proof -
  obtain s0 u ok new where s0: "same_cache s s0"
    and up: "updateCachedNodeData (DataManager_service dm) (NewNodeManager (K8Manager_service k8s))
      (cnt = 0) e s0 = (Ok (ok, new), u)"
    and t: "same_cache u t" and cnt': "cnt' = next_force ok cnt"
    using hw.round_ok [OF assms(4,3)] by blast
  obtain nodes x where n: "ns_getCurrentNodesFromHSM (NewNodeManager (K8Manager_service k8s)) e s0 = (Ok nodes, x)"
    using up unfolding updateCachedNodeData_def by (rule bind_OkE)
  have "\<exists>new t. updateCachedNodeData (DataManager_service dm) (NewNodeManager (K8Manager_service k8s))
      (cnt = 0) e s0 = (Ok (True, new), t)"
    by (rule hw.update_succeeds [OF n disjI2 [OF assms(2)]])
  with up have ok by auto
  moreover obtain h where "u = s0\<lparr>nodeCache := nodeCache u, trace := h\<rparr>"
    using hw.update_cache(3) [OF n up] by blast
  then have "inShutdown u = inShutdown s0" by (metis op_state.select_convs(14) op_state.update_convs(2,17) op_state.surjective)
  ultimately show ?thesis using cnt' s0 t assms(3) by (simp add: same_cache_def)
qed

lemma healthy_force:
  assumes "site_healthy k8s e" and "puts_accepted e" and "sane_config s" and "\<not> inShutdown s"
  shows "\<exists>t. watch_rounds k (DataManager_service dm) (NewNodeManager (K8Manager_service k8s)) cnt e s =
    (Ok ((next_force True ^^ k) cnt), t) \<and> sane_config t \<and> \<not> inShutdown t"
  using assms(3,4)
proof (induction k arbitrary: cnt s)
  case 0
  then show ?case by simp
next
  case (Suc k)
  obtain c u where r: "hardware_round (DataManager_service dm) (NewNodeManager (K8Manager_service k8s)) cnt e s =
      (Ok c, u)" and "sane_config u"
    using healthy_round [OF assms(1) Suc.prems(1)] by blast
  moreover have "c = next_force True cnt" and "\<not> inShutdown u"
    using healthy_round_ok [OF assms(1,2) Suc.prems(2) r] by blast+
  ultimately show ?case
    using Suc.IH [of u "next_force True cnt"] by (simp add: bind_go_run funpow_swap1)
qed

lemma force_count: "(next_force True ^^ k) 0 = (if k mod 11 = 0 then 0 else 11 - int (k mod 11))"
proof (induction k)
  case (Suc k)
  have "(next_force True ^^ Suc k) 0 = next_force True (if k mod 11 = 0 then 0 else 11 - int (k mod 11))"
    by (simp add: Suc)
  moreover have "k mod 11 < 11" by simp
  then have "next_force True (if k mod 11 = 0 then 0 else 11 - int (k mod 11)) =
      (if Suc k mod 11 = 0 then 0 else 11 - int (Suc k mod 11))"
    by (auto simp: next_force_def mod_Suc)
  ultimately show ?case by (rule trans)
qed simp

lemma watch_rounds_last:
  "watch_rounds (Suc k) ds ns cnt = bind_go (watch_rounds k ds ns cnt) (hardware_round ds ns)"
proof (induction k arbitrary: cnt)
  case 0
  have "watch_rounds 0 ds ns = ret" by (rule ext) simp
  then show ?case by (simp add: bind_go_def fun_eq_iff split: prod.split outcome.split)
next
  case (Suc k)
  have "watch_rounds (Suc (Suc k)) ds ns cnt = bind_go (hardware_round ds ns cnt) (watch_rounds (Suc k) ds ns)"
    by (simp only: watch_rounds.simps)
  also have "watch_rounds (Suc k) ds ns = (\<lambda>c. bind_go (watch_rounds k ds ns c) (hardware_round ds ns))"
    using Suc by (rule ext)
  finally show ?case by (simp add: bind_go_assoc)
qed

text \<open>C36: How often a full update is made. The comment says every 10 times. On a healthy site whose
  uploads are accepted, the round after \<open>k\<close> rounds sends console-data one request with all nodes
  that HSM reports exactly when \<open>k\<close> is a multiple of 11; in the ten rounds between, it sends only
  the nodes the cache lacks, and no request at all if there are none.\<close>

theorem watchHardware_force_period:
  assumes "site_healthy k8s e" and "puts_accepted e" and "sane_config s" and "\<not> inShutdown s"
  shows "\<exists>cnt t cnt' u nodes evs.
    watchHardware k (DataManager_service dm) (NewNodeManager (K8Manager_service k8s)) e s = (Ok cnt, t) \<and>
    watchHardware (Suc k) (DataManager_service dm) (NewNodeManager (K8Manager_service k8s)) e s = (Ok cnt', u) \<and>
    fst (getCurrentNodesFromHSM e (t\<lparr>hardwareUpdateTime := time_now e (trace t), trace := trace t @ [TimeNow]\<rparr>)) =
      Ok nodes \<and>
    trace u = trace t @ evs \<and>
    puts_of evs =
      (let upd = (if 11 dvd k then nodes else filter (\<lambda>n. \<not> has_key (nodeCache t) (NodeName n)) nodes)
       in if upd = [] then [] else [Some (marshal_nodes upd)])"
proof -
  let ?ds = "DataManager_service dm" and ?ns = "NewNodeManager (K8Manager_service k8s)"
  let ?c = "(next_force True ^^ k) 0"
  obtain t where t: "watchHardware k ?ds ?ns e s = (Ok ?c, t)" and sane: "sane_config t" and run: "\<not> inShutdown t"
    using healthy_force [OF assms] unfolding watchHardware_def by blast
  let ?t0 = "t\<lparr>hardwareUpdateTime := time_now e (trace t), trace := trace t @ [TimeNow]\<rparr>"
  obtain cnt' u where r: "hardware_round ?ds ?ns ?c e t = (Ok cnt', u)"
    using healthy_round [OF assms(1) sane] by blast
  obtain nodes where n: "getCurrentNodesFromHSM e ?t0 = (Ok nodes, ?t0\<lparr>trace := trace ?t0 @ hsm_events e (trace ?t0)\<rparr>)"
    using healthy_nodes [OF assms(1), of ?t0] by blast
  then have "ns_getCurrentNodesFromHSM ?ns e ?t0 = (Ok nodes, ?t0\<lparr>trace := trace ?t0 @ hsm_events e (trace ?t0)\<rparr>)"
    by (simp add: NewNodeManager_def)
  then obtain evs where "trace u = trace t @ evs" and puts: "puts_of evs = uploads (?c = 0) (nodeCache t) nodes"
    using hw.round_puts [OF assms(2) r run] by blast
  moreover have "?c = 0 \<longleftrightarrow> 11 dvd k"
    by (auto simp: force_count dvd_eq_mod_eq_0)
  moreover have "watchHardware (Suc k) ?ds ?ns e s = (Ok cnt', u)"
    using t r unfolding watchHardware_def watch_rounds_last by (simp add: bind_go_run)
  ultimately show ?thesis
    using t n
    by (intro exI [of _ ?c] exI [of _ t] exI [of _ cnt'] exI [of _ u] exI [of _ nodes] exI [of _ evs])
      (simp only: uploads_def fst_conv simp_thms)
qed

theorem watchHardware_force_period_witness:
  "\<exists>cnt' u. watchHardware 12 sample_ds (NewNodeManager (K8Manager_service (fixed_manager 3)))
      (hsm_env sample_rfs sample_comps []) init_state = (Ok cnt', u) \<and>
    Some (marshal_nodes (hsm_nodes (sample_rfs, sample_comps, paradise_set []))) \<in> set (puts_of (trace u))"
proof -
  let ?e = "hsm_env sample_rfs sample_comps []" and ?N = "hsm_nodes (sample_rfs, sample_comps, paradise_set [])"
  have "\<not> inShutdown init_state" by (simp add: init_state_def)
  note period = watchHardware_force_period [OF sample_healthy hsm_env_puts init_sane this, where k = 11
      and dm = "NewDataManager (K8Manager_service (fixed_manager 3)) (SlsManager_service NewSlsManager)",
      folded sample_ds_def]
  obtain cnt' u t nodes evs where run: "watchHardware (Suc 11) sample_ds (NewNodeManager (K8Manager_service (fixed_manager 3)))
      ?e init_state = (Ok cnt', u)"
    and n: "fst (getCurrentNodesFromHSM ?e (t\<lparr>hardwareUpdateTime := time_now ?e (trace t), trace := trace t @ [TimeNow]\<rparr>)) = Ok nodes"
    and tr: "trace u = trace t @ evs" and puts: "puts_of evs =
      (let upd = (if 11 dvd (11 :: nat) then nodes else filter (\<lambda>n. \<not> has_key (nodeCache t) (NodeName n)) nodes)
       in if upd = [] then [] else [Some (marshal_nodes upd)])"
    using period by (elim exE conjE) (rule that)
  from n have "nodes = ?N" by (simp add: sample_nodes)
  moreover have "NodeName ` set ?N \<noteq> {}" unfolding sample_names by (rule insert_not_empty)
  then have "?N \<noteq> []" by (metis image_empty list.set(1))
  ultimately have "Some (marshal_nodes ?N) \<in> set (puts_of (trace u))" by (simp add: tr puts)
  moreover have "Suc 11 = 12" by simp
  ultimately show ?thesis using run by metis
qed

section \<open>Keys for new Mountain nodes\<close>



section \<open>Configuration values\<close>

text \<open>A configuration variable is clamped. \<open>readSingleEnvVarInt\<close> leaves the default alone when the
  variable is unset or not an integer that fits the machine, and otherwise yields the value
  moved into the allowed range; so with a default in range the result is in range.\<close>

lemma readSingleEnvVarInt_clamps:
  assumes "minVal \<le> maxVal"
  shows "readSingleEnvVarInt envVar outVar minVal maxVal e s =
    (Ok (case Atoi (os_getenv e envVar) of
           None \<Rightarrow> outVar
         | Some v \<Rightarrow> (if os_getenv e envVar = '''' then outVar else max minVal (min maxVal v))), s)"
  using assms
  by (auto simp: readSingleEnvVarInt_def max_def min_def split: option.split)

end
