(* ===== verification/Debug.thy ===== *)
theory Debug
  imports Health Hardware
begin

text \<open>
  \<open>debug.go\<close>: the undocumented handlers for live systems: changing the maxima, reporting the
  distribution of the nodes over the pods, clearing all data, suspending and resuming the
  hardware watcher.
\<close>

section \<open>Interface and data\<close>

record debugService =
  dbs_doInfo :: handler
  dbs_doClearData :: handler
  dbs_doSuspend :: handler
  dbs_doResume :: handler
  dbs_doSetMaxNodesPerPod :: handler

record debugManager =
  dbg_dataService :: dataService
  dbg_healthService :: healthService

record maxNodeData =
  MaxRvrNodes :: int
  MaxMtnNodes :: int

record nodePodPair =
  PodID :: string
  NumNodes :: int

record infoResponse =
  info_Nodes :: "nodePodPair list"
  info_Health :: healthResponse

definition dec_maxNodeData :: "maxNodeData decoder" where
  "dec_maxNodeData = dec_struct
     [(''maxRvr'', dec_int (\<lambda>x v. v\<lparr>MaxRvrNodes := x\<rparr>)),
      (''maxMtn'', dec_int (\<lambda>x v. v\<lparr>MaxMtnNodes := x\<rparr>))]"

text \<open>The info structs have no tags; a nil slice is encoded as \<open>null\<close>.\<close>

definition enc_info :: "infoResponse \<Rightarrow> json" where
  "enc_info i = JObj
     [(''Nodes'', if info_Nodes i = [] then JNull
                  else JArr (map (\<lambda>p. JObj [(''PodID'', JStr (PodID p)), (''NumNodes'', enc_int (NumNodes p))])
                         (info_Nodes i))),
      (''Health'', enc_health (info_Health i))]"

section \<open>Operations\<close>

definition pinNumNodes :: "int \<Rightarrow> int \<Rightarrow> int \<Rightarrow> int \<times> bool" where
  "pinNumNodes numAsk numMin numMax =
     (if numAsk < numMin then (numMin, False)
      else if numAsk > numMax then (numMax, False)
      else (numAsk, True))"

definition doSetMaxNodesPerPod :: handler where
  "doSetMaxNodesPerPod r w =
     (if r_Method r \<noteq> ''PATCH'' then ret (not_allowed ''PATCH'' r w)
      else
        (case r_Body r of
           Inl err \<Rightarrow> send_error w 400 ''There was an error reading the request body: S'' err ''''
         | Inr reqBody \<Rightarrow>
             if r_Header r ''Content-type'' \<noteq> ''application/json'' then
               ret (SendResponseJSON w 400 (Some (base_response ''Expecting Content-Type: application/json'')))
             else
               (case unmarshal dec_maxNodeData \<lparr>MaxRvrNodes = 0, MaxMtnNodes = 0\<rparr> (Some reqBody) of
                  (inData, Some je) \<Rightarrow>
                    send_error w 400 ''There was an error while decoding the json data: '' (JsonError je) ''''
                | (inData, None) \<Rightarrow>
                    then_go (modify (\<lambda>s. s\<lparr>maxMtnNodesPerPod := fst (pinNumNodes (MaxMtnNodes inData) 2 750)\<rparr>))
                    (then_go (modify (\<lambda>s. s\<lparr>maxRvrNodesPerPod := fst (pinNumNodes (MaxRvrNodes inData) 2 2000)\<rparr>))
                    (ret (write_header 200 w))))))"

text \<open>\<open>tally[k] = tally[k] + 1\<close>: a missing key reads as 0.\<close>

definition tally_add :: "string \<Rightarrow> (string, int) gomap \<Rightarrow> (string, int) gomap" where
  "tally_add k tally = map_set k ((case map_of tally k of None \<Rightarrow> 0 | Some n \<Rightarrow> n) + 1) tally"

definition tally_node :: "dataService \<Rightarrow> string \<Rightarrow> (string, int) gomap \<Rightarrow> (string, int) gomap op" where
  "tally_node ds nn tally =
     bind_go (ds_getNodePodForXname ds nn) (\<lambda>(podName, err).
       if err \<noteq> None then ret (tally_add ''Unassigned'' tally) else ret (tally_add podName tally))"

definition doInfo :: "debugManager \<Rightarrow> handler" where
  "doInfo dm r w =
     (if r_Method r \<noteq> ''GET'' then ret (not_allowed ''GET'' r w)
      else
        bind_go (hs_getCurrentHealth (dbg_healthService dm)) (\<lambda>health.
        bind_go (gets nodeCache) (\<lambda>cache.
        bind_go (for_range (map_keys cache) [] (tally_node (dbg_dataService dm))) (\<lambda>tally.
             let info = \<lparr>info_Nodes = map (\<lambda>(k, v). \<lparr>PodID = k, NumNodes = v\<rparr>) tally, info_Health = health\<rparr>
             in ret (SendResponseJSON w 200 (Some (enc_info info)))))))"

definition doClearData :: "debugManager \<Rightarrow> handler" where
  "doClearData dm r w =
     (if r_Method r \<noteq> ''DELETE'' then ret (not_allowed ''DELETE'' r w)
      else
        bind_go (gets nodeCache) (\<lambda>cache.
          let rn = map_values cache
          in then_go (modify (\<lambda>s. s\<lparr>nodeCache := []\<rparr>))
             (then_go (ds_dataRemoveNodes (dbg_dataService dm) rn)
             (ret (write_header 200 w)))))"

text \<open>The stretch before the call of console-data: the snapshot of the cache, and the empty cache.\<close>

definition begin_clear :: "nodeConsoleInfo list op" where
  "begin_clear =
     bind_go (gets nodeCache) (\<lambda>cache.
     then_go (modify (\<lambda>s. s\<lparr>nodeCache := []\<rparr>)) (ret (map_values cache)))"

definition doSuspend :: handler where
  "doSuspend r w =
     (if r_Method r \<noteq> ''POST'' then ret (not_allowed ''POST'' r w)
      else then_go (modify (\<lambda>s. s\<lparr>inShutdown := True\<rparr>)) (ret (write_header 200 w)))"

definition doResume :: handler where
  "doResume r w =
     (if r_Method r \<noteq> ''POST'' then ret (not_allowed ''POST'' r w)
      else then_go (modify (\<lambda>s. s\<lparr>inShutdown := False\<rparr>)) (ret (write_header 200 w)))"

definition NewDebugManager :: "dataService \<Rightarrow> healthService \<Rightarrow> debugManager" where
  "NewDebugManager ds hs = \<lparr>dbg_dataService = ds, dbg_healthService = hs\<rparr>"

definition DebugManager_service :: "debugManager \<Rightarrow> debugService" where
  "DebugManager_service dm = \<lparr>
     dbs_doInfo = doInfo dm,
     dbs_doClearData = doClearData dm,
     dbs_doSuspend = doSuspend,
     dbs_doResume = doResume,
     dbs_doSetMaxNodesPerPod = doSetMaxNodesPerPod\<rparr>"

section \<open>Changing the maxima\<close>

lemma pinNumNodes_clamp: "numMin \<le> numMax \<Longrightarrow> fst (pinNumNodes n numMin numMax) = max numMin (min numMax n)"
  by (auto simp: pinNumNodes_def)

lemma pinNumNodes_flag: "snd (pinNumNodes n numMin numMax) \<longleftrightarrow> numMin \<le> n \<and> n \<le> numMax"
  by (auto simp: pinNumNodes_def)

definition max_request :: "int \<Rightarrow> int \<Rightarrow> request" where
  "max_request mtn rvr = \<lparr>r_Method = ''PATCH'', r_URLPath = ''/console-operator/v0/setMaxNodesPerPod'',
     r_URLParam = (\<lambda>k. ''''), r_Header = (\<lambda>k. ''application/json''),
     r_Body = Inr (Json (JObj [(''maxRvr'', enc_int rvr), (''maxMtn'', enc_int mtn)]))\<rparr>"

text \<open>C31: The maxima stay in their range. A request to change the maxima always returns. With status 200
  its body was decodable and each maximum is the decoded value moved into its range, 2 to 750
  for Mountain and 2 to 2000 for River nodes (a member that is missing counts as 0, so it sets
  that maximum to 2); with status 400 or 405 no global has changed.\<close>

theorem doSetMaxNodesPerPod_clamps:
  "\<exists>w t. doSetMaxNodesPerPod r new_writer e s = (Ok w, t) \<and>
    (if w_status w = Some 200
     then (\<exists>body d. r_Body r = Inr body \<and>
             unmarshal dec_maxNodeData \<lparr>MaxRvrNodes = 0, MaxMtnNodes = 0\<rparr> (Some body) = (d, None) \<and>
             t = s\<lparr>maxMtnNodesPerPod := max 2 (min 750 (MaxMtnNodes d)),
                   maxRvrNodesPerPod := max 2 (min 2000 (MaxRvrNodes d))\<rparr>)
     else t = s \<and> w_status w \<in> {Some 400, Some 405})"
proof -
  let ?ok = "\<lambda>t. \<exists>body d. r_Body r = Inr body \<and>
             unmarshal dec_maxNodeData \<lparr>MaxRvrNodes = 0, MaxMtnNodes = 0\<rparr> (Some body) = (d, None) \<and>
             t = s\<lparr>maxMtnNodesPerPod := max 2 (min 750 (MaxMtnNodes d)),
                   maxRvrNodesPerPod := max 2 (min 2000 (MaxRvrNodes d))\<rparr>"
  define P where "P = (\<lambda>p :: response_writer outcome \<times> op_state. \<exists>w t. p = (Ok w, t) \<and>
    (if w_status w = Some 200 then ?ok t else t = s \<and> w_status w \<in> {Some 400, Some 405}))"
  have bad: "P (Ok w, s)" if "w_status w \<in> {Some 400, Some 405}" for w
    using that by (auto simp: P_def)
  have good: "P (Ok (write_header 200 new_writer), t)" if "?ok t" for t
    using that by (simp add: P_def)
  have "P (doSetMaxNodesPerPod r new_writer e s)"
    by (auto simp: doSetMaxNodesPerPod_def send_error_run pinNumNodes_clamp intro!: bad good
        split: sum.split prod.split option.split)
  then show ?thesis by (simp add: P_def)
qed

section \<open>The info report\<close>

lemma tally_total:
  assumes "wf_map m"
  shows "sum_list (map_values (tally_add k m)) = sum_list (map_values m) + 1"
proof -
  have "distinct (map fst m) \<Longrightarrow> sum_list (map_values (map_set k v m)) =
      sum_list (map_values m) + v - (case map_of m k of None \<Rightarrow> 0 | Some n \<Rightarrow> n)" for v
    by (induction m) (auto split: option.splits)
  with assms show ?thesis by (simp add: tally_add_def wf_map_def)
qed

context data_service
begin

lemma tally_node_run:
  "\<exists>k evs. tally_node ds nn m e s = (Ok (tally_add k m), s\<lparr>trace := trace s @ evs\<rparr>)"
proof -
  obtain p evs where p: "ds_getNodePodForXname ds nn e s = (Ok p, s\<lparr>trace := trace s @ evs\<rparr>)"
    using pod_calls by (rule only_callsE)
  then show ?thesis
    by (intro exI [of _ "if snd p = None then fst p else ''Unassigned''"] exI [of _ evs])
      (auto simp: tally_node_def bind_go_run split: prod.split)
qed

lemma tally_loop:
  assumes "wf_map m"
  shows "\<exists>m' evs. for_range ks m (tally_node ds) e s = (Ok m', s\<lparr>trace := trace s @ evs\<rparr>) \<and> wf_map m' \<and>
    sum_list (map_values m') = sum_list (map_values m) + int (length ks)"
  using assms
proof (induction ks arbitrary: m s)
  case Nil
  then show ?case by (intro exI [of _ m] exI [of _ "[]"]) simp
next
  case (Cons nn ks)
  obtain k evs where b: "tally_node ds nn m e s = (Ok (tally_add k m), s\<lparr>trace := trace s @ evs\<rparr>)"
    using tally_node_run by blast
  have "wf_map (tally_add k m)" using Cons.prems by (simp add: tally_add_def)
  from Cons.IH [OF this, of "s\<lparr>trace := trace s @ evs\<rparr>"]
  obtain m' evs' where "for_range ks (tally_add k m) (tally_node ds) e (s\<lparr>trace := trace s @ evs\<rparr>) =
      (Ok m', s\<lparr>trace := trace s @ (evs @ evs')\<rparr>)" and "wf_map m'"
    and "sum_list (map_values m') = sum_list (map_values (tally_add k m)) + int (length ks)"
    by auto
  with b show ?case
    using tally_total [OF Cons.prems, of k]
    by (intro exI [of _ m'] exI [of _ "evs @ evs'"]) (simp add: bind_go_run)
qed

end

text \<open>C32: The info report accounts for every node. \<open>doInfo\<close> always returns with status 200 for a GET
  request and changes no global; the numbers of nodes it reports per pod (with those that
  could not be looked up under \<open>Unassigned\<close>) add up to the number of cached nodes, and no pod is
  listed twice.\<close>

theorem doInfo_accounts_for_all:
  assumes "r_Method r = ''GET''"
  shows "\<exists>w evs info. doInfo (NewDebugManager (DataManager_service dm) (HealthManager_service hm)) r new_writer e s =
      (Ok w, s\<lparr>trace := trace s @ evs\<rparr>) \<and>
    w_status w = Some 200 \<and> w_body w = [enc_info info] \<and>
    sum_list (map NumNodes (info_Nodes info)) = int (length (nodeCache s)) \<and>
    distinct (map PodID (info_Nodes info))"
proof -
  let ?ds = "DataManager_service dm"
  obtain m' evs where l: "for_range (map_keys (nodeCache s)) [] (tally_node ?ds) e s =
      (Ok m', s\<lparr>trace := trace s @ evs\<rparr>)"
    and wf: "wf_map m'" and total: "sum_list (map_values m') = int (length (nodeCache s))"
    using dsm.tally_loop [of "[]" "map_keys (nodeCache s)" dm e s] by auto
  obtain health where h: "getCurrentHealth e s = (Ok health, s)" by (simp add: getCurrentHealth_def)
  let ?info = "\<lparr>info_Nodes = map (\<lambda>(k, v). \<lparr>PodID = k, NumNodes = v\<rparr>) m', info_Health = health\<rparr>"
  have "doInfo (NewDebugManager (DataManager_service dm) (HealthManager_service hm)) r new_writer e s =
      (Ok (SendResponseJSON new_writer 200 (Some (enc_info ?info))), s\<lparr>trace := trace s @ evs\<rparr>)"
    using assms
    by (simp add: doInfo_def NewDebugManager_def HealthManager_service_def bind_go_run h l)
  moreover have "map NumNodes (info_Nodes ?info) = map_values m'" "map PodID (info_Nodes ?info) = map_keys m'"
    by (simp_all add: case_prod_unfold)
  then have "sum_list (map NumNodes (info_Nodes ?info)) = int (length (nodeCache s)) \<and>
      distinct (map PodID (info_Nodes ?info))"
    using total wf by (simp only: wf_map_def)
  moreover have "w_status (SendResponseJSON new_writer 200 (Some (enc_info ?info))) = Some 200"
    "w_body (SendResponseJSON new_writer 200 (Some (enc_info ?info))) = [enc_info ?info]"
    by simp_all
  ultimately show ?thesis by blast
qed

theorem doInfo_accounts_for_all_witness:
  "\<exists>w evs info. doInfo (NewDebugManager sample_ds (HealthManager_service (NewHealthManager sample_ds)))
      (sample_request ''GET'') new_writer missing_env one_node_state =
      (Ok w, one_node_state\<lparr>trace := trace one_node_state @ evs\<rparr>) \<and>
    w_body w = [enc_info info] \<and> sum_list (map NumNodes (info_Nodes info)) = 1"
proof -
  have "r_Method (sample_request ''GET'') = ''GET''" by (simp add: sample_request_def)
  moreover have "length (nodeCache one_node_state) = 1" by (simp add: one_node_state_def index_by_def)
  ultimately show ?thesis
    using doInfo_accounts_for_all [of "sample_request ''GET''"
        "NewDataManager (K8Manager_service (fixed_manager 3)) (SlsManager_service NewSlsManager)"
        "NewHealthManager sample_ds" missing_env one_node_state]
    by (fold sample_ds_def) fastforce
qed

section \<open>Clearing, suspending and resuming\<close>

text \<open>Without interference the snapshot and the removal are the whole handler.\<close>

lemma clear_phases:
  "r_Method r = ''DELETE'' \<Longrightarrow> doClearData dm r w =
     bind_go begin_clear (\<lambda>rn.
     then_go (ds_dataRemoveNodes (dbg_dataService dm) rn) (ret (write_header 200 w)))"
  by (simp add: doClearData_def begin_clear_def then_go_def bind_go_assoc Let_def)

context hardware_watcher
begin

text \<open>Clearing from a synced state empties cache and inventory.\<close>

lemma clear_run:
  assumes "deletes_accepted e" and "synced iv e cnt s" and "r_Method r = ''DELETE''"
  shows "\<exists>w t. doClearData (NewDebugManager ds hs) r new_writer e s = (Ok w, t) \<and> w_status w = Some 200 \<and>
    nodeCache t = [] \<and> iv e (trace t) = Map.empty"
proof -
  let ?rn = "map_values (nodeCache s)" and ?s = "s\<lparr>nodeCache := []\<rparr>"
  obtain evs where rem: "ds_dataRemoveNodes ds ?rn e ?s = (Ok (), ?s\<lparr>trace := trace ?s @ evs\<rparr>)"
    and "iv e (trace ?s @ evs) = iv e (trace ?s) |` (- NodeName ` set ?rn)"
    using remove_nodes [of ?rn e ?s] assms(1) by auto
  moreover have "dom (iv e (trace s)) \<subseteq> NodeName ` set ?rn"
    using assms(2) keyed_by_values [of NodeName "nodeCache s"] unfolding synced_def by simp
  then have "iv e (trace s) |` (- NodeName ` set ?rn) = Map.empty"
    by (auto simp: restrict_map_def fun_eq_iff domIff subset_iff)
  ultimately show ?thesis
    using assms(3) by (simp add: doClearData_def NewDebugManager_def Let_def then_go_run)
qed

text \<open>With an empty cache every node is new, so an ordinary update is a full one.\<close>

lemma update_empty_cache:
  assumes "ns_getCurrentNodesFromHSM ns e s = (Ok nodes, u)" and "nodeCache s = []"
  shows "updateCachedNodeData ds ns updateAll e s = updateCachedNodeData ds ns True e s"
proof -
  have "nodeCache u = []" using getCurrentNodes_frame [of e s] assms by auto
  then show ?thesis
    by (simp add: updateCachedNodeData_def bind_go_run [of "ns_getCurrentNodesFromHSM ns"] assms
        has_key_def Let_def)
qed

end

text \<open>C20: Clearing and coming back. Assume that console-data accepts deletions (the handler does not learn
  of a refused one), that before the request it has no node the cache lacks, and that no other
  goroutine interferes. Then after a clear request cache and console-data are empty, and the next
  successful update, forced or not, puts exactly the documents of the nodes then reported by HSM
  into console-data.\<close>

theorem doClearData_then_update_restores:
  assumes "deletes_accepted e" and "synced (inventory_after iv) e cnt s" and "r_Method r = ''DELETE''"
    and "doClearData (NewDebugManager (DataManager_service dm) hs) r new_writer e s = (Ok w, t)"
    and "getCurrentNodesFromHSM e t = (Ok nodes, x)"
    and "updateCachedNodeData (DataManager_service dm) (NewNodeManager (K8Manager_service k8s)) updateAll e t =
      (Ok (True, new), u)"
  shows "nodeCache t = [] \<and> inventory_after iv e (trace t) = Map.empty \<and>
    new = nodes \<and> inventory_after iv e (trace u) = docs_of nodes"
proof -
  have t: "nodeCache t = []" "inventory_after iv e (trace t) = Map.empty"
    using hw.clear_run [OF assms(1-3), of dm hs] assms(4) by auto
  have n: "ns_getCurrentNodesFromHSM (NewNodeManager (K8Manager_service k8s)) e t = (Ok nodes, x)"
    using assms(5) by (simp add: NewNodeManager_def)
  have new: "new = nodes" using hw.update_cache(2) [OF n assms(6)] t by (simp add: has_key_def)
  have up: "updateCachedNodeData (DataManager_service dm) (NewNodeManager (K8Manager_service k8s)) ((0 :: int) = 0) e t =
      (Ok (True, new), u)"
    using hw.update_empty_cache [OF n t(1), of dm updateAll] assms(6) by simp
  have "synced (inventory_after iv) e 0 t" using t by (simp add: synced_def)
  from hw.update_sync(5) [OF assms(1) this n up] t new show ?thesis by simp
qed

text \<open>A suspended watcher stays quiet. After a suspend request and until a resume request, a round of
  the hardware watcher makes no call at all except its sleep, keeps its counter and changes no
  global; a resume request gives back the state before.\<close>

lemma doSuspend_stops_watcher:
  assumes "r_Method r = ''POST''"
  shows "\<exists>w t. doSuspend r new_writer e s = (Ok w, t) \<and> w_status w = Some 200 \<and>
    hardware_round ds ns cnt e t =
      (Ok cnt, t\<lparr>trace := trace t @ [TimeSleep (newHardwareCheckPeriodSec s)]\<rparr>) \<and>
    doResume r new_writer e t = (Ok w, t\<lparr>inShutdown := False\<rparr>)"
  using assms by (simp add: doSuspend_def doResume_def hardware_round_def)

theorem doClearData_then_update_restores_witness:
  "\<exists>w t new u. doClearData (NewDebugManager sample_ds (HealthManager_service (NewHealthManager sample_ds)))
      (sample_request ''DELETE'') new_writer (hsm_env sample_rfs sample_comps []) one_node_state = (Ok w, t) \<and>
    updateCachedNodeData sample_ds (NewNodeManager (K8Manager_service (fixed_manager 3))) False
      (hsm_env sample_rfs sample_comps []) t = (Ok (True, new), u) \<and> nodeCache t = [] \<and>
    inventory_after (docs_of [mtn_node ''x1c0s0b0n0'' ''x1c0s0b0'']) (hsm_env sample_rfs sample_comps []) (trace u) =
      docs_of (hsm_nodes (sample_rfs, sample_comps, paradise_set []))"
proof -
  let ?e = "hsm_env sample_rfs sample_comps []" and ?hs = "HealthManager_service (NewHealthManager sample_ds)"
  have m: "r_Method (sample_request ''DELETE'') = ''DELETE''" by (simp add: sample_request_def)
  obtain w t where c: "doClearData (NewDebugManager sample_ds ?hs) (sample_request ''DELETE'') new_writer ?e one_node_state = (Ok w, t)"
    using hw.clear_run [OF hsm_env_deletes one_node_synced [where cnt = 1] m] unfolding sample_ds_def by blast
  have n: "ns_getCurrentNodesFromHSM (NewNodeManager (K8Manager_service (fixed_manager 3))) ?e t =
      (Ok (hsm_nodes (sample_rfs, sample_comps, paradise_set [])), t\<lparr>trace := trace t @ hsm_events ?e (trace t)\<rparr>)"
    by (simp add: NewNodeManager_def sample_nodes)
  obtain new u where u: "updateCachedNodeData sample_ds (NewNodeManager (K8Manager_service (fixed_manager 3))) False ?e t =
      (Ok (True, new), u)"
    using hw.update_succeeds [OF n] hsm_env_puts unfolding sample_ds_def by blast
  from doClearData_then_update_restores [OF hsm_env_deletes one_node_synced [where cnt = 1] m
      c [unfolded sample_ds_def] sample_nodes u [unfolded sample_ds_def]] c u
  show ?thesis unfolding sample_ds_def by blast
qed

end
