(* ===== verification/Router.thy ===== *)
theory Router
  imports Debug
begin

text \<open>
  \<open>router.go\<close>: the routing table. The router itself (\<open>chi\<close>) is library code; it is represented by
  the table of method, pattern and handler that \<open>setupRoutes\<close> fills.
\<close>

record route =
  rt_method :: string
  rt_pattern :: string
  rt_handler :: handler

abbreviation mk_route :: "string \<Rightarrow> string \<Rightarrow> handler \<Rightarrow> route" where
  "mk_route m p h \<equiv> \<lparr>rt_method = m, rt_pattern = p, rt_handler = h\<rparr>"

definition setupRoutes :: "dataService \<Rightarrow> healthService \<Rightarrow> debugService \<Rightarrow> route list" where
  "setupRoutes ds hs dbs =
     [mk_route ''GET'' ''/console-operator/liveness'' (hs_doLiveness hs),
      mk_route ''GET'' ''/console-operator/readiness'' (hs_doReadiness hs),
      mk_route ''GET'' ''/console-operator/health'' (hs_doHealth hs),
      mk_route ''GET'' ''/console-operator/info'' (dbs_doInfo dbs),
      mk_route ''DELETE'' ''/console-operator/clearData'' (dbs_doClearData dbs),
      mk_route ''POST'' ''/console-operator/suspend'' (dbs_doSuspend dbs),
      mk_route ''POST'' ''/console-operator/resume'' (dbs_doResume dbs),
      mk_route ''PATCH'' ''/console-operator/v0/setMaxNodesPerPod'' (dbs_doSetMaxNodesPerPod dbs),
      mk_route ''GET'' ''/console-operator/v0/getNodePod'' (ds_doGetNodePod ds),
      mk_route ''GET'' ''/console-operator/v1/location/{podID}'' (ds_doGetPodLocation ds),
      mk_route ''GET'' ''/console-operator/v1/replicas'' (ds_doGetPodReplicaCount ds),
      mk_route ''GET'' ''/console-operator/v1/currentTargets'' (ds_doGetCurrentTargets ds)]"

text \<open>The table for the managers the program constructs.\<close>

definition operator_routes :: "dataManager \<Rightarrow> route list" where
  "operator_routes dm =
     (let ds = DataManager_service dm; hs = HealthManager_service (NewHealthManager ds)
      in setupRoutes ds hs (DebugManager_service (NewDebugManager ds hs)))"

section \<open>The guards of the handlers agree with the table\<close>

text \<open>A handler that accepts the method \<open>m\<close> only: any other one is answered with 405, the
  \<open>Allow\<close> header and no effect.\<close>

definition guards :: "string \<Rightarrow> handler \<Rightarrow> bool" where
  "guards m h \<longleftrightarrow> (\<forall>r w e s. r_Method r \<noteq> m \<longrightarrow> h r w e s = (Ok (not_allowed m r w), s))"

lemma handler_guards:
  "guards ''GET'' doLiveness" "guards ''GET'' doReadiness" "guards ''GET'' doHealth"
  "guards ''GET'' (doInfo dbg)" "guards ''DELETE'' (doClearData dbg)"
  "guards ''POST'' doSuspend" "guards ''POST'' doResume" "guards ''PATCH'' doSetMaxNodesPerPod"
  "guards ''GET'' doGetNodePod" "guards ''GET'' (doGetPodLocation dm)"
  "guards ''GET'' (doGetPodReplicaCount dm)" "guards ''GET'' doGetCurrentTargets"
  by (simp_all add: guards_def doLiveness_def doReadiness_def doHealth_def doInfo_def doClearData_def
      doSuspend_def doResume_def doSetMaxNodesPerPod_def doGetNodePod_def doGetPodLocation_def
      doGetPodReplicaCount_def doGetCurrentTargets_def)

lemma operator_routes_guards: "rt \<in> set (operator_routes dm) \<Longrightarrow> guards (rt_method rt) (rt_handler rt)"
  unfolding operator_routes_def setupRoutes_def Let_def
  by (auto simp: DataManager_service_def HealthManager_service_def DebugManager_service_def handler_guards)

text \<open>A handler that serves the method \<open>m\<close>: whenever it returns, with whatever request of that method,
  its answer is a success, a complaint about the request or a server error.\<close>

definition serves :: "string \<Rightarrow> handler \<Rightarrow> bool" where
  "serves m h \<longleftrightarrow> (\<forall>r e s w t. r_Method r = m \<longrightarrow> h r new_writer e s = (Ok w, t) \<longrightarrow>
     w_status w \<in> {Some 200, Some 204, Some 400, Some 500})"

lemma servesI:
  assumes "\<And>r e s w t. r_Method r = m \<Longrightarrow> h r new_writer e s = (Ok w, t) \<Longrightarrow>
    w_status w \<in> {Some 200, Some 204, Some 400, Some 500}"
  shows "serves m h"
  using assms unfolding serves_def by blast

lemmas handler_splits = prod.splits outcome.splits option.splits sum.splits if_splits

lemma health_serves: "serves ''GET'' doLiveness" "serves ''GET'' doReadiness" "serves ''GET'' doHealth"
  by (rule servesI, auto simp: doLiveness_def doReadiness_def doHealth_def bind_go_run split: handler_splits)+

lemma debug_serves:
  "serves ''GET'' (doInfo dbg)" "serves ''DELETE'' (doClearData dbg)" "serves ''POST'' doSuspend"
  "serves ''POST'' doResume" "serves ''PATCH'' doSetMaxNodesPerPod"
  by (rule servesI, auto simp: doInfo_def doClearData_def doSuspend_def doResume_def doSetMaxNodesPerPod_def
      bind_go_run then_go_run send_error_run Let_def split: handler_splits)+

lemma data_serves:
  "serves ''GET'' doGetNodePod" "serves ''GET'' (doGetPodLocation dm)" "serves ''GET'' (doGetPodReplicaCount dm)"
  "serves ''GET'' doGetCurrentTargets"
  by (rule servesI, auto simp: doGetNodePod_def doGetPodLocation_def doGetPodReplicaCount_def doGetCurrentTargets_def
      bind_go_run send_error_run Let_def split: handler_splits)+

lemma operator_routes_serves: "rt \<in> set (operator_routes dm) \<Longrightarrow> serves (rt_method rt) (rt_handler rt)"
  unfolding operator_routes_def setupRoutes_def Let_def
  by (auto simp: DataManager_service_def HealthManager_service_def DebugManager_service_def
      health_serves debug_serves data_serves)

text \<open>C34: Every handler accepts exactly the method it is registered for. For each route of the table, a
  request with another method is answered by 405 with an \<open>Allow\<close> header naming the registered
  method and one document, and nothing changes; a request with the registered method, whenever
  the handler returns, is answered by 200, 204, 400 or 500 and so never by 405. No method and
  pattern pair is registered twice.\<close>

theorem routes_match_guards:
  assumes "rt \<in> set (operator_routes dm)"
  shows "(if r_Method r = rt_method rt
      then (\<forall>w t. rt_handler rt r new_writer e s = (Ok w, t) \<longrightarrow>
        w_status w \<in> {Some 200, Some 204, Some 400, Some 500})
      else (\<exists>w. rt_handler rt r new_writer e s = (Ok w, s) \<and> w_status w = Some 405 \<and>
        map_of (w_sent_headers w) ''Allow'' = Some (rt_method rt) \<and> length (w_body w) = 1)) \<and>
    distinct (map (\<lambda>rt. (rt_method rt, rt_pattern rt)) (operator_routes dm))"
proof -
  have "rt_handler rt r new_writer e s = (Ok (not_allowed (rt_method rt) r new_writer), s)"
    if "r_Method r \<noteq> rt_method rt"
    using operator_routes_guards [OF assms] that by (simp add: guards_def)
  moreover have "map_of (w_sent_headers (not_allowed m r new_writer)) ''Allow'' = Some m" for m
    by (simp add: not_allowed_def sendJSONError_def SendResponseJSON_def encode_body_def write_header_def
        header_set_def new_writer_def Let_def)
  moreover have "length (w_body (not_allowed m r new_writer)) = 1" for m
    by (simp add: not_allowed_def sendJSONError_def Let_def)
  moreover have "\<forall>w t. rt_handler rt r new_writer e s = (Ok w, t) \<longrightarrow>
      w_status w \<in> {Some 200, Some 204, Some 400, Some 500}" if "r_Method r = rt_method rt"
    using operator_routes_serves [OF assms] that unfolding serves_def by blast
  moreover have "distinct (map (\<lambda>rt. (rt_method rt, rt_pattern rt)) (operator_routes dm))"
    by (simp add: operator_routes_def setupRoutes_def Let_def)
  ultimately show ?thesis by (simp split: if_split)
qed

theorem routes_match_guards_witness:
  "\<exists>rt w. rt \<in> set (operator_routes (NewDataManager (K8Manager_service (fixed_manager 3)) (SlsManager_service NewSlsManager))) \<and>
    rt_handler rt (sample_request ''GET'') new_writer quiet_env init_state = (Ok w, init_state) \<and>
    w_status w = Some 405"
proof -
  let ?dm = "NewDataManager (K8Manager_service (fixed_manager 3)) (SlsManager_service NewSlsManager)"
  let ?rt = "mk_route ''POST'' ''/console-operator/suspend'' doSuspend"
  have rt: "?rt \<in> set (operator_routes ?dm)"
    by (simp add: operator_routes_def setupRoutes_def DebugManager_service_def Let_def)
  have "r_Method (sample_request ''GET'') = rt_method ?rt \<longleftrightarrow> False" by (simp add: sample_request_def)
  with routes_match_guards [OF rt, of "sample_request ''GET''" quiet_env init_state]
  obtain w where "rt_handler ?rt (sample_request ''GET'') new_writer quiet_env init_state = (Ok w, init_state)"
    and "w_status w = Some 405"
    by (simp only: if_False) (elim exE conjE, rule that)
  with rt show ?thesis by (intro exI [of _ ?rt] exI [of _ w] conjI)
qed

end
