(* ===== verification/Zombies.thy ===== *)
theory Zombies
  imports K8s
begin

text \<open>
  \<open>zombies.go\<close>: reaping orphaned processes of the container. The process table is the text that
  \<open>ps -eo pid,stat\<close> prints; each zombie found is reaped by a goroutine of its own. The reapers
  touch no variable of the program, so running them one after the other is one of their
  interleavings and the others differ only in the order of the calls.
\<close>

section \<open>Operations\<close>

definition ps_command :: "string list" where
  "ps_command = [''ps'', ''-eo'', ''pid,stat'']"

text \<open>The loop over the lines of the buffer; it ends because every line read shortens it.\<close>

function scan_zombies :: "string \<Rightarrow> int list \<Rightarrow> int list" where
  "scan_zombies outBuf zombies =
     (case ReadString (CHR 0x0A) outBuf of
        (readLine, rest, eof) \<Rightarrow>
          if eof then zombies
          else
            (let cols = Fields readLine
             in if length cols \<ge> 2 \<and> cols ! 1 = ''Z'' then
                  (case Atoi (cols ! 0) of
                     Some zPid \<Rightarrow> scan_zombies rest (zombies @ [zPid])
                   | None \<Rightarrow> scan_zombies rest zombies)
                else scan_zombies rest zombies))"
  by pat_completeness auto
termination
  by (relation "measure (\<lambda>(outBuf, _). length outBuf)") (auto dest!: sym [of "(_, _, False)"] dest: ReadString_shorter)

declare scan_zombies.simps [simp del]

text \<open>A failing \<open>ps\<close> is logged and its output scanned all the same.\<close>

definition findZombies :: "int list op" where
  "findZombies =
     bind_go (syscall (ExecRun ps_command) (\<lambda>e h. exec_run e h ps_command)) (\<lambda>(outBuf, err).
       ret (scan_zombies outBuf []))"

definition killZombie :: "int \<Rightarrow> unit op" where
  "killZombie pid =
     bind_go (syscall (OsFindProcess pid) (\<lambda>e h. os_find_process e h pid)) (\<lambda>err.
       if err \<noteq> None then ret ()
       else then_go (syscall (ProcessWait pid) (\<lambda>e h. process_wait e h pid)) (ret ()))"

definition zombie_round :: "unit op" where
  "zombie_round =
     bind_go findZombies (\<lambda>zombies.
       then_go (for_range zombies () (\<lambda>zombie _. killZombie zombie))
         (syscall (TimeSleep 30) (\<lambda>e h. ())))"

definition watchForZombies :: "nat \<Rightarrow> unit op" where
  "watchForZombies n = repeat_op n zombie_round"

section \<open>The table that \<open>ps\<close> prints\<close>

definition ps_line :: "nat \<times> nat \<times> string \<Rightarrow> string" where
  "ps_line p = (case p of (pad, pid, stat) \<Rightarrow>
     replicate pad (CHR '' '') @ show_int (int pid) @ CHR '' '' # stat @ [CHR 0x0A])"

definition ps_output :: "(nat \<times> nat \<times> string) list \<Rightarrow> string" where
  "ps_output ps = ''  PID STAT'' @ CHR 0x0A # concat (map ps_line ps)"

definition stat_word :: "string \<Rightarrow> bool" where
  "stat_word st \<longleftrightarrow> st \<noteq> [] \<and> (\<forall>c \<in> set st. \<not> is_space c)"

lemma space_chars [simp]: "is_space (CHR '' '')" "is_space (CHR 0x0A)"
  by (simp_all add: is_space_def)

lemma digit_not_space: "is_digit c \<Longrightarrow> \<not> is_space c"
  by (auto simp: is_digit_def is_space_def)

lemma show_pid: "show_int (int n) \<noteq> []" "\<forall>c \<in> set (show_int (int n)). \<not> is_space c"
  using show_nat_digits [of n] digit_not_space by (auto simp: show_int_def)

lemma Fields_pad: "Fields (replicate k (CHR '' '') @ s) = Fields s"
  by (induction k) (simp_all add: Fields_blank)

lemma Fields_ps_line:
  assumes "stat_word st"
  shows "Fields (replicate pad (CHR '' '') @ show_int (int pid) @ CHR '' '' # st @ [CHR 0x0A]) =
    [show_int (int pid), st]"
proof -
  have "Fields (show_int (int pid) @ CHR '' '' # st @ [CHR 0x0A]) =
      show_int (int pid) # Fields (CHR '' '' # st @ [CHR 0x0A])"
    using show_pid by (intro Fields_word) simp_all
  also have "Fields (CHR '' '' # st @ [CHR 0x0A]) = st # Fields [CHR 0x0A]"
    using assms by (simp add: Fields_blank Fields_word stat_word_def)
  finally show ?thesis by (simp add: Fields_pad Fields_blank)
qed

lemma not_space_not_newline: "\<forall>c \<in> set w. \<not> is_space c \<Longrightarrow> CHR 0x0A \<notin> set w"
  using space_chars(2) by blast

lemma scan_line:
  assumes "stat_word st" and "int pid < 2 ^ 63"
  shows "scan_zombies (ps_line (pad, pid, st) @ rest) acc =
    scan_zombies rest (acc @ (if st = ''Z'' then [int pid] else []))"
proof -
  let ?l = "replicate pad (CHR '' '') @ show_int (int pid) @ CHR '' '' # st"
  have "CHR 0x0A \<notin> set ?l"
    using not_space_not_newline [OF show_pid(2)] not_space_not_newline assms(1)
    by (auto simp: stat_word_def)
  then have "ReadString (CHR 0x0A) (?l @ CHR 0x0A # rest) = (?l @ [CHR 0x0A], rest, False)"
    by (rule ReadString_line)
  moreover have "Fields (?l @ [CHR 0x0A]) = [show_int (int pid), st]"
    using Fields_ps_line [OF assms(1), of pad pid] by simp
  moreover have "Atoi (show_int (int pid)) = Some (int pid)"
    using assms(2) by (simp add: Atoi_show_int fits_int_def)
  ultimately show ?thesis
    by (subst scan_zombies.simps) (simp add: ps_line_def Let_def)
qed

lemma scan_lines:
  assumes "\<forall>(pad, pid, st) \<in> set ps. stat_word st \<and> int pid < 2 ^ 63"
  shows "scan_zombies (concat (map ps_line ps)) acc =
    acc @ map (\<lambda>(pad, pid, st). int pid) (filter (\<lambda>(pad, pid, st). st = ''Z'') ps)"
  using assms
proof (induction ps arbitrary: acc)
  case Nil
  then show ?case by (simp add: scan_zombies.simps ReadString_def)
next
  case (Cons p ps)
  then show ?case by (cases p) (simp add: scan_line)
qed

lemma header_not_zombie: "Fields (''  PID STAT'' @ [CHR 0x0A]) = [''PID'', ''STAT'']"
  by code_simp

lemma scan_header: "scan_zombies (''  PID STAT'' @ CHR 0x0A # rest) acc = scan_zombies rest acc"
proof -
  have "ReadString (CHR 0x0A) (''  PID STAT'' @ CHR 0x0A # rest) = (''  PID STAT'' @ [CHR 0x0A], rest, False)"
    by (rule ReadString_line) simp
  then show ?thesis using header_not_zombie by (subst scan_zombies.simps) (simp add: Let_def)
qed

section \<open>Properties\<close>

text \<open>C22: The processes in status Z are found and nothing else. On the output of \<open>ps\<close> for any list of
  processes, the result is the list of the process ids whose status is exactly \<open>Z\<close>, in the order
  of the table (a zombie with a further letter in its status, as in \<open>Z+\<close>, is not among them);
  the header line and the padding of the numbers do not matter.\<close>

theorem findZombies_complete:
  assumes "fst (exec_run e (trace s) ps_command) = ps_output ps"
    and "\<forall>(pad, pid, st) \<in> set ps. stat_word st \<and> int pid < 2 ^ 63"
  shows "findZombies e s =
    (Ok (map (\<lambda>(pad, pid, st). int pid) (filter (\<lambda>(pad, pid, st). st = ''Z'') ps)),
     s\<lparr>trace := trace s @ [ExecRun ps_command]\<rparr>)"
proof -
  obtain err where "exec_run e (trace s) ps_command = (ps_output ps, err)"
    using assms(1) by (metis prod.collapse)
  then show ?thesis
    using scan_lines [OF assms(2), of "[]"] scan_header [of "concat (map ps_line ps)" "[]"]
    by (simp add: findZombies_def ps_output_def)
qed

definition sample_ps :: "(nat \<times> nat \<times> string) list" where
  "sample_ps = [(4, 1, ''Ssl''), (3, 42, ''Z''), (2, 117, ''R'')]"

theorem findZombies_complete_witness:
  "findZombies (quiet_env\<lparr>exec_run := (\<lambda>h c. (ps_output sample_ps, None))\<rparr>) init_state =
     (Ok [42], init_state\<lparr>trace := [ExecRun ps_command]\<rparr>)"
proof -
  let ?e = "quiet_env\<lparr>exec_run := (\<lambda>h c. (ps_output sample_ps, None))\<rparr>"
  have "fst (exec_run ?e (trace init_state) ps_command) = ps_output sample_ps" by simp
  moreover have "\<forall>(pad, pid, st) \<in> set sample_ps. stat_word st \<and> int pid < 2 ^ 63"
    by (simp add: sample_ps_def stat_word_def is_space_def)
  ultimately show ?thesis
    using findZombies_complete [of ?e init_state sample_ps] by (simp add: sample_ps_def init_state_def)
qed

lemma killZombie_run:
  "killZombie pid e s = (Ok (), s\<lparr>trace := trace s @ OsFindProcess pid #
     (if os_find_process e (trace s) pid = None then [ProcessWait pid] else [])\<rparr>)"
  by (simp add: killZombie_def)

lemma reap_run:
  "\<exists>evs. for_range zs () (\<lambda>z _. killZombie z) e s = (Ok (), s\<lparr>trace := trace s @ evs\<rparr>) \<and>
     (\<forall>z. OsFindProcess z \<in> set evs \<longleftrightarrow> z \<in> set zs) \<and>
     (\<forall>z. ProcessWait z \<in> set evs \<longrightarrow> z \<in> set zs)"
proof (induction zs arbitrary: s)
  case Nil
  then show ?case by (intro exI [of _ "[]"]) simp
next
  case (Cons z zs)
  let ?evs = "OsFindProcess z # (if os_find_process e (trace s) z = None then [ProcessWait z] else [])"
  let ?s = "s\<lparr>trace := trace s @ ?evs\<rparr>"
  obtain evs where "for_range zs () (\<lambda>z _. killZombie z) e ?s = (Ok (), ?s\<lparr>trace := trace ?s @ evs\<rparr>)"
    and "\<forall>z. OsFindProcess z \<in> set evs \<longleftrightarrow> z \<in> set zs" "\<forall>z. ProcessWait z \<in> set evs \<longrightarrow> z \<in> set zs"
    using Cons.IH by blast
  moreover have "for_range (z # zs) () (\<lambda>z _. killZombie z) e s = for_range zs () (\<lambda>z _. killZombie z) e ?s"
    by (simp only: for_range.simps bind_go_run killZombie_run [of z e s] prod.case outcome.case)
  ultimately show ?case by (intro exI [of _ "?evs @ evs"]) auto
qed

text \<open>Only zombies are waited for. A round of the zombie watcher attaches to exactly the processes
  that the scan of the \<open>ps\<close> output yields, waits for no other process, then sleeps; it returns
  normally and changes no global, whatever \<open>ps\<close> prints and whatever fails.\<close>

lemma zombie_round_reaps:
  "\<exists>evs. zombie_round e s = (Ok (), s\<lparr>trace := trace s @ ExecRun ps_command # evs @ [TimeSleep 30]\<rparr>) \<and>
    {z. OsFindProcess z \<in> set evs} = set (scan_zombies (fst (exec_run e (trace s) ps_command)) []) \<and>
    {z. ProcessWait z \<in> set evs} \<subseteq> set (scan_zombies (fst (exec_run e (trace s) ps_command)) [])"
proof -
  let ?zs = "scan_zombies (fst (exec_run e (trace s) ps_command)) []"
  let ?s = "s\<lparr>trace := trace s @ [ExecRun ps_command]\<rparr>"
  obtain evs where r: "for_range ?zs () (\<lambda>z _. killZombie z) e ?s = (Ok (), ?s\<lparr>trace := trace ?s @ evs\<rparr>)"
    and "\<forall>z. OsFindProcess z \<in> set evs \<longleftrightarrow> z \<in> set ?zs" "\<forall>z. ProcessWait z \<in> set evs \<longrightarrow> z \<in> set ?zs"
    using reap_run by blast
  moreover have "findZombies e s = (Ok ?zs, ?s)"
    by (simp add: findZombies_def case_prod_unfold)
  ultimately show ?thesis
    by (intro exI [of _ evs]) (auto simp: zombie_round_def bind_go_run then_go_run)
qed

end
