(* ===== verification/Operator_Main.thy ===== *)
theory Operator_Main
  imports Router Zombies
begin

text \<open>
  \<open>main\<close>: the configuration, the construction of the managers and the reaction to a signal. The
  second half shows which operations of the program are quiet: they leave the cache, the channel
  and the content of console-data alone.
\<close>

section \<open>Start\<close>

text \<open>\<open>readSingleEnvVarInt\<close> takes the address of a global: read it, and store the result.\<close>

definition read_config ::
    "string \<Rightarrow> (op_state \<Rightarrow> int) \<Rightarrow> (int \<Rightarrow> op_state \<Rightarrow> op_state) \<Rightarrow> int \<Rightarrow> int \<Rightarrow> unit op" where
  "read_config envVar var upd minVal maxVal =
     bind_go (gets var) (\<lambda>d.
     bind_go (readSingleEnvVarInt envVar d minVal maxVal) (\<lambda>x. modify (upd x)))"

definition main_config :: "bool \<Rightarrow> unit op" where
  "main_config debug_flag =
     then_go (modify (\<lambda>s. s\<lparr>debugOnly := debug_flag\<rparr>))
     (then_go (bind_go (ask_env (\<lambda>e. os_getenv e ''DEBUG'')) (\<lambda>v.
        if v = ''TRUE'' then modify (\<lambda>s. s\<lparr>debugOnly := True\<rparr>) else ret ()))
     (then_go (read_config ''MAX_MTN_NODES_PER_POD'' maxMtnNodesPerPod
        (\<lambda>x s. s\<lparr>maxMtnNodesPerPod := x\<rparr>) 5 1500)
     (then_go (read_config ''MAX_RVR_NODES_PER_POD'' maxRvrNodesPerPod
        (\<lambda>x s. s\<lparr>maxRvrNodesPerPod := x\<rparr>) 5 4000)
     (then_go (read_config ''HARDWARE_UPDATE_SEC_FREQ'' newHardwareCheckPeriodSec
        (\<lambda>x s. s\<lparr>newHardwareCheckPeriodSec := x\<rparr>) 10 14400)
     (then_go (read_config ''HEARTBEAT_CHECK_SEC_FREQ'' heartbeatCheckPeriodSec
        (\<lambda>x s. s\<lparr>heartbeatCheckPeriodSec := x\<rparr>) 10 300)
     (read_config ''HEARTBEAT_STALE_DURATION_MINUTES'' heartbeatStaleMinutes
        (\<lambda>x s. s\<lparr>heartbeatStaleMinutes := x\<rparr>) 1 60))))))"

record operator =
  op_ds :: dataService
  op_ns :: nodeService
  op_routes :: "route list"

definition wire :: "k8Manager \<Rightarrow> operator" where
  "wire k8Manager =
     (let k8 = K8Manager_service k8Manager;
          sls = SlsManager_service NewSlsManager;
          dm = NewDataManager k8 sls
      in \<lparr>op_ds = DataManager_service dm, op_ns = NewNodeManager k8, op_routes = operator_routes dm\<rparr>)"

definition main_setup ::
    "bool \<Rightarrow> go_error + rest_config \<Rightarrow> (rest_config \<Rightarrow> go_error + clientset) \<Rightarrow> operator op" where
  "main_setup debug_flag inClusterConfig newForConfig =
     then_go (main_config debug_flag)
       (case NewK8Manager inClusterConfig newForConfig of
          Inl err \<Rightarrow> raise_panic LogPanic
        | Inr k8Manager \<Rightarrow> ret (wire k8Manager))"

text \<open>On a signal.\<close>

definition main_shutdown :: "unit op" where
  "main_shutdown = modify (\<lambda>s. s\<lparr>inShutdown := True\<rparr>)"

section \<open>Configuration\<close>

definition config_ok :: "op_state \<Rightarrow> bool" where
  "config_ok s \<longleftrightarrow>
     2 \<le> maxMtnNodesPerPod s \<and> maxMtnNodesPerPod s \<le> 1500 \<and>
     2 \<le> maxRvrNodesPerPod s \<and> maxRvrNodesPerPod s \<le> 4000 \<and>
     10 \<le> newHardwareCheckPeriodSec s \<and> newHardwareCheckPeriodSec s \<le> 14400 \<and>
     10 \<le> heartbeatCheckPeriodSec s \<and> heartbeatCheckPeriodSec s \<le> 300 \<and>
     1 \<le> heartbeatStaleMinutes s \<and> heartbeatStaleMinutes s \<le> 60"

text \<open>The value a variable of the environment gives: the default when it is unset or no integer,
  else the integer moved into the range.\<close>

definition env_value :: "env \<Rightarrow> string \<Rightarrow> int \<Rightarrow> int \<Rightarrow> int \<Rightarrow> int" where
  "env_value e envVar outVar minVal maxVal =
     (if os_getenv e envVar = '''' then outVar
      else case Atoi (os_getenv e envVar) of None \<Rightarrow> outVar | Some v \<Rightarrow> min maxVal (max minVal v))"

lemma read_config_run:
  "minVal \<le> maxVal \<Longrightarrow> read_config envVar var upd minVal maxVal e s =
     (Ok (), upd (env_value e envVar (var s) minVal maxVal) s)"
  by (auto simp: read_config_def readSingleEnvVarInt_def env_value_def min_def max_def split: option.split)

lemma env_value_range:
  assumes "minVal \<le> outVar" and "outVar \<le> maxVal"
  shows "minVal \<le> env_value e envVar outVar minVal maxVal" "env_value e envVar outVar minVal maxVal \<le> maxVal"
  using assms by (auto simp: env_value_def split: option.split)

lemma main_config_run:
  "main_config flag e init_state =
     (Ok (), init_state\<lparr>debugOnly := flag \<or> os_getenv e ''DEBUG'' = ''TRUE'',
        maxMtnNodesPerPod := env_value e ''MAX_MTN_NODES_PER_POD'' 750 5 1500,
        maxRvrNodesPerPod := env_value e ''MAX_RVR_NODES_PER_POD'' 2000 5 4000,
        newHardwareCheckPeriodSec := env_value e ''HARDWARE_UPDATE_SEC_FREQ'' 30 10 14400,
        heartbeatCheckPeriodSec := env_value e ''HEARTBEAT_CHECK_SEC_FREQ'' 15 10 300,
        heartbeatStaleMinutes := env_value e ''HEARTBEAT_STALE_DURATION_MINUTES'' 3 1 60\<rparr>)"
  by (simp add: main_config_def then_go_run read_config_run init_state_def)

text \<open>C35: The configuration is sane whatever the environment says. For every content of the environment
  variables \<open>main\<close>'s configuration returns, every configured value is within the limits of its
  variable, and nothing but the configuration and the debug flag differs from the start values.\<close>

theorem main_config_sane:
  "\<exists>a b c d f. main_config flag e init_state =
      (Ok (), init_state\<lparr>debugOnly := flag \<or> os_getenv e ''DEBUG'' = ''TRUE'', maxMtnNodesPerPod := a,
         maxRvrNodesPerPod := b, newHardwareCheckPeriodSec := c, heartbeatCheckPeriodSec := d,
         heartbeatStaleMinutes := f\<rparr>) \<and>
    5 \<le> a \<and> a \<le> 1500 \<and> 5 \<le> b \<and> b \<le> 4000 \<and> 10 \<le> c \<and> c \<le> 14400 \<and> 10 \<le> d \<and> d \<le> 300 \<and> 1 \<le> f \<and> f \<le> 60"
  unfolding main_config_run
  by (intro exI conjI, rule refl) (simp_all add: env_value_range)

section \<open>Steps that leave cache, channel and inventory alone\<close>

definition quiet :: "op_state \<Rightarrow> op_state \<Rightarrow> bool" where
  "quiet s t \<longleftrightarrow> (config_ok s \<longrightarrow> config_ok t) \<and> nodeCache t = nodeCache s \<and>
     mountainCredsUpdateChannel t = mountainCredsUpdateChannel s \<and> emits no_inventory s t"

definition stays_quiet :: "'a op \<Rightarrow> bool" where
  "stays_quiet m \<longleftrightarrow> (\<forall>s. preserves (quiet s) m)"

lemma quiet_refl [simp]: "quiet s s"
  by (simp add: quiet_def)

lemma stays_quietD: "stays_quiet m \<Longrightarrow> m e s = (out, t) \<Longrightarrow> quiet s t"
  unfolding stays_quiet_def using preservesD [of "quiet s" m s e] by simp

text \<open>From a frame on the trace and the kind of calls.\<close>

lemma stays_quiet_frame:
  assumes "\<And>e s. \<exists>evs. snd (m e s) = s\<lparr>trace := trace s @ evs\<rparr>"
    and "\<And>s0. preserves (emits no_inventory s0) m"
  shows "stays_quiet m"
  unfolding stays_quiet_def
proof (intro allI preservesI)
  fix s0 e s
  assume q: "quiet s0 s"
  obtain evs where "snd (m e s) = s\<lparr>trace := trace s @ evs\<rparr>" using assms(1) by blast
  moreover have "emits no_inventory s0 (snd (m e s))"
    by (rule preservesD [OF assms(2)]) (use q in \<open>simp add: quiet_def\<close>)
  ultimately show "quiet s0 (snd (m e s))" using q by (simp add: quiet_def config_ok_def)
qed

named_theorems quiet_intros \<open>rules that establish that an operation stays quiet\<close>

lemma stays_quiet_basic [quiet_intros]:
  "stays_quiet (ret a)" "stays_quiet (gets f)" "stays_quiet (ask_env g)" "stays_quiet (raise_panic p)"
  by (simp_all add: stays_quiet_def preserves_def)

lemma stays_quiet_bind [quiet_intros]:
  "stays_quiet m \<Longrightarrow> (\<And>a. stays_quiet (f a)) \<Longrightarrow> stays_quiet (bind_go m f)"
  unfolding stays_quiet_def by (blast intro: preserves_bind)

lemma stays_quiet_then [quiet_intros]:
  "stays_quiet m \<Longrightarrow> stays_quiet n \<Longrightarrow> stays_quiet (then_go m n)"
  by (simp add: then_go_def stays_quiet_bind)

lemma stays_quiet_if [quiet_intros]:
  "(b \<Longrightarrow> stays_quiet m) \<Longrightarrow> (\<not> b \<Longrightarrow> stays_quiet n) \<Longrightarrow> stays_quiet (if b then m else n)"
  by simp

lemma stays_quiet_case_option [quiet_intros]:
  "stays_quiet m \<Longrightarrow> (\<And>x. stays_quiet (f x)) \<Longrightarrow> stays_quiet (case v of None \<Rightarrow> m | Some x \<Rightarrow> f x)"
  by (cases v) auto

lemma stays_quiet_case_sum [quiet_intros]:
  "(\<And>x. stays_quiet (f x)) \<Longrightarrow> (\<And>y. stays_quiet (g y)) \<Longrightarrow>
     stays_quiet (case v of Inl x \<Rightarrow> f x | Inr y \<Rightarrow> g y)"
  by (cases v) auto

lemma stays_quiet_case_prod [quiet_intros]:
  "(\<And>a b. stays_quiet (f a b)) \<Longrightarrow> stays_quiet (case v of (a, b) \<Rightarrow> f a b)"
  by (cases v) auto

lemma stays_quiet_for_range [quiet_intros]:
  "(\<And>x acc. stays_quiet (body x acc)) \<Longrightarrow> stays_quiet (for_range xs acc body)"
  by (induction xs arbitrary: acc) (auto intro: quiet_intros)

lemma stays_quiet_modify:
  "(\<And>s. nodeCache (f s) = nodeCache s \<and> mountainCredsUpdateChannel (f s) = mountainCredsUpdateChannel s \<and>
     trace (f s) = trace s \<and> (config_ok s \<longrightarrow> config_ok (f s))) \<Longrightarrow> stays_quiet (modify f)"
  by (auto simp: stays_quiet_def preserves_def quiet_def emits_def)

lemma stays_quiet_syscall: "no_inventory ev \<Longrightarrow> stays_quiet (syscall ev answer)"
  by (rule stays_quiet_frame) (auto intro: emits_syscall)

lemma stays_quiet_urls:
  "stays_quiet (getURL u hs)"
  "u \<noteq> inventory_URL \<Longrightarrow> stays_quiet (postURL u b hs)"
  "u \<noteq> inventory_URL \<Longrightarrow> stays_quiet (deleteURL u b hs)"
  by (rule stays_quiet_frame, force simp: get.call_run post.call_run delete.call_run,
      rule url_emits, simp add: no_inventory_def)+

lemma stays_quiet_send_error [quiet_intros]: "stays_quiet (send_error w sc b err a)"
  unfolding send_error_def by (intro quiet_intros)

lemma stays_quiet_k8s [quiet_intros]:
  "stays_quiet (k8_getReplicaCount (K8Manager_service k8s))"
  "stays_quiet (k8_getPodLocationAlias (K8Manager_service k8s) podID)"
  by (rule stays_quiet_frame, rule k8m.getReplicaCount_frame,
      rule emits_weaken [OF k8m.getReplicaCount_no_http], erule no_inventory_local)
    (rule stays_quiet_frame, rule k8m.getPodLocationAlias_frame,
      rule emits_weaken [OF k8m.getPodLocationAlias_no_http], erule no_inventory_local)

lemma stays_quiet_sls [quiet_intros]: "stays_quiet (sls_getXnameAlias (SlsManager_service sls))"
  by (rule stays_quiet_frame, rule slsm.getXnameAlias_frame,
      rule emits_weaken [OF slsm.getXnameAlias_reads], erule read_only_no_inventory)

lemma stays_quiet_pod [quiet_intros]: "stays_quiet (getNodePodForXname xn)"
  unfolding getNodePodForXname_def by (intro quiet_intros stays_quiet_urls)

lemma stays_quiet_rounds [quiet_intros]: "stays_quiet heartbeat_round" "stays_quiet zombie_round"
  "stays_quiet main_shutdown"
proof -
  have "dataAddrBase @ ''/consolepod/'' @ x \<noteq> inventory_URL" for x by (simp add: inventory_URL_def)
  then show "stays_quiet heartbeat_round"
    unfolding heartbeat_round_def by (intro quiet_intros stays_quiet_urls stays_quiet_syscall) simp_all
  show "stays_quiet zombie_round"
    unfolding zombie_round_def findZombies_def killZombie_def
    by (intro quiet_intros stays_quiet_syscall) simp_all
  show "stays_quiet main_shutdown"
    unfolding main_shutdown_def by (rule stays_quiet_modify) (simp add: config_ok_def)
qed

lemma stays_quiet_handlers [quiet_intros]:
  "stays_quiet (doLiveness r w)" "stays_quiet (doReadiness r w)" "stays_quiet (doHealth r w)"
  "stays_quiet (doGetNodePod r w)" "stays_quiet (doGetCurrentTargets r w)"
  "stays_quiet (doGetPodLocation (NewDataManager (K8Manager_service k8s) (SlsManager_service sls)) r w)"
  "stays_quiet (doGetPodReplicaCount (NewDataManager (K8Manager_service k8s) sls') r w)"
  unfolding doLiveness_def doReadiness_def doHealth_def getCurrentHealth_def doGetNodePod_def
    doGetCurrentTargets_def doGetPodLocation_def doGetPodReplicaCount_def Let_def
    NewDataManager_def dataManager.simps
  by (intro quiet_intros)+

lemma stays_quiet_debug [quiet_intros]:
  "stays_quiet (doSuspend r w)" "stays_quiet (doResume r w)" "stays_quiet (doSetMaxNodesPerPod r w)"
  "stays_quiet (doInfo (NewDebugManager (DataManager_service dm) (HealthManager_service hm)) r w)"
proof -
  show "stays_quiet (doSuspend r w)" "stays_quiet (doResume r w)"
    unfolding doSuspend_def doResume_def
    by (intro quiet_intros stays_quiet_modify; simp add: config_ok_def)+
  show "stays_quiet (doSetMaxNodesPerPod r w)"
    unfolding doSetMaxNodesPerPod_def
    by (intro quiet_intros stays_quiet_modify) (auto simp: config_ok_def pinNumNodes_clamp min_def)
  show "stays_quiet (doInfo (NewDebugManager (DataManager_service dm) (HealthManager_service hm)) r w)"
    unfolding doInfo_def tally_node_def NewDebugManager_def debugManager.simps DataManager_service_def
      HealthManager_service_def dataService.simps healthService.simps getCurrentHealth_def Let_def
    by (intro quiet_intros)
qed

lemma stays_quiet_timeout [quiet_intros]: "stays_quiet (creds_timeout m)"
proof -
  have "scsd_URL \<noteq> inventory_URL" by (simp add: scsd_URL_def inventory_URL_def dataAddrBase_def)
  then show ?thesis
    unfolding creds_timeout_def doMountainCredsUpdate_def deployMountainConsoleKeys_def Let_def
    by (intro quiet_intros stays_quiet_urls stays_quiet_syscall) simp_all
qed

abbreviation wired_dm :: "k8Manager \<Rightarrow> dataManager" where
  "wired_dm k8s \<equiv> NewDataManager (K8Manager_service k8s) (SlsManager_service NewSlsManager)"

lemma service_handlers:
  "ds_doGetNodePod (DataManager_service dm) = doGetNodePod"
  "ds_doGetPodLocation (DataManager_service dm) = doGetPodLocation dm"
  "ds_doGetPodReplicaCount (DataManager_service dm) = doGetPodReplicaCount dm"
  "ds_doGetCurrentTargets (DataManager_service dm) = doGetCurrentTargets"
  "hs_doLiveness (HealthManager_service hm) = doLiveness"
  "hs_doReadiness (HealthManager_service hm) = doReadiness"
  "hs_doHealth (HealthManager_service hm) = doHealth"
  "dbs_doInfo (DebugManager_service dbg) = doInfo dbg"
  "dbs_doClearData (DebugManager_service dbg) = doClearData dbg"
  "dbs_doSuspend (DebugManager_service dbg) = doSuspend"
  "dbs_doResume (DebugManager_service dbg) = doResume"
  "dbs_doSetMaxNodesPerPod (DebugManager_service dbg) = doSetMaxNodesPerPod"
  by (simp_all add: DataManager_service_def HealthManager_service_def DebugManager_service_def)

text \<open>The pattern under which the clear handler is registered.\<close>

abbreviation clear_pattern :: string where
  "clear_pattern \<equiv> ''/console-operator/clearData''"

lemma routes_quiet:
  assumes "rt \<in> set (op_routes (wire k8s))" and "rt_pattern rt \<noteq> clear_pattern"
  shows "stays_quiet (rt_handler rt r w)"
  using assms unfolding wire_def operator_routes_def setupRoutes_def Let_def
  by (auto simp: service_handlers quiet_intros)

lemma wire_services [simp]:
  "op_ds (wire k8s) = DataManager_service (wired_dm k8s)"
  "op_ns (wire k8s) = NewNodeManager (K8Manager_service k8s)"
  by (simp_all add: wire_def Let_def)

text \<open>Reading the inventory, and sizing the pods, are quiet too.\<close>

lemma stays_quiet_begin [quiet_intros]: "stays_quiet (begin_update (NewNodeManager (K8Manager_service k8s)))"
proof -
  have "stays_quiet (ns_getCurrentNodesFromHSM (NewNodeManager (K8Manager_service k8s)))"
    by (rule stays_quiet_frame, rule k8m.getCurrentNodes_frame,
        rule emits_weaken [OF k8m.getCurrentNodes_reads], erule read_only_no_inventory)
  then show ?thesis
    unfolding begin_update_def
    by (intro quiet_intros stays_quiet_syscall stays_quiet_modify) (simp_all add: config_ok_def)
qed

lemma size_quiet:
  assumes "size_and_keys (NewNodeManager (K8Manager_service k8s)) ok new e s = (Ok (ok', toSend), t)"
  shows "quiet s t" and "ok' = ok" and "list_all isMountain toSend"
proof -
  note f = hw.size_and_keys_ok [OF assms]
  from f(1,2,5) show "quiet s t"
    by (simp add: quiet_def same_cache_def config_ok_def sizing_only_def)
  from f(3) show "ok' = ok" .
  from f(4) show "list_all isMountain toSend" by (simp add: list_all_iff)
qed

end
