(* ===== verification/Running.thy ===== *)
theory Running
  imports Operator_Main
begin

text \<open>
  The running operator. The goroutines are a step relation over the globals, the position of the
  hardware watcher, the batch of the key worker and the clear requests under way. A step is the
  run of one goroutine up to its next call of another service, sleep, receive or send on the
  bounded channel, as far as the order of these matters for the state: the watcher stops between
  its queries, its upload, its removal, the new cache, the sizing and each send, and a clear request stops
  between emptying the cache and the removal. The other goroutines and requests touch no variable
  that another one writes while they wait, so each of their rounds is one step. Steps of
  different goroutines interleave in any order.
\<close>

section \<open>States and steps\<close>

text \<open>Where the hardware watcher is: at the top of its loop; with the nodes of HSM; with the answer to
  the upload; after the removal; with the new cache stored; sending the rest of the new Mountain
  nodes. The number is the countdown to the next full update.\<close>

datatype watcher =
    Idle int
  | Fetched int "nodeConsoleInfo list"
  | Uploaded int "nodeConsoleInfo list" bool "nodeConsoleInfo list" "nodeConsoleInfo list"
  | Removed int "nodeConsoleInfo list" bool "nodeConsoleInfo list"
  | Stored int bool "nodeConsoleInfo list"
  | Sending int bool "nodeConsoleInfo list"

record sys =
  globals :: op_state
  hw_state :: watcher
  creds_batch :: "(string, nodeConsoleInfo) gomap"
  clearing :: "nodeConsoleInfo list list"

abbreviation st ::
    "op_state \<Rightarrow> watcher \<Rightarrow> (string, nodeConsoleInfo) gomap \<Rightarrow> nodeConsoleInfo list list \<Rightarrow> sys" where
  "st g h b c \<equiv> \<lparr>globals = g, hw_state = h, creds_batch = b, clearing = c\<rparr>"

definition sleep_event :: "op_state \<Rightarrow> op_state" where
  "sleep_event s = s\<lparr>trace := trace s @ [TimeSleep (newHardwareCheckPeriodSec s)]\<rparr>"

inductive sys_step :: "env \<Rightarrow> k8Manager \<Rightarrow> sys \<Rightarrow> sys \<Rightarrow> bool" for e k8s where
  hw_fetch:
    "begin_update (op_ns (wire k8s)) e g = (Ok nodes, g') \<Longrightarrow> \<not> inShutdown g \<Longrightarrow>
     sys_step e k8s (st g (Idle cnt) b c) (st g' (Fetched cnt nodes) b c)"
| hw_suspended:
    "inShutdown g \<Longrightarrow> sys_step e k8s (st g (Idle cnt) b c) (st (sleep_event g) (Idle cnt) b c)"
| hw_upload:
    "upload_nodes (op_ds (wire k8s)) (cnt = 0) nodes e g = (Ok (ok, new, removed), g') \<Longrightarrow>
     sys_step e k8s (st g (Fetched cnt nodes) b c) (st g' (Uploaded cnt nodes ok new removed) b c)"
| hw_remove:
    "remove_gone (op_ds (wire k8s)) removed e g = (Ok (), g') \<Longrightarrow>
     sys_step e k8s (st g (Uploaded cnt nodes ok new removed) b c) (st g' (Removed cnt nodes ok new) b c)"
| hw_store:
    "store_cache nodes ok e g = (Ok (), g') \<Longrightarrow>
     sys_step e k8s (st g (Removed cnt nodes ok new) b c) (st g' (Stored cnt ok new) b c)"
| hw_size:
    "size_and_keys (op_ns (wire k8s)) ok new e g = (Ok (ok', toSend), g') \<Longrightarrow>
     sys_step e k8s (st g (Stored cnt ok new) b c) (st g' (Sending cnt ok' toSend) b c)"
| hw_send:
    "send_creds n e g = (Ok (), g') \<Longrightarrow> length (mountainCredsUpdateChannel g) < channel_capacity \<Longrightarrow>
     sys_step e k8s (st g (Sending cnt ok (n # ns)) b c) (st g' (Sending cnt ok ns) b c)"
| hw_sleep:
    "sys_step e k8s (st g (Sending cnt ok []) b c) (st (sleep_event g) (Idle (next_force ok cnt)) b c)"
| creds_recv:
    "creds_receive b e g = (Ok b', g') \<Longrightarrow> mountainCredsUpdateChannel g \<noteq> [] \<Longrightarrow>
     sys_step e k8s (st g h b c) (st g' h b' c)"
| creds_idle:
    "creds_timeout b e g = (Ok b', g') \<Longrightarrow> sys_step e k8s (st g h b c) (st g' h b' c)"
| heartbeat:
    "heartbeat_round e g = (Ok (), g') \<Longrightarrow> sys_step e k8s (st g h b c) (st g' h b c)"
| zombies:
    "zombie_round e g = (Ok (), g') \<Longrightarrow> sys_step e k8s (st g h b c) (st g' h b c)"
| clear_start:
    "begin_clear e g = (Ok rn, g') \<Longrightarrow> sys_step e k8s (st g h b c) (st g' h b (rn # c))"
| clear_finish:
    "ds_dataRemoveNodes (op_ds (wire k8s)) rn e g = (Ok (), g') \<Longrightarrow>
     sys_step e k8s (st g h b (c1 @ rn # c2)) (st g' h b (c1 @ c2))"
| http_request:
    "rt \<in> set (op_routes (wire k8s)) \<Longrightarrow> rt_pattern rt \<noteq> clear_pattern \<Longrightarrow>
     rt_handler rt r new_writer e g = (out, g') \<Longrightarrow>
     sys_step e k8s (st g h b c) (st g' h b c)"
| os_signal:
    "main_shutdown e g = (Ok (), g') \<Longrightarrow> sys_step e k8s (st g h b c) (st g' h b c)"

inductive reachable :: "env \<Rightarrow> k8Manager \<Rightarrow> sys \<Rightarrow> bool" for e k8s where
  start: "main_config flag e init_state = (Ok (), g) \<Longrightarrow> reachable e k8s (st g (Idle 0) [] [])"
| step: "reachable e k8s x \<Longrightarrow> sys_step e k8s x y \<Longrightarrow> reachable e k8s y"

inductive_cases idle_stepE: "sys_step e k8s (st g (Idle cnt) b c) y"

section \<open>The invariant of the running program\<close>

definition watcher_ok :: "watcher \<Rightarrow> bool" where
  "watcher_ok h = (case h of
     Idle cnt \<Rightarrow> cnt \<in> {0..10}
   | Fetched cnt nodes \<Rightarrow> cnt \<in> {0..10}
   | Uploaded cnt nodes ok new removed \<Rightarrow> cnt \<in> {0..10}
   | Removed cnt nodes ok new \<Rightarrow> cnt \<in> {0..10}
   | Stored cnt ok new \<Rightarrow> cnt \<in> {0..10}
   | Sending cnt ok ns \<Rightarrow> cnt \<in> {0..10} \<and> list_all isMountain ns)"

definition sys_inv :: "sys \<Rightarrow> bool" where
  "sys_inv x \<longleftrightarrow>
     config_ok (globals x) \<and> keyed_by NodeName (nodeCache (globals x)) \<and>
     length (mountainCredsUpdateChannel (globals x)) \<le> channel_capacity \<and>
     list_all isMountain (mountainCredsUpdateChannel (globals x)) \<and>
     keyed_by NodeName (creds_batch x) \<and> list_all isMountain (map_values (creds_batch x)) \<and>
     watcher_ok (hw_state x)"

lemma next_force_range: "cnt \<in> {0..10} \<Longrightarrow> next_force ok cnt \<in> {0..10}"
  by (simp add: next_force_def Let_def)

lemma next_force_ok: "next_force ok cnt \<noteq> 0 \<Longrightarrow> ok"
  by (cases ok) (simp_all add: next_force_def)

lemma sys_inv_quiet:
  assumes "sys_inv (st g h b c)" and "quiet g g'"
  shows "sys_inv (st g' h b c')"
  using assms by (simp add: sys_inv_def quiet_def)

lemma sys_inv_watcher: "sys_inv (st g h b c) \<Longrightarrow> watcher_ok h' \<Longrightarrow> sys_inv (st g h' b c)"
  by (simp add: sys_inv_def)

lemma quiet_sleep: "quiet g (sleep_event g)"
  by (simp add: quiet_def sleep_event_def emits_def config_ok_def)

text \<open>What the stretches that are not quiet do to the globals.\<close>

lemma upload_frame:
  assumes "upload_nodes (DataManager_service dm) updateAll nodes e g = (Ok (ok, new, removed), g')"
  shows "\<exists>evs. g' = g\<lparr>trace := trace g @ evs\<rparr>"
proof -
  obtain ok' new' gone' evs where "upload_nodes (DataManager_service dm) updateAll nodes e g =
      (Ok (ok', new', gone'), g\<lparr>trace := trace g @ evs\<rparr>)"
    using hw.upload_run [OF refl refl refl] by blast
  with assms show ?thesis by auto
qed

lemma remove_frame:
  assumes "remove_gone (DataManager_service dm) removed e g = (Ok (), g')"
  shows "\<exists>evs. g' = g\<lparr>trace := trace g @ evs\<rparr>"
proof -
  obtain evs where "remove_gone (DataManager_service dm) removed e g = (Ok (), g\<lparr>trace := trace g @ evs\<rparr>)"
    using hw.remove_phase by blast
  with assms show ?thesis by auto
qed

lemma store_frame:
  "store_cache nodes ok e g = (Ok (), g') \<Longrightarrow>
     g' = g\<lparr>nodeCache := (if ok then index_by NodeName nodes else nodeCache g)\<rparr>"
  by (simp add: store_cache_run)

lemma clear_start_run: "begin_clear e g = (Ok (map_values (nodeCache g)), g\<lparr>nodeCache := []\<rparr>)"
  by (simp add: begin_clear_def)

lemma clear_finish_frame:
  assumes "ds_dataRemoveNodes (DataManager_service dm) rn e g = (Ok (), g')"
  shows "\<exists>evs. g' = g\<lparr>trace := trace g @ evs\<rparr>"
proof -
  obtain evs where "ds_dataRemoveNodes (DataManager_service dm) rn e g = (Ok (), g\<lparr>trace := trace g @ evs\<rparr>)"
    using dsm.remove_nodes by blast
  with assms show ?thesis by auto
qed

lemma list_all_set:
  "list_all P (map_values m) \<Longrightarrow> P v \<Longrightarrow> list_all P (map_values (map_set k v m))"
  by (induction m) auto

lemma creds_receive_inv:
  assumes "creds_receive b e g = (Ok b', g')" and "sys_inv (st g h b c)"
  shows "sys_inv (st g' h b' c)"
  using assms
  by (auto simp: creds_receive_def sys_inv_def config_ok_def keyed_by_set list_all_set
      split: list.splits)

lemma creds_timeout_filter:
  assumes "wf_map m" and "creds_timeout m e g = (Ok m', g')"
  shows "\<exists>P. m' = filter P m"
proof (cases "m = []")
  case True
  with assms(2) show ?thesis by (simp add: creds_timeout_def)
next
  case False
  let ?P = "\<lambda>(k, n). \<not> acknowledged (creds_answer m e g) (BmcName n)"
  have "m' = filter ?P m"
    using assms False
    by (auto simp: creds_timeout_def bind_go_run doMountainCredsUpdate_run split: if_splits)
  then show ?thesis by blast
qed

lemma creds_timeout_inv:
  assumes "creds_timeout b e g = (Ok b', g')" and "sys_inv (st g h b c)"
  shows "sys_inv (st g' h b' c)"
proof -
  have "quiet g g'" using stays_quietD [OF stays_quiet_timeout assms(1)] .
  moreover have "wf_map b" using assms(2) by (simp add: sys_inv_def keyed_by_def)
  then obtain P where "b' = filter P b" using creds_timeout_filter assms(1) by blast
  ultimately show ?thesis
    using assms(2) keyed_by_filter [of NodeName b P] by (auto simp: sys_inv_def quiet_def list_all_iff)
qed

lemma creds_receive_frame:
  "creds_receive b e g = (Ok b', g') \<Longrightarrow> nodeCache g' = nodeCache g \<and> trace g' = trace g"
  by (auto simp: creds_receive_def split: list.splits)

lemma send_run:
  "length (mountainCredsUpdateChannel g) < channel_capacity \<Longrightarrow>
     send_creds n e g = (Ok (), g\<lparr>mountainCredsUpdateChannel := mountainCredsUpdateChannel g @ [n]\<rparr>)"
  by (simp add: send_creds_def send_one_def)

lemma send_frame:
  "send_creds n e g = (Ok (), g') \<Longrightarrow> length (mountainCredsUpdateChannel g) < channel_capacity \<Longrightarrow> nodeCache g' = nodeCache g \<and> trace g' = trace g \<and>
     mountainCredsUpdateChannel g' = mountainCredsUpdateChannel g @ [n]"
  by (auto simp: send_run)

text \<open>The steps that are quiet for the globals and keep batch, watcher and clear requests.\<close>

lemmas quiet_steps =
  stays_quietD [OF stays_quiet_rounds(1)] stays_quietD [OF stays_quiet_rounds(2)]
  stays_quietD [OF stays_quiet_rounds(3)] stays_quietD [OF routes_quiet]

lemma sys_step_inv:
  assumes "sys_step e k8s x y" and "sys_inv x"
  shows "sys_inv y"
  using assms
proof (induction rule: sys_step.induct)
  case (hw_fetch g nodes g' cnt b c)
  then have "quiet g g'" using stays_quietD [OF stays_quiet_begin] by simp
  from sys_inv_quiet [OF hw_fetch(3) this] hw_fetch(3) show ?case
    by (simp add: sys_inv_def watcher_ok_def)
next
  case (hw_suspended g cnt b c)
  show ?case using sys_inv_quiet [OF hw_suspended(2) quiet_sleep] .
next
  case (hw_upload cnt nodes g ok new removed g' b c)
  then obtain evs where "g' = g\<lparr>trace := trace g @ evs\<rparr>" using upload_frame [OF hw_upload(1) [unfolded wire_services]] by blast
  with hw_upload(2) show ?case by (simp add: sys_inv_def watcher_ok_def config_ok_def)
next
  case (hw_remove removed g g' cnt nodes ok new b c)
  then obtain evs where "g' = g\<lparr>trace := trace g @ evs\<rparr>" using remove_frame [OF hw_remove(1) [unfolded wire_services]] by blast
  with hw_remove(2) show ?case by (simp add: sys_inv_def watcher_ok_def config_ok_def)
next
  case (hw_store nodes ok g g' cnt new b c)
  from store_frame [OF hw_store(1)] hw_store(2) show ?case by (simp add: sys_inv_def watcher_ok_def config_ok_def)
next
  case (hw_size ok new g ok' toSend g' cnt b c)
  note s = size_quiet [OF hw_size(1) [unfolded wire_services]]
  from sys_inv_quiet [OF hw_size(2) s(1)] s(3) show ?case by (simp add: sys_inv_def watcher_ok_def)
next
  case (hw_send n g g' cnt ok ns b c)
  then show ?case by (auto simp: send_run sys_inv_def watcher_ok_def config_ok_def)
next
  case (hw_sleep g cnt ok b c)
  then show ?case
    using sys_inv_quiet [OF hw_sleep quiet_sleep] next_force_range [of cnt ok]
    by (simp add: sys_inv_def watcher_ok_def)
next
  case (creds_recv b g b' g' h c)
  then show ?case using creds_receive_inv by blast
next
  case (creds_idle b g b' g' h c)
  then show ?case using creds_timeout_inv by blast
next
  case (clear_start g rn g' h b c)
  then show ?case by (auto simp: clear_start_run sys_inv_def config_ok_def)
next
  case (clear_finish rn g g' h b c1 c2)
  then obtain evs where "g' = g\<lparr>trace := trace g @ evs\<rparr>" using clear_finish_frame [OF clear_finish(1) [unfolded wire_services]] by blast
  with clear_finish(2) show ?case by (simp add: sys_inv_def config_ok_def)
qed (rule sys_inv_quiet, assumption, rule quiet_steps, assumption+)+

lemma start_state:
  assumes "main_config flag e init_state = (Ok (), g)"
  shows "config_ok g" and "nodeCache g = []" and "mountainCredsUpdateChannel g = []" and "trace g = []"
proof -
  have "env_value e v d lo hi \<ge> 2" if "5 \<le> lo" "lo \<le> d" "d \<le> hi" for v d lo hi
    using env_value_range(1) [OF that(2,3), of e v] that(1) by linarith
  then show "config_ok g"
    using assms by (auto simp: main_config_run config_ok_def env_value_range)
  show "nodeCache g = []" and "mountainCredsUpdateChannel g = []" and "trace g = []"
    using assms unfolding main_config_run by (auto simp: init_state_def)
qed

lemma reachable_inv: "reachable e k8s x \<Longrightarrow> sys_inv x"
proof (induction rule: reachable.induct)
  case (start flag g)
  from start_state [OF this] show ?case by (simp add: sys_inv_def watcher_ok_def)
next
  case (step x y)
  then show ?case using sys_step_inv by blast
qed

lemma reachable_steps:
  assumes "reachable e k8s x" and "(sys_step e k8s)\<^sup>*\<^sup>* x y"
  shows "reachable e k8s y"
  using assms(2,1) by (induction rule: rtranclp_induct) (auto intro: reachable.step)

section \<open>Cache and console-data\<close>

abbreviation names :: "nodeConsoleInfo list \<Rightarrow> string set" where
  "names ns \<equiv> NodeName ` set ns"

text \<open>The names console-data holds, when it was empty at the start, and the names in the cache.\<close>

definition catalog :: "env \<Rightarrow> op_state \<Rightarrow> string set" where
  "catalog e g = dom (inventory_after Map.empty e (trace g))"

abbreviation cached :: "op_state \<Rightarrow> string set" where
  "cached g \<equiv> set (map_keys (nodeCache g))"

text \<open>The names that are in console-data before they are in the cache, and those that a clear request
  has taken out of the cache but not yet out of console-data.\<close>

definition in_flight :: "watcher \<Rightarrow> string set" where
  "in_flight h = (case h of
     Uploaded cnt nodes ok new removed \<Rightarrow> if ok then names nodes else {}
   | Removed cnt nodes ok new \<Rightarrow> if ok then names nodes else {}
   | _ \<Rightarrow> {})"

definition to_clear :: "nodeConsoleInfo list list \<Rightarrow> string set" where
  "to_clear c = (\<Union>rn \<in> set c. names rn)"

definition covered :: "env \<Rightarrow> sys \<Rightarrow> bool" where
  "covered e x \<longleftrightarrow>
     catalog e (globals x) \<subseteq> cached (globals x) \<union> in_flight (hw_state x) \<union> to_clear (clearing x) \<and>
     (case hw_state x of
        Uploaded cnt nodes ok new removed \<Rightarrow> cached (globals x) - names nodes \<subseteq> names removed
      | Removed cnt nodes ok new \<Rightarrow> ok \<longrightarrow> catalog e (globals x) \<subseteq> names nodes \<union> to_clear (clearing x)
      | _ \<Rightarrow> True)"

text \<open>With no clear request under way: what is uploaded is there, and after storing, console-data is
  exact unless the upload failed.\<close>

definition exact :: "env \<Rightarrow> sys \<Rightarrow> bool" where
  "exact e x \<longleftrightarrow> clearing x = [] \<and> (case hw_state x of
     Idle cnt \<Rightarrow> cnt \<noteq> 0 \<longrightarrow> catalog e (globals x) = cached (globals x)
   | Fetched cnt nodes \<Rightarrow> cnt \<noteq> 0 \<longrightarrow> catalog e (globals x) = cached (globals x)
   | Uploaded cnt nodes ok new removed \<Rightarrow>
       names removed = cached (globals x) - names nodes \<and> (ok \<longrightarrow> names nodes \<subseteq> catalog e (globals x))
   | Removed cnt nodes ok new \<Rightarrow> ok \<longrightarrow> catalog e (globals x) = names nodes
   | Stored cnt ok new \<Rightarrow> ok \<longrightarrow> catalog e (globals x) = cached (globals x)
   | Sending cnt ok ns \<Rightarrow> ok \<longrightarrow> catalog e (globals x) = cached (globals x))"

lemma quiet_catalog:
  assumes "quiet g g'"
  shows "catalog e g' = catalog e g" and "nodeCache g' = nodeCache g"
  using assms dsm.inv_emits [of g g' Map.empty e] by (simp_all add: catalog_def quiet_def)

lemma covered_quiet: "covered e (st g h b c) \<Longrightarrow> quiet g g' \<Longrightarrow> covered e (st g' h b' c)"
  using quiet_catalog [of g g'] by (cases h) (simp_all add: covered_def)

lemma exact_quiet: "exact e (st g h b c) \<Longrightarrow> quiet g g' \<Longrightarrow> exact e (st g' h b' c)"
  using quiet_catalog [of g g'] by (cases h) (simp_all add: exact_def)

lemma docs_names: "dom (docs_of ns) = names ns"
  by simp

text \<open>The upload and the removals, seen from the names.\<close>

lemma upload_catalog:
  assumes "upload_nodes (DataManager_service dm) updateAll nodes e g = (Ok (ok, new, removed), g')"
    and "keyed_by NodeName (nodeCache g)"
  shows "cached g' = cached g" and "names removed = cached g - names nodes"
    and "catalog e g' = catalog e g \<union> (if ok then if updateAll then names nodes else names nodes - cached g else {})"
proof -
  let ?new = "filter (\<lambda>n. \<not> has_key (nodeCache g) (NodeName n)) nodes"
    and ?gone = "filter (\<lambda>n. NodeName n \<notin> names nodes) (map_values (nodeCache g))"
  obtain ok' evs where run: "upload_nodes (DataManager_service dm) updateAll nodes e g =
      (Ok (ok', ?new, ?gone), g\<lparr>trace := trace g @ evs\<rparr>)"
    and iv: "inventory_after Map.empty e (trace g @ evs) = inventory_after Map.empty e (trace g) ++
      (if ok' then docs_of (if updateAll then nodes else ?new) else Map.empty)"
    using hw.upload_run [OF refl refl refl] by blast
  from run assms(1) have eq: "ok' = ok" "new = ?new" "removed = ?gone" "g' = g\<lparr>trace := trace g @ evs\<rparr>" by simp_all
  then show "cached g' = cached g" by simp
  show "names removed = cached g - names nodes" unfolding eq(3) by (rule gone_names [OF assms(2)])
  have "names ?new = names nodes - cached g" by (auto simp: has_key_iff)
  then have "dom (docs_of (if updateAll then nodes else ?new)) = (if updateAll then names nodes else names nodes - cached g)"
    by (simp only: docs_names if_distrib [of dom] if_distrib [of docs_of])
  with iv eq show "catalog e g' = catalog e g \<union> (if ok then if updateAll then names nodes else names nodes - cached g else {})"
    unfolding catalog_def by (cases ok) (simp_all del: dom_docs_of add: Un_commute)
qed

lemma index_names: "set (map_keys (index_by NodeName nodes)) = names nodes"
  using has_key_index_by [of NodeName nodes] by (auto simp: has_key_iff)

lemma remove_catalog:
  assumes "remove_gone (DataManager_service dm) removed e g = (Ok (), g')" and "deletes_accepted e"
  shows "nodeCache g' = nodeCache g" and "catalog e g' = catalog e g - names removed"
proof -
  obtain gone evs where run: "remove_gone (DataManager_service dm) removed e g = (Ok (), g\<lparr>trace := trace g @ evs\<rparr>)"
    and iv: "inventory_after Map.empty e (trace g @ evs) =
      inventory_after Map.empty e (trace g) |` (if gone then - names removed else UNIV)"
    and "deletes_accepted e \<longrightarrow> gone"
    using hw.remove_phase by blast
  then have g: "gone" using assms(2) by blast
  from run assms(1) have eq: "g' = g\<lparr>trace := trace g @ evs\<rparr>" by simp
  then show "nodeCache g' = nodeCache g" by simp
  from eq iv g show "catalog e g' = catalog e g - names removed" by (simp add: catalog_def Diff_eq)
qed

lemma store_catalog:
  assumes "store_cache nodes ok e g = (Ok (), g')"
  shows "cached g' = (if ok then names nodes else cached g)" and "catalog e g' = catalog e g"
  using store_frame [OF assms] index_names by (simp_all add: catalog_def)

lemma clear_catalog:
  assumes "ds_dataRemoveNodes (DataManager_service dm) rn e g = (Ok (), g')" and "deletes_accepted e"
  shows "nodeCache g' = nodeCache g" and "catalog e g' = catalog e g - names rn"
proof -
  obtain gone evs where run: "ds_dataRemoveNodes (DataManager_service dm) rn e g = (Ok (), g\<lparr>trace := trace g @ evs\<rparr>)"
    and iv: "inventory_after Map.empty e (trace g @ evs) = (if gone
      then inventory_after Map.empty e (trace g) |` (- names rn) else inventory_after Map.empty e (trace g))"
    and "deletes_accepted e \<longrightarrow> gone"
    using dsm.remove_nodes by blast
  then have g: "gone" using assms(2) by blast
  from run assms(1) have eq: "g' = g\<lparr>trace := trace g @ evs\<rparr>" by simp
  then show "nodeCache g' = nodeCache g" by simp
  from eq iv g show "catalog e g' = catalog e g - names rn" by (simp add: catalog_def Diff_eq)
qed

lemma store_covers:
  "I \<subseteq> C \<union> (if ok then N else {}) \<union> K \<Longrightarrow> C - N \<subseteq> R \<Longrightarrow> I - R \<subseteq> (if ok then N else C) \<union> K"
  by (auto split: if_splits)

lemma store_exact: "I \<subseteq> C \<union> N \<Longrightarrow> N \<subseteq> I \<Longrightarrow> I - (C - N) = N"
  by auto

lemma sys_step_covered:
  assumes "sys_step e k8s x y" and "deletes_accepted e" and "sys_inv x" and "covered e x"
  shows "covered e y"
  using assms
proof (induction rule: sys_step.induct)
  case (hw_fetch g nodes g' cnt b c)
  then have "quiet g g'" using stays_quietD [OF stays_quiet_begin] by simp
  from covered_quiet [OF hw_fetch(5) this] show ?case by (simp add: covered_def in_flight_def)
next
  case (hw_suspended g cnt b c)
  show ?case using covered_quiet [OF hw_suspended(4) quiet_sleep] .
next
  case (hw_upload cnt nodes g ok new removed g' b c)
  then have "keyed_by NodeName (nodeCache g)" by (simp add: sys_inv_def)
  note up = upload_catalog [OF hw_upload(1) [unfolded wire_services] this]
  from hw_upload(4) have "catalog e g \<subseteq> cached g \<union> to_clear c" by (simp add: covered_def in_flight_def)
  with up show ?case unfolding covered_def in_flight_def by (auto split: if_splits)
next
  case (hw_remove removed g g' cnt nodes ok new b c)
  note rm = remove_catalog [OF hw_remove(1) [unfolded wire_services] hw_remove(2)]
  from hw_remove(4) have "catalog e g \<subseteq> cached g \<union> (if ok then names nodes else {}) \<union> to_clear c"
    and "cached g - names nodes \<subseteq> names removed"
    by (simp_all add: covered_def in_flight_def)
  from store_covers [OF this] this(1) rm show ?case
    by (cases ok) (auto simp: covered_def in_flight_def)
next
  case (hw_store nodes ok g g' cnt new b c)
  from hw_store(4) have "catalog e g \<subseteq> (if ok then names nodes else cached g) \<union> to_clear c"
    by (cases ok) (simp_all add: covered_def in_flight_def)
  then show ?case
    by (simp only: store_catalog [OF hw_store(1)] covered_def sys.simps in_flight_def watcher.case Un_empty_right simp_thms)
next
  case (hw_size ok new g ok' toSend g' cnt b c)
  from covered_quiet [OF hw_size(4) size_quiet(1) [OF hw_size(1) [unfolded wire_services]]] show ?case
    by (simp add: covered_def in_flight_def)
next
  case (hw_send n g g' cnt ok ns b c)
  with send_frame [OF hw_send(1,2)] show ?case by (simp add: covered_def in_flight_def catalog_def)
next
  case (hw_sleep g cnt ok b c)
  from covered_quiet [OF hw_sleep(3) quiet_sleep] show ?case by (simp add: covered_def in_flight_def)
next
  case (creds_recv b g b' g' h c)
  then show ?case using creds_receive_frame [OF creds_recv(1)] by (cases h) (simp_all add: covered_def catalog_def)
next
  case (creds_idle b g b' g' h c)
  show ?case using covered_quiet [OF creds_idle(4) stays_quietD [OF stays_quiet_timeout creds_idle(1)]] .
next
  case (clear_start g rn g' h b c)
  then have k: "keyed_by NodeName (nodeCache g)" by (simp add: sys_inv_def)
  from clear_start(1) have eq: "rn = map_values (nodeCache g)" "g' = g\<lparr>nodeCache := []\<rparr>"
    by (simp_all add: clear_start_run)
  have "names rn = cached g" unfolding eq(1) by (rule keyed_by_values [OF k])
  with clear_start(4) eq(2) show ?case
    by (cases h) (auto simp: covered_def in_flight_def to_clear_def catalog_def)
next
  case (clear_finish rn g g' h b c1 c2)
  note cl = clear_catalog [OF clear_finish(1) [unfolded wire_services] clear_finish(2)]
  from clear_finish(4) cl show ?case by (cases h) (auto simp: covered_def in_flight_def to_clear_def)
qed (rule covered_quiet, assumption, rule quiet_steps, assumption+)+

lemma reachable_covered:
  assumes "reachable e k8s x" and "deletes_accepted e"
  shows "covered e x"
  using assms
proof (induction rule: reachable.induct)
  case (start flag g)
  from start_state [OF this(1)] show ?case by (simp add: covered_def catalog_def inventory_after_def)
next
  case (step x y)
  then show ?case using sys_step_covered reachable_inv by blast
qed

text \<open>A step that leaves no clear request under way keeps console-data exact.\<close>

lemma sys_step_exact:
  assumes "sys_step e k8s x y" and "clearing y = []" and "deletes_accepted e" and "sys_inv x"
    and "covered e x" and "exact e x"
  shows "exact e y"
  using assms
proof (induction rule: sys_step.induct)
  case (hw_fetch g nodes g' cnt b c)
  then have "quiet g g'" using stays_quietD [OF stays_quiet_begin] by simp
  from exact_quiet [OF hw_fetch(7) this] show ?case by (simp add: exact_def)
next
  case (hw_suspended g cnt b c)
  show ?case using exact_quiet [OF hw_suspended(6) quiet_sleep] .
next
  case (hw_upload cnt nodes g ok new removed g' b c)
  then have "keyed_by NodeName (nodeCache g)" by (simp add: sys_inv_def)
  note up = upload_catalog [OF hw_upload(1) [unfolded wire_services] this]
  from hw_upload(6) have "cnt \<noteq> 0 \<longrightarrow> catalog e g = cached g" and "c = []" by (simp_all add: exact_def)
  with up show ?case unfolding exact_def by (auto split: if_splits)
next
  case (hw_remove removed g g' cnt nodes ok new b c)
  note rm = remove_catalog [OF hw_remove(1) [unfolded wire_services] hw_remove(3)]
  from hw_remove(2,5) have "catalog e g \<subseteq> cached g \<union> (if ok then names nodes else {})"
    by (simp add: covered_def in_flight_def to_clear_def)
  moreover from hw_remove(6) have "names removed = cached g - names nodes" and "ok \<longrightarrow> names nodes \<subseteq> catalog e g"
    and "c = []"
    by (simp_all add: exact_def)
  ultimately show ?case
    using rm store_exact [of "catalog e g" "cached g" "names nodes"] by (cases ok) (simp_all add: exact_def)
next
  case (hw_store nodes ok g g' cnt new b c)
  from hw_store(6) store_catalog [OF hw_store(1)] show ?case by (simp add: exact_def)
next
  case (hw_size ok new g ok' toSend g' cnt b c)
  note q = size_quiet [OF hw_size(1) [unfolded wire_services]]
  from exact_quiet [OF hw_size(6) q(1)] q(2) show ?case by (simp add: exact_def)
next
  case (hw_send n g g' cnt ok ns b c)
  with send_frame [OF hw_send(1,2)] show ?case by (simp add: exact_def catalog_def)
next
  case (hw_sleep g cnt ok b c)
  from exact_quiet [OF hw_sleep(5) quiet_sleep] next_force_ok [of ok cnt] show ?case by (auto simp: exact_def)
next
  case (creds_recv b g b' g' h c)
  then show ?case using creds_receive_frame [OF creds_recv(1)] by (cases h) (simp_all add: exact_def catalog_def)
next
  case (creds_idle b g b' g' h c)
  show ?case using exact_quiet [OF creds_idle(6) stays_quietD [OF stays_quiet_timeout creds_idle(1)]] .
next
  case (clear_start g rn g' h b c)
  then show ?case by simp
next
  case (clear_finish rn g g' h b c1 c2)
  from clear_finish(6) show ?case by (simp add: exact_def)
qed (rule exact_quiet, assumption, rule quiet_steps, assumption+)+

text \<open>Runs without a clear request under way.\<close>

definition undisturbed :: "env \<Rightarrow> k8Manager \<Rightarrow> sys \<Rightarrow> sys \<Rightarrow> bool" where
  "undisturbed e k8s x y \<longleftrightarrow> sys_step e k8s x y \<and> clearing y = []"

lemma undisturbed_exact:
  assumes "(undisturbed e k8s)\<^sup>*\<^sup>* x y" and "reachable e k8s x" and "deletes_accepted e" and "exact e x"
  shows "reachable e k8s y \<and> exact e y"
  using assms(1)
proof (induction rule: rtranclp_induct)
  case base
  then show ?case using assms by blast
next
  case (step y z)
  then have "sys_inv y" and "covered e y" using reachable_inv reachable_covered assms(3) by blast+
  with step assms(3) show ?case using sys_step_exact reachable.step unfolding undisturbed_def by blast
qed

lemma undisturbed_steps: "(undisturbed e k8s)\<^sup>*\<^sup>* x y \<Longrightarrow> (sys_step e k8s)\<^sup>*\<^sup>* x y"
  by (rule rtranclp_mono [THEN predicate2D]) (auto simp: undisturbed_def)

lemma exact_idle: "clearing x = [] \<Longrightarrow> hw_state x = Idle 0 \<Longrightarrow> exact e x"
  by (simp add: exact_def)

section \<open>Nodes on their way to a key\<close>

text \<open>The new Mountain nodes somebody still has to see to: those the watcher is about to send, the
  channel, and the batch of the worker.\<close>

definition pending :: "watcher \<Rightarrow> nodeConsoleInfo set" where
  "pending h = (case h of Sending cnt ok ns \<Rightarrow> set ns | _ \<Rightarrow> {})"

definition to_key :: "sys \<Rightarrow> nodeConsoleInfo set" where
  "to_key x = pending (hw_state x) \<union> in_hand (creds_batch x) (globals x)"

lemma quiet_trace: "quiet s t \<Longrightarrow> \<exists>evs. trace t = trace s @ evs"
  by (auto simp: quiet_def emits_def)

text \<open>A step lengthens the history; a node on its way stays there or is acknowledged.\<close>

definition moves_on :: "env \<Rightarrow> sys \<Rightarrow> sys \<Rightarrow> bool" where
  "moves_on e x y \<longleftrightarrow> (\<exists>evs. trace (globals y) = trace (globals x) @ evs) \<and>
     kept e (trace (globals x)) (trace (globals y)) (to_key x) (to_key y)"

lemma moves_onI:
  assumes "trace (globals y) = trace (globals x) @ evs" and "to_key x \<subseteq> to_key y"
  shows "moves_on e x y"
  using assms by (auto simp: moves_on_def intro!: kept_names)

lemma in_hand_channel:
  "mountainCredsUpdateChannel t = mountainCredsUpdateChannel s \<Longrightarrow> in_hand b t = in_hand b s"
  by (simp add: in_hand_def)

text \<open>Steps of the watcher before the sends, and of everybody who leaves the channel alone.\<close>

lemma moves_on_frame:
  assumes "trace g' = trace g @ evs" and "mountainCredsUpdateChannel g' = mountainCredsUpdateChannel g"
    and "pending h \<subseteq> pending h'"
  shows "moves_on e (st g h b c) (st g' h' b c')"
  using assms(1,3) in_hand_channel [OF assms(2), of b]
  by (intro moves_onI) (auto simp: to_key_def)

lemma moves_on_quiet:
  assumes "quiet g g'" and "pending h \<subseteq> pending h'"
  shows "moves_on e (st g h b c) (st g' h' b c')"
proof -
  obtain evs where "trace g' = trace g @ evs" using quiet_trace [OF assms(1)] by blast
  moreover have "mountainCredsUpdateChannel g' = mountainCredsUpdateChannel g"
    using assms(1) by (simp add: quiet_def)
  ultimately show ?thesis using assms(2) by (rule moves_on_frame)
qed

lemma kept_Un: "kept e h0 h A B \<Longrightarrow> kept e h0 h (C \<union> A) (C \<union> B)"
  unfolding kept_def by (metis UnCI UnE image_eqI image_Un)

lemma moves_on_handed:
  "handed_over e (b, g) (b', g') \<Longrightarrow> moves_on e (st g h b c) (st g' h b' c)"
  by (simp add: moves_on_def to_key_def handed_over_def kept_Un)

lemma sys_step_moves_on:
  assumes "sys_step e k8s x y" and "sys_inv x"
  shows "moves_on e x y"
  using assms
proof (induction rule: sys_step.induct)
  case (hw_fetch g nodes g' cnt b c)
  then have "quiet g g'" using stays_quietD [OF stays_quiet_begin] by simp
  then show ?case by (rule moves_on_quiet) (simp add: pending_def)
next
  case (hw_suspended g cnt b c)
  show ?case using moves_on_quiet [OF quiet_sleep] by simp
next
  case (hw_upload cnt nodes g ok new removed g' b c)
  then obtain evs where "g' = g\<lparr>trace := trace g @ evs\<rparr>" using upload_frame [OF hw_upload(1) [unfolded wire_services]] by blast
  then show ?case by (intro moves_on_frame) (simp_all add: pending_def)
next
  case (hw_remove removed g g' cnt nodes ok new b c)
  then obtain evs where "g' = g\<lparr>trace := trace g @ evs\<rparr>" using remove_frame [OF hw_remove(1) [unfolded wire_services]] by blast
  then show ?case by (intro moves_on_frame) (simp_all add: pending_def)
next
  case (hw_store nodes ok g g' cnt new b c)
  from store_frame [OF hw_store(1)] show ?case
    by (intro moves_on_frame [where evs = "[]"]) (simp_all add: pending_def)
next
  case (hw_size ok new g ok' toSend g' cnt b c)
  show ?case
    by (rule moves_on_quiet [OF size_quiet(1) [OF hw_size(1) [unfolded wire_services]]]) (simp add: pending_def)
next
  case (hw_send n g g' cnt ok ns b c)
  with send_frame [OF hw_send(1,2)] show ?case
    by (intro moves_onI [where evs = "[]"]) (auto simp: to_key_def pending_def in_hand_def)
next
  case (hw_sleep g cnt ok b c)
  show ?case by (rule moves_on_quiet [OF quiet_sleep]) (simp add: pending_def)
next
  case (creds_recv b g b' g' h c)
  then have "keyed_by NodeName b" by (simp add: sys_inv_def)
  with creds_recv(1) have "handed_over e (b, g) (b', g')"
    using creds_receive_step [of b e g] by auto
  then show ?case by (rule moves_on_handed)
next
  case (creds_idle b g b' g' h c)
  then have "keyed_by NodeName b" by (simp add: sys_inv_def)
  with creds_idle(1) have "handed_over e (b, g) (b', g')"
    using creds_timeout_step [of b e g] by auto
  then show ?case by (rule moves_on_handed)
next
  case (clear_start g rn g' h b c)
  then show ?case by (intro moves_on_frame [where evs = "[]"]) (auto simp: clear_start_run)
next
  case (clear_finish rn g g' h b c1 c2)
  then obtain evs where "g' = g\<lparr>trace := trace g @ evs\<rparr>" using clear_finish_frame [OF clear_finish(1) [unfolded wire_services]] by blast
  then show ?case by (intro moves_on_frame) simp_all
qed (rule moves_on_quiet, rule quiet_steps, assumption+, rule subset_refl)+

text \<open>Over any number of steps: a node on its way is still on its way, or some node of its name
  that was on its way at some point in between has been acknowledged.\<close>

definition seen_between :: "env \<Rightarrow> k8Manager \<Rightarrow> sys \<Rightarrow> sys \<Rightarrow> nodeConsoleInfo \<Rightarrow> bool" where
  "seen_between e k8s x y n \<longleftrightarrow>
     (\<exists>z. (sys_step e k8s)\<^sup>*\<^sup>* x z \<and> (sys_step e k8s)\<^sup>*\<^sup>* z y \<and> n \<in> to_key z)"

definition keyed_since :: "env \<Rightarrow> k8Manager \<Rightarrow> sys \<Rightarrow> sys \<Rightarrow> string \<Rightarrow> bool" where
  "keyed_since e k8s x y k \<longleftrightarrow> (\<exists>n. seen_between e k8s x y n \<and> NodeName n = k \<and>
     acked_since e (trace (globals x)) (trace (globals y)) (BmcName n))"

lemma seen_between_step: "seen_between e k8s x y n \<Longrightarrow> sys_step e k8s y z \<Longrightarrow> seen_between e k8s x z n"
  unfolding seen_between_def by (meson rtranclp.rtrancl_into_rtrancl)

lemma seen_between_last:
  "(sys_step e k8s)\<^sup>*\<^sup>* x y \<Longrightarrow> n \<in> to_key y \<Longrightarrow> sys_step e k8s y z \<Longrightarrow> seen_between e k8s x z n"
  unfolding seen_between_def by (meson r_into_rtranclp)

lemma steps_moves_on:
  assumes "(sys_step e k8s)\<^sup>*\<^sup>* x y" and "reachable e k8s x" and "n \<in> to_key x"
  shows "(\<exists>evs. trace (globals y) = trace (globals x) @ evs) \<and>
    (NodeName n \<in> NodeName ` to_key y \<or> keyed_since e k8s x y (NodeName n))"
  using assms(1)
proof (induction rule: rtranclp_induct)
  case base
  then show ?case using assms(3) by auto
next
  case (step y z)
  have "sys_inv y" using reachable_inv reachable_steps [OF assms(2) step(1)] by blast
  then have m: "moves_on e y z" using sys_step_moves_on step(2) by blast
  then obtain evs where tz: "trace (globals z) = trace (globals y) @ evs" by (auto simp: moves_on_def)
  obtain evs' where ty: "trace (globals y) = trace (globals x) @ evs'" using step(3) by blast
  from step(3) consider n1 where "n1 \<in> to_key y" "NodeName n1 = NodeName n" | "keyed_since e k8s x y (NodeName n)"
    by (metis imageE)
  then have "NodeName n \<in> NodeName ` to_key z \<or> keyed_since e k8s x z (NodeName n)"
  proof cases
    case 1
    with m have "NodeName n \<in> NodeName ` to_key z \<or> (\<exists>n' \<in> to_key y. NodeName n' = NodeName n \<and>
        acked_since e (trace (globals y)) (trace (globals z)) (BmcName n'))"
      unfolding moves_on_def kept_def by metis
    then show ?thesis
      unfolding keyed_since_def using seen_between_last [OF step(1) _ step(2)] acked_since_earlier ty by metis
  next
    case 2
    then show ?thesis
      unfolding keyed_since_def tz using seen_between_step [OF _ step(2)] acked_since_append by blast
  qed
  with ty tz show ?case by simp
qed

section \<open>The bounded channel does not block for ever\<close>

lemma receive_run:
  "mountainCredsUpdateChannel g = n # q \<Longrightarrow>
     creds_receive b e g = (Ok (map_set (NodeName n) n b), g\<lparr>mountainCredsUpdateChannel := q\<rparr>)"
  by (simp add: creds_receive_def)

text \<open>Room in the channel: at once, or after the worker has received one node.\<close>

lemma makes_room:
  assumes "length (mountainCredsUpdateChannel g) \<le> channel_capacity"
  shows "\<exists>q b'. (sys_step e k8s)\<^sup>*\<^sup>* (st g h b c) (st (g\<lparr>mountainCredsUpdateChannel := q\<rparr>) h b' c) \<and>
    length q < channel_capacity"
proof (cases "length (mountainCredsUpdateChannel g) < channel_capacity")
  case True
  moreover have "g\<lparr>mountainCredsUpdateChannel := mountainCredsUpdateChannel g\<rparr> = g" by simp
  ultimately show ?thesis by (metis rtranclp.rtrancl_refl)
next
  case False
  then have "mountainCredsUpdateChannel g \<noteq> []" by (auto simp: channel_capacity_def)
  then obtain n q where q: "mountainCredsUpdateChannel g = n # q" by (cases "mountainCredsUpdateChannel g") auto
  have "sys_step e k8s (st g h b c) (st (g\<lparr>mountainCredsUpdateChannel := q\<rparr>) h (map_set (NodeName n) n b) c)"
    using q by (intro creds_recv receive_run) simp_all
  moreover have "length q < channel_capacity" using q assms by simp
  ultimately show ?thesis by (meson r_into_rtranclp)
qed

lemma watcher_returns:
  assumes "length (mountainCredsUpdateChannel g) \<le> channel_capacity"
  shows "\<exists>q b'. (sys_step e k8s)\<^sup>*\<^sup>* (st g (Sending cnt ok ns) b c)
    (st (sleep_event (g\<lparr>mountainCredsUpdateChannel := q\<rparr>)) (Idle (next_force ok cnt)) b' c)"
  using assms
proof (induction ns arbitrary: g b)
  case Nil
  have "g\<lparr>mountainCredsUpdateChannel := mountainCredsUpdateChannel g\<rparr> = g" by simp
  then show ?case using hw_sleep by (metis r_into_rtranclp)
next
  case (Cons n ns)
  obtain q1 b1 where steps: "(sys_step e k8s)\<^sup>*\<^sup>* (st g (Sending cnt ok (n # ns)) b c)
      (st (g\<lparr>mountainCredsUpdateChannel := q1\<rparr>) (Sending cnt ok (n # ns)) b1 c)"
    and room: "length q1 < channel_capacity"
    using makes_room [OF Cons.prems] by blast
  let ?g2 = "g\<lparr>mountainCredsUpdateChannel := q1 @ [n]\<rparr>"
  have "sys_step e k8s (st (g\<lparr>mountainCredsUpdateChannel := q1\<rparr>) (Sending cnt ok (n # ns)) b1 c)
      (st ?g2 (Sending cnt ok ns) b1 c)"
    using room by (intro hw_send) (simp_all add: send_run)
  moreover obtain q b' where "(sys_step e k8s)\<^sup>*\<^sup>* (st ?g2 (Sending cnt ok ns) b1 c)
      (st (sleep_event (g\<lparr>mountainCredsUpdateChannel := q\<rparr>)) (Idle (next_force ok cnt)) b' c)"
    using Cons.IH [of ?g2 b1] room by auto
  ultimately show ?case using steps by (meson rtranclp_trans converse_rtranclp_into_rtranclp)
qed

section \<open>A suspended watcher\<close>

definition same_inventory :: "env \<Rightarrow> op_state \<Rightarrow> op_state \<Rightarrow> bool" where
  "same_inventory e s t \<longleftrightarrow> nodeCache t = nodeCache s \<and>
     (\<forall>iv. inventory_after iv e (trace t) = inventory_after iv e (trace s))"

lemma quiet_same_inventory: "quiet s t \<Longrightarrow> same_inventory e s t"
  using dsm.inv_emits [of s t _ e] by (simp add: same_inventory_def quiet_def)

lemma suspended_step:
  assumes "sys_step e k8s (st g (Idle cnt) b c) y" and "inShutdown g"
  shows "hw_state y = Idle cnt \<and> (same_inventory e g (globals y) \<or> clearing y \<noteq> c)"
proof -
  have q: "?thesis" if "y = st g' (Idle cnt) b' c" and "quiet g g'" for g' b'
    using quiet_same_inventory [OF that(2)] that(1) by simp
  from assms(1) show ?thesis
  proof (rule idle_stepE)
    fix b' g'
    assume "y = st g' (Idle cnt) b' c" and "creds_receive b e g = (Ok b', g')"
    then show ?thesis using creds_receive_frame [of b e g b' g'] by (simp add: same_inventory_def)
  next
    fix rn g'
    assume "y = st g' (Idle cnt) b (rn # c)"
    then show ?thesis by simp
  next
    fix rn g' c1 c2
    assume "c = c1 @ rn # c2" and "y = st g' (Idle cnt) b (c1 @ c2)"
    then show ?thesis by simp
  qed (use assms(2) in simp,
      (erule q, (rule quiet_sleep | erule stays_quietD [rotated], rule stays_quiet_timeout | rule quiet_steps, assumption+))+)
qed

section \<open>The steps are the code\<close>

text \<open>The watcher's steps one after the other are the body of \<open>doHardwareUpdate\<close> up to the sends.\<close>

lemma update_steps:
  assumes "hardware_update_calls (op_ds (wire k8s)) (op_ns (wire k8s)) (cnt = 0) e g = (Ok (ok, toSend), g')"
    and "\<not> inShutdown g"
  shows "(sys_step e k8s)\<^sup>*\<^sup>* (st g (Idle cnt) b c) (st g' (Sending cnt ok toSend) b c)"
proof -
  from assms(1) [unfolded calls_phases] obtain nodes g1 where
    1: "begin_update (op_ns (wire k8s)) e g = (Ok nodes, g1)"
    and r1: "bind_go (upload_nodes (op_ds (wire k8s)) (cnt = 0) nodes) (\<lambda>(ok, new, removed).
      then_go (remove_gone (op_ds (wire k8s)) removed)
      (then_go (store_cache nodes ok) (size_and_keys (op_ns (wire k8s)) ok new))) e g1 = (Ok (ok, toSend), g')"
    by (rule bind_OkE)
  from r1 obtain p g2 where 2: "upload_nodes (op_ds (wire k8s)) (cnt = 0) nodes e g1 = (Ok p, g2)"
    and r2: "(case p of (ok, new, removed) \<Rightarrow>
      then_go (remove_gone (op_ds (wire k8s)) removed)
      (then_go (store_cache nodes ok) (size_and_keys (op_ns (wire k8s)) ok new))) e g2 = (Ok (ok, toSend), g')"
    by (rule bind_OkE)
  obtain ok1 new removed where p: "p = (ok1, new, removed)" by (cases p)
  from r2 [unfolded p then_go_def prod.case] obtain u g3 where
    3: "remove_gone (op_ds (wire k8s)) removed e g2 = (Ok u, g3)"
    and r3: "bind_go (store_cache nodes ok1) (\<lambda>_. size_and_keys (op_ns (wire k8s)) ok1 new) e g3 = (Ok (ok, toSend), g')"
    by (rule bind_OkE)
  from r3 obtain v g4 where 4: "store_cache nodes ok1 e g3 = (Ok v, g4)"
    and 5: "size_and_keys (op_ns (wire k8s)) ok1 new e g4 = (Ok (ok, toSend), g')"
    by (rule bind_OkE)
  have "(sys_step e k8s)\<^sup>*\<^sup>* (st g (Idle cnt) b c) (st g1 (Fetched cnt nodes) b c)"
    using 1 assms(2) by (intro r_into_rtranclp hw_fetch)
  also have "(sys_step e k8s)\<^sup>*\<^sup>* \<dots> (st g2 (Uploaded cnt nodes ok1 new removed) b c)"
    using 2 p by (intro r_into_rtranclp hw_upload) simp
  also have "(sys_step e k8s)\<^sup>*\<^sup>* \<dots> (st g3 (Removed cnt nodes ok1 new) b c)"
    using 3 by (intro r_into_rtranclp hw_remove) simp
  also have "(sys_step e k8s)\<^sup>*\<^sup>* \<dots> (st g4 (Stored cnt ok1 new) b c)"
    using 4 by (intro r_into_rtranclp hw_store) simp
  also have "(sys_step e k8s)\<^sup>*\<^sup>* \<dots> (st g' (Sending cnt ok toSend) b c)"
    using 5 by (intro r_into_rtranclp hw_size)
  finally show ?thesis .
qed

section \<open>Which step it is\<close>

text \<open>A step that adds a clear request, one that ends the only one, and the watcher's steps between its
  upload and the new cache are known by what they change.\<close>

lemma clear_start_only:
  assumes "sys_step e k8s (st g h b []) y" and "clearing y \<noteq> []"
  shows "y = st (g\<lparr>nodeCache := []\<rparr>) h b [map_values (nodeCache g)]"
  using assms by (cases rule: sys_step.cases) (auto simp: clear_start_run)

lemma clear_finish_only:
  assumes "sys_step e k8s (st g h b [rn]) y" and "clearing y = []"
  shows "\<exists>g'. y = st g' h b [] \<and> ds_dataRemoveNodes (op_ds (wire k8s)) rn e g = (Ok (), g')"
  using assms by (cases rule: sys_step.cases) (auto simp: Cons_eq_append_conv)

lemma remove_only:
  assumes "sys_step e k8s (st g (Uploaded cnt nodes ok new removed) b c) y"
    and "hw_state y \<noteq> Uploaded cnt nodes ok new removed"
  shows "\<exists>g'. y = st g' (Removed cnt nodes ok new) b c \<and> remove_gone (op_ds (wire k8s)) removed e g = (Ok (), g')"
  using assms by (cases rule: sys_step.cases) auto

lemma store_only:
  assumes "sys_step e k8s (st g (Removed cnt nodes ok new) b c) y" and "hw_state y \<noteq> Removed cnt nodes ok new"
  shows "\<exists>g'. y = st g' (Stored cnt ok new) b c \<and> store_cache nodes ok e g = (Ok (), g')"
  using assms by (cases rule: sys_step.cases) auto

text \<open>An ordinary update that reads what is in the cache sends nothing.\<close>

lemma upload_nothing:
  assumes "nodeCache g = index_by NodeName nodes"
  shows "upload_nodes ds False nodes e g = (Ok (True, [], []), g)"
proof -
  have "NodeName ` set (map_values (nodeCache g)) = names nodes"
    using keyed_by_values [OF keyed_by_index [of NodeName nodes]] by (simp only: assms index_names)
  then have gone: "filter (\<lambda>n. \<not> has_key (index_by NodeName nodes) (NodeName n)) (map_values (nodeCache g)) = []"
    by (auto simp: filter_empty_conv has_key_iff index_names simp del: set_map)
  have "filter (\<lambda>n. \<not> has_key (nodeCache g) (NodeName n)) nodes = []"
    by (simp add: assms filter_empty_conv)
  with gone show ?thesis by (simp only: upload_nodes_def bind_gets Let_def if_False) simp
qed

text \<open>A clear request between the comparison of an update with the cache and the assignment of the new
  cache: what the states look like when the request is through, and when the watcher has gone on.\<close>

lemma clear_during_update:
  assumes "deletes_accepted e" and "sys_inv (st g (Uploaded cnt nodes True new removed) b [])"
    and "sys_step e k8s (st g (Uploaded cnt nodes True new removed) b []) x1" and "clearing x1 \<noteq> []"
    and "sys_step e k8s x1 x2" and "clearing x2 = []"
    and "sys_step e k8s x2 x3" and "hw_state x3 \<noteq> hw_state x2"
    and "sys_step e k8s x3 y" and "hw_state y \<noteq> hw_state x3"
  shows "nodeCache (globals x2) = []" and "catalog e (globals x2) = catalog e g - cached g"
    and "nodeCache (globals y) = index_by NodeName nodes" and "catalog e (globals y) \<subseteq> catalog e g - cached g"
proof -
  let ?h = "Uploaded cnt nodes True new removed" and ?g1 = "g\<lparr>nodeCache := []\<rparr>" and ?rn = "map_values (nodeCache g)"
  have k: "keyed_by NodeName (nodeCache g)" using assms(2) by (simp add: sys_inv_def)
  have x1: "x1 = st ?g1 ?h b [?rn]" using clear_start_only [OF assms(3,4)] .
  obtain g2 where x2: "x2 = st g2 ?h b []" and r2: "ds_dataRemoveNodes (op_ds (wire k8s)) ?rn e ?g1 = (Ok (), g2)"
    using clear_finish_only [OF assms(5) [unfolded x1] assms(6)] by blast
  note c2 = clear_catalog [OF r2 [unfolded wire_services] assms(1)]
  obtain g3 where x3: "x3 = st g3 (Removed cnt nodes True new) b []" and r3: "remove_gone (op_ds (wire k8s)) removed e g2 = (Ok (), g3)"
    using remove_only [OF assms(7) [unfolded x2]] assms(8) x2 by auto
  note c3 = remove_catalog [OF r3 [unfolded wire_services] assms(1)]
  obtain g4 where y: "y = st g4 (Stored cnt True new) b []" and r4: "store_cache nodes True e g3 = (Ok (), g4)"
    using store_only [OF assms(9) [unfolded x3]] assms(10) x3 by auto
  show "nodeCache (globals x2) = []" using c2(1) x2 by simp
  have "names ?rn = cached g" by (rule keyed_by_values [OF k])
  moreover have "catalog e ?g1 = catalog e g" by (simp add: catalog_def)
  ultimately show cat: "catalog e (globals x2) = catalog e g - cached g" using c2(2) x2 by (simp only: sys.simps)
  show "nodeCache (globals y) = index_by NodeName nodes" using store_frame [OF r4] y by simp
  show "catalog e (globals y) \<subseteq> catalog e g - cached g"
    using cat c3(2) store_catalog(2) [OF r4] x2 y by auto
qed

section \<open>Every Mountain node gets its key\<close>

text \<open>A node name is taken care of: it is on its way to a key, or a key update for it has been
  acknowledged since some earlier state of the run.\<close>

definition cared_for :: "env \<Rightarrow> k8Manager \<Rightarrow> sys \<Rightarrow> string \<Rightarrow> bool" where
  "cared_for e k8s x k \<longleftrightarrow> k \<in> NodeName ` to_key x \<or>
     (\<exists>z. reachable e k8s z \<and> (sys_step e k8s)\<^sup>*\<^sup>* z x \<and> keyed_since e k8s z x k)"

lemma keyed_since_step:
  assumes "keyed_since e k8s z x k" and "sys_step e k8s x y" and "sys_inv x"
  shows "keyed_since e k8s z y k"
proof -
  obtain evs where "trace (globals y) = trace (globals x) @ evs"
    using sys_step_moves_on [OF assms(2,3)] by (auto simp: moves_on_def)
  with assms(1) seen_between_step [OF _ assms(2)] acked_since_append show ?thesis
    unfolding keyed_since_def by metis
qed

lemma cared_for_step:
  assumes "reachable e k8s x" and "sys_step e k8s x y" and "cared_for e k8s x k"
  shows "cared_for e k8s y k"
proof -
  from assms(3) consider n where "n \<in> to_key x" "NodeName n = k"
    | z where "reachable e k8s z" "(sys_step e k8s)\<^sup>*\<^sup>* z x" "keyed_since e k8s z x k"
    unfolding cared_for_def by blast
  then show ?thesis
  proof cases
    case 1
    have "NodeName n \<in> NodeName ` to_key y \<or> keyed_since e k8s x y (NodeName n)"
      using steps_moves_on [OF r_into_rtranclp [of "sys_step e k8s", OF assms(2)] assms(1) 1(1)] by blast
    then show ?thesis unfolding cared_for_def using assms(1,2) 1(2) by (meson r_into_rtranclp)
  next
    case 2
    have "keyed_since e k8s z y k" using keyed_since_step [OF 2(3) assms(2) reachable_inv [OF assms(1)]] .
    moreover have "(sys_step e k8s)\<^sup>*\<^sup>* z y" using 2(2) assms(2) by (rule rtranclp.rtrancl_into_rtrancl)
    ultimately show ?thesis unfolding cared_for_def using 2(1) by blast
  qed
qed

text \<open>What HSM reports, at any time; and that it does not change its mind about what is Mountain hardware.\<close>

definition from_hsm :: "env \<Rightarrow> nodeConsoleInfo \<Rightarrow> bool" where
  "from_hsm e n \<longleftrightarrow> (\<exists>h v. hsm_view e h = Some v \<and> n \<in> set (hsm_nodes v))"

definition class_stable :: "env \<Rightarrow> bool" where
  "class_stable e \<longleftrightarrow> (\<forall>n n'. from_hsm e n \<and> from_hsm e n' \<and> NodeName n = NodeName n' \<longrightarrow>
     isMountain n = isMountain n')"

text \<open>The nodes whose sending is next, after the new cache has been stored.\<close>

definition awaiting :: "watcher \<Rightarrow> string set" where
  "awaiting h = (case h of Stored cnt ok new \<Rightarrow> names (filter isMountain new) | _ \<Rightarrow> {})"

text \<open>The nodes in the hands of the watcher, and those of them it takes for new.\<close>

definition read_nodes :: "watcher \<Rightarrow> nodeConsoleInfo list" where
  "read_nodes h = (case h of
     Fetched cnt nodes \<Rightarrow> nodes | Uploaded cnt nodes ok new removed \<Rightarrow> nodes | Removed cnt nodes ok new \<Rightarrow> nodes
   | _ \<Rightarrow> [])"

definition sorted_out :: "(string \<Rightarrow> bool) \<Rightarrow> watcher \<Rightarrow> bool" where
  "sorted_out P h = (case h of
     Uploaded cnt nodes ok new removed \<Rightarrow> \<forall>n \<in> set nodes. isMountain n \<longrightarrow> n \<in> set new \<or> P (NodeName n)
   | Removed cnt nodes ok new \<Rightarrow> \<forall>n \<in> set nodes. isMountain n \<longrightarrow> n \<in> set new \<or> P (NodeName n)
   | _ \<Rightarrow> True)"

lemma sorted_out_mono: "sorted_out P h \<Longrightarrow> (\<And>k. P k \<Longrightarrow> Q k) \<Longrightarrow> sorted_out Q h"
  by (cases h) (auto simp: sorted_out_def)

abbreviation cached_nodes :: "sys \<Rightarrow> nodeConsoleInfo set" where
  "cached_nodes x \<equiv> set (map_values (nodeCache (globals x)))"

definition keys_inv :: "env \<Rightarrow> k8Manager \<Rightarrow> sys \<Rightarrow> bool" where
  "keys_inv e k8s x \<longleftrightarrow>
     (\<forall>n \<in> cached_nodes x. isMountain n \<longrightarrow> NodeName n \<in> awaiting (hw_state x) \<or> cared_for e k8s x (NodeName n)) \<and>
     sorted_out (cared_for e k8s x) (hw_state x) \<and>
     (\<forall>n \<in> cached_nodes x. from_hsm e n) \<and> (\<forall>n \<in> set (read_nodes (hw_state x)). from_hsm e n)"

lemma keys_invD:
  assumes "keys_inv e k8s x"
  shows "n \<in> cached_nodes x \<Longrightarrow> isMountain n \<Longrightarrow> NodeName n \<in> awaiting (hw_state x) \<or> cared_for e k8s x (NodeName n)"
    and "sorted_out (cared_for e k8s x) (hw_state x)"
    and "n \<in> cached_nodes x \<Longrightarrow> from_hsm e n" and "n \<in> set (read_nodes (hw_state x)) \<Longrightarrow> from_hsm e n"
  using assms unfolding keys_inv_def by blast+

text \<open>A step that neither moves the watcher nor adds to the cache.\<close>

lemma keys_inv_frame:
  assumes "reachable e k8s x" and "sys_step e k8s x y" and "keys_inv e k8s x"
    and "hw_state y = hw_state x" and "cached_nodes y \<subseteq> cached_nodes x"
  shows "keys_inv e k8s y"
  unfolding keys_inv_def assms(4)
proof (intro conjI ballI impI)
  fix n
  assume n: "n \<in> cached_nodes y"
  then have x: "n \<in> cached_nodes x" using assms(5) by (rule subsetD [rotated])
  then show "from_hsm e n" by (rule keys_invD(3) [OF assms(3)])
  show "NodeName n \<in> awaiting (hw_state x) \<or> cared_for e k8s y (NodeName n)" if "isMountain n"
    using keys_invD(1) [OF assms(3) x that] cared_for_step [OF assms(1,2)] by blast
next
  show "sorted_out (cared_for e k8s y) (hw_state x)"
    using keys_invD(2) [OF assms(3)] cared_for_step [OF assms(1,2)] by (rule sorted_out_mono)
next
  fix n
  assume "n \<in> set (read_nodes (hw_state x))"
  then show "from_hsm e n" by (rule keys_invD(4) [OF assms(3)])
qed

lemma begin_update_hsm:
  assumes "begin_update (op_ns (wire k8s)) e g = (Ok nodes, g')" and "n \<in> set nodes"
  shows "from_hsm e n"
  using assms
  by (auto simp: begin_update_def NewNodeManager_def getCurrentNodesFromHSM_run from_hsm_def
      split: option.splits if_splits)

lemma upload_new:
  assumes "upload_nodes (op_ds (wire k8s)) updateAll nodes e g = (Ok (ok, new, removed), g')"
  shows "new = filter (\<lambda>n. \<not> has_key (nodeCache g) (NodeName n)) nodes" and "nodeCache g' = nodeCache g"
proof -
  obtain ok' gone evs where "upload_nodes (DataManager_service (wired_dm k8s)) updateAll nodes e g =
      (Ok (ok', filter (\<lambda>n. \<not> has_key (nodeCache g) (NodeName n)) nodes, gone), g\<lparr>trace := trace g @ evs\<rparr>)"
    using hw.upload_run [OF refl refl refl] by blast
  with assms show "new = filter (\<lambda>n. \<not> has_key (nodeCache g) (NodeName n)) nodes" and "nodeCache g' = nodeCache g"
    by auto
qed

text \<open>A node the watcher reads but does not take for new is cached already, so it is taken care of.\<close>

lemma known_cared_for:
  assumes "keys_inv e k8s (st g (Fetched cnt nodes) b c)" and "class_stable e" and "keyed_by NodeName (nodeCache g)"
    and "n \<in> set nodes" and "isMountain n" and "has_key (nodeCache g) (NodeName n)"
  shows "cared_for e k8s (st g (Fetched cnt nodes) b c) (NodeName n)"
proof -
  note inv = keys_invD [OF assms(1), simplified sys.simps read_nodes_def awaiting_def watcher.case]
  have "NodeName n \<in> NodeName ` set (map_values (nodeCache g))"
    using assms(3,6) by (simp only: keyed_by_values has_key_iff)
  then obtain n' where n': "n' \<in> set (map_values (nodeCache g))" "NodeName n' = NodeName n" by (metis imageE)
  have "isMountain n'" using assms(2,4,5) inv(3) [OF n'(1)] inv(4) n'(2) unfolding class_stable_def by blast
  with inv(1) [OF n'(1)] n'(2) show ?thesis by simp
qed

lemma index_by_values: "set (map_values (index_by NodeName nodes)) \<subseteq> set nodes"
proof
  fix n
  assume "n \<in> set (map_values (index_by NodeName nodes))"
  then have "map_of (index_by NodeName nodes) (NodeName n) = Some n"
    by (simp only: keyed_by_value_iff [OF keyed_by_index])
  then show "n \<in> set nodes" using index_by_lookup by fastforce
qed

lemma mtn_like:
  assumes "n \<in> set ns" and "isMountain n"
  shows "list_ex is_mtn_like ns"
proof -
  have "is_mtn_like n" using assms(2) by (auto simp: is_mtn_like_def isMountain_def isRiver_def)
  with assms(1) show ?thesis unfolding list_ex_iff by blast
qed

text \<open>The steps of the watcher.\<close>

lemma keys_inv_upload:
  assumes "keys_inv e k8s (st g (Fetched cnt nodes) b c)" and "class_stable e"
    and "reachable e k8s (st g (Fetched cnt nodes) b c)"
    and "upload_nodes (op_ds (wire k8s)) (cnt = 0) nodes e g = (Ok (ok, new, removed), g')"
  shows "keys_inv e k8s (st g' (Uploaded cnt nodes ok new removed) b c)"
proof -
  note step = hw_upload [OF assms(4), of b c]
  note care = cared_for_step [OF assms(3) step]
  note inv = keys_invD [OF assms(1), simplified sys.simps read_nodes_def awaiting_def watcher.case]
  note up = upload_new [OF assms(4)]
  have k: "keyed_by NodeName (nodeCache g)" using reachable_inv [OF assms(3)] by (simp add: sys_inv_def)
  have "n \<in> set new \<or> cared_for e k8s (st g' (Uploaded cnt nodes ok new removed) b c) (NodeName n)"
    if "n \<in> set nodes" and "isMountain n" for n
  proof (cases "has_key (nodeCache g) (NodeName n)")
    case True
    from care [OF known_cared_for [OF assms(1,2) k that True]] show ?thesis by (rule disjI2)
  next
    case False
    with that(1) show ?thesis unfolding up(1) by simp
  qed
  then show ?thesis
    using inv care unfolding keys_inv_def sys.simps up(2) awaiting_def read_nodes_def sorted_out_def watcher.case by blast
qed

lemma keys_inv_store:
  assumes "keys_inv e k8s (st g (Removed cnt nodes ok new) b c)"
    and "reachable e k8s (st g (Removed cnt nodes ok new) b c)" and "store_cache nodes ok e g = (Ok (), g')"
  shows "keys_inv e k8s (st g' (Stored cnt ok new) b c)"
proof -
  note care = cared_for_step [OF assms(2) hw_store [OF assms(3)]]
  note inv = keys_invD [OF assms(1), simplified sys.simps read_nodes_def awaiting_def sorted_out_def watcher.case]
  have sub: "set (map_values (nodeCache g')) \<subseteq> (if ok then set nodes else set (map_values (nodeCache g)))"
    using store_frame [OF assms(3)] index_by_values by (cases ok) simp_all
  have "NodeName n \<in> names (filter isMountain new) \<or> cared_for e k8s (st g' (Stored cnt ok new) b c) (NodeName n)"
    if "n \<in> set (map_values (nodeCache g'))" and "isMountain n" for n
  proof (cases ok)
    case True
    have "n \<in> set nodes" using sub that(1) unfolding if_P [OF True] by (rule subsetD)
    with inv(2) that(2) consider "n \<in> set new" | "cared_for e k8s (st g (Removed cnt nodes ok new) b c) (NodeName n)" by blast
    then show ?thesis
    proof cases
      case 1
      with that(2) have "n \<in> set (filter isMountain new)" by simp
      then show ?thesis by blast
    next
      case 2
      from care [OF this] show ?thesis by (rule disjI2)
    qed
  next
    case False
    have "n \<in> set (map_values (nodeCache g))" using sub that(1) unfolding if_not_P [OF False] by (rule subsetD)
    from care inv(1) [OF this that(2)] show ?thesis by blast
  qed
  moreover have "from_hsm e n" if "n \<in> set (map_values (nodeCache g'))" for n
  proof (cases ok)
    case True
    show ?thesis using sub that unfolding if_P [OF True] by (intro inv(4)) (rule subsetD)
  next
    case False
    show ?thesis using sub that unfolding if_not_P [OF False] by (intro inv(3)) (rule subsetD)
  qed
  ultimately show ?thesis unfolding keys_inv_def sys.simps awaiting_def read_nodes_def sorted_out_def watcher.case by simp
qed

lemma keys_inv_size:
  assumes "keys_inv e k8s (st g (Stored cnt ok new) b c)"
    and "reachable e k8s (st g (Stored cnt ok new) b c)"
    and "size_and_keys (op_ns (wire k8s)) ok new e g = (Ok (ok', toSend), g')"
  shows "keys_inv e k8s (st g' (Sending cnt ok' toSend) b c)"
proof -
  note care = cared_for_step [OF assms(2) hw_size [OF assms(3)]]
  note inv = keys_invD [OF assms(1), simplified sys.simps awaiting_def watcher.case]
  have cache: "nodeCache g' = nodeCache g" and send: "toSend =
      (if list_ex is_mtn_like (map_values (nodeCache g)) then filter isMountain new else [])"
    using hw.size_and_keys_ok(1,4) [OF assms(3) [unfolded wire_services]] by (simp_all add: same_cache_def)
  have sent: "cared_for e k8s (st g' (Sending cnt ok' toSend) b c) k" if "k \<in> names toSend" for k
    using that unfolding cared_for_def to_key_def pending_def sys.simps watcher.case by blast
  have "cared_for e k8s (st g' (Sending cnt ok' toSend) b c) (NodeName n)"
    if "n \<in> set (map_values (nodeCache g))" and "isMountain n" for n
  proof -
    have "toSend = filter isMountain new" using send mtn_like [OF that] by simp
    with inv(1) [OF that] sent care show ?thesis by blast
  qed
  with inv(3) show ?thesis
    unfolding keys_inv_def sys.simps cache awaiting_def read_nodes_def sorted_out_def watcher.case by simp
qed

lemma keys_inv_moved:
  assumes "keys_inv e k8s x" and "reachable e k8s x" and "sys_step e k8s x y"
    and "nodeCache (globals y) = nodeCache (globals x)" and "awaiting (hw_state x) = {}"
    and "sorted_out (cared_for e k8s x) (hw_state y)" and "\<And>n. n \<in> set (read_nodes (hw_state y)) \<Longrightarrow> from_hsm e n"
  shows "keys_inv e k8s y"
proof -
  note care = cared_for_step [OF assms(2,3)]
  have "sorted_out (cared_for e k8s y) (hw_state y)" using assms(6) care by (rule sorted_out_mono)
  moreover have "cared_for e k8s y (NodeName n)" if "n \<in> cached_nodes x" "isMountain n" for n
    using keys_invD(1) [OF assms(1) that] care unfolding assms(5) by blast
  ultimately show ?thesis using assms(7) keys_invD(3) [OF assms(1)] unfolding keys_inv_def assms(4) by blast
qed

lemma sys_step_keys:
  assumes "sys_step e k8s x y" and "reachable e k8s x" and "class_stable e" and "keys_inv e k8s x"
  shows "keys_inv e k8s y"
proof -
  note moved = keys_inv_moved [OF assms(4,2,1)]
  note inv = keys_invD [OF assms(4)]
  have quiet: "keys_inv e k8s y" if "x = st g h b c" and "y = st g' h b' c'" and "quiet g g'" for g h b c g' b' c'
    using keys_inv_frame [OF assms(2,1,4)] quiet_catalog(2) [OF that(3)] that(1,2) by simp
  from assms(1) show ?thesis
  proof cases
    case (hw_fetch g nodes g' cnt b c)
    then have "nodeCache g' = nodeCache g" using quiet_catalog(2) [OF stays_quietD [OF stays_quiet_begin]] by simp
    with hw_fetch begin_update_hsm [OF hw_fetch(3)] show ?thesis
      by (intro moved) (simp_all add: awaiting_def sorted_out_def read_nodes_def)
  next
    case (hw_suspended g cnt b c)
    show ?thesis by (rule quiet [OF hw_suspended(1,2) quiet_sleep])
  next
    case (hw_upload cnt nodes g ok new removed g' b c)
    then show ?thesis using keys_inv_upload assms(2-4) by blast
  next
    case (hw_remove removed g g' cnt nodes ok new b c)
    then have "nodeCache g' = nodeCache g" using remove_frame [OF hw_remove(3) [unfolded wire_services]] by auto
    with hw_remove inv(2,4) show ?thesis by (intro moved) (simp_all add: awaiting_def sorted_out_def read_nodes_def)
  next
    case (hw_store nodes ok g g' cnt new b c)
    then show ?thesis using keys_inv_store assms(2,4) by blast
  next
    case (hw_size ok new g ok' toSend g' cnt b c)
    then show ?thesis using keys_inv_size assms(2,4) by blast
  next
    case (hw_send n g g' cnt ok ns b c)
    with send_frame [OF hw_send(3,4)] show ?thesis
      by (intro moved) (simp_all add: awaiting_def sorted_out_def read_nodes_def)
  next
    case (hw_sleep g cnt ok b c)
    then show ?thesis
      by (intro moved) (simp_all add: awaiting_def sorted_out_def read_nodes_def sleep_event_def)
  next
    case (creds_recv b g b' g' h c)
    with creds_receive_frame [OF creds_recv(3)] show ?thesis
      by (intro keys_inv_frame [OF assms(2,1,4)]) simp_all
  next
    case (creds_idle b g b' g' h c)
    show ?thesis by (rule quiet [OF creds_idle(1,2) stays_quietD [OF stays_quiet_timeout creds_idle(3)]])
  next
    case (clear_start g rn g' h b c)
    then show ?thesis by (intro keys_inv_frame [OF assms(2,1,4)]) (auto simp: clear_start_run)
  next
    case (clear_finish rn g g' h b c1 c2)
    then obtain evs where "g' = g\<lparr>trace := trace g @ evs\<rparr>"
      using clear_finish_frame [OF clear_finish(3) [unfolded wire_services]] by blast
    with clear_finish show ?thesis by (intro keys_inv_frame [OF assms(2,1,4)]) simp_all
  qed (erule (1) quiet, rule quiet_steps, assumption+)+
qed

lemma reachable_keys:
  assumes "reachable e k8s x" and "class_stable e"
  shows "keys_inv e k8s x"
  using assms
proof (induction rule: reachable.induct)
  case (start flag g)
  from start_state [OF this(1)] show ?case by (simp add: keys_inv_def sorted_out_def read_nodes_def)
next
  case (step x y)
  then show ?case using sys_step_keys by blast
qed

section \<open>Runs on the sample site\<close>

abbreviation sample_env :: env where
  "sample_env \<equiv> hsm_env sample_rfs sample_comps []"

abbreviation sample_site :: k8Manager where
  "sample_site \<equiv> fixed_manager 3"

definition sample_inventory :: "nodeConsoleInfo list" where
  "sample_inventory = hsm_nodes (sample_rfs, sample_comps, paradise_set [])"

lemma sample_inventory_names: "names sample_inventory = {''x3000c0s17b1n0'', ''x1000c0s0b0n0''}"
  unfolding sample_inventory_def by (rule sample_names)

lemma sample_mtn:
  "list_ex is_mtn_like (map_values (index_by NodeName sample_inventory))"
  "\<exists>n \<in> set (filter isMountain sample_inventory). NodeName n = ''x1000c0s0b0n0''"
  by (simp_all add: sample_inventory_def hsm_nodes_def sample_rfs_def sample_comps_def zero_rf_def map_filter_simps
      node_of_def bmc_of_def index_by_def paradise_set_def hsm_class_def has_key_def Let_def is_mtn_like_def
      isRiver_def isMountain_def)

lemma sample_start: "main_config False sample_env init_state = (Ok (), init_state)"
  unfolding main_config_run by (simp add: env_value_def hsm_env_def quiet_env_def init_state_def)

text \<open>What does not change while the watcher works.\<close>

definition at_work :: "op_state \<Rightarrow> bool" where
  "at_work g \<longleftrightarrow> sane_config g \<and> \<not> inShutdown g"

lemma sample_fetch:
  assumes "at_work g"
  shows "\<exists>g'. sys_step sample_env sample_site (st g (Idle cnt) b c) (st g' (Fetched cnt sample_inventory) b c) \<and>
    at_work g' \<and> nodeCache g' = nodeCache g \<and> mountainCredsUpdateChannel g' = mountainCredsUpdateChannel g"
proof -
  let ?g1 = "g\<lparr>trace := trace g @ [TimeNow], hardwareUpdateTime := time_now sample_env (trace g)\<rparr>"
  let ?g = "?g1\<lparr>trace := trace ?g1 @ hsm_events sample_env (trace ?g1)\<rparr>"
  have "begin_update (op_ns (wire sample_site)) sample_env g = (Ok sample_inventory, ?g)"
    using sample_nodes [of ?g1] by (simp add: begin_update_def NewNodeManager_def sample_inventory_def)
  moreover have "at_work ?g" using assms by (simp add: at_work_def sane_config_def)
  ultimately show ?thesis using assms hw_fetch unfolding at_work_def by fastforce
qed

lemma sample_upload:
  assumes "at_work g"
  shows "\<exists>g' gone. sys_step sample_env sample_site (st g (Fetched cnt sample_inventory) b c)
      (st g' (Uploaded cnt sample_inventory True
        (filter (\<lambda>n. \<not> has_key (nodeCache g) (NodeName n)) sample_inventory) gone) b c) \<and>
    at_work g' \<and> nodeCache g' = nodeCache g \<and> mountainCredsUpdateChannel g' = mountainCredsUpdateChannel g"
proof -
  let ?new = "filter (\<lambda>n. \<not> has_key (nodeCache g) (NodeName n)) sample_inventory"
  obtain ok gone evs where run: "upload_nodes (DataManager_service (wired_dm sample_site)) (cnt = 0) sample_inventory
      sample_env g = (Ok (ok, ?new, gone), g\<lparr>trace := trace g @ evs\<rparr>)"
    and "puts_accepted sample_env \<longrightarrow> ok"
    using hw.upload_run [OF refl refl refl] by blast
  then have "ok" using hsm_env_puts by blast
  moreover have "at_work (g\<lparr>trace := trace g @ evs\<rparr>)" using assms by (simp add: at_work_def sane_config_def)
  ultimately show ?thesis using run hw_upload [of sample_site] by fastforce
qed

lemma sample_store:
  assumes "at_work g"
  shows "\<exists>g1 g'. sys_step sample_env sample_site (st g (Uploaded cnt sample_inventory True new gone) b c)
      (st g1 (Removed cnt sample_inventory True new) b c) \<and>
    sys_step sample_env sample_site (st g1 (Removed cnt sample_inventory True new) b c) (st g' (Stored cnt True new) b c) \<and>
    at_work g' \<and> nodeCache g' = index_by NodeName sample_inventory \<and>
    mountainCredsUpdateChannel g' = mountainCredsUpdateChannel g"
proof -
  obtain evs where run: "remove_gone (DataManager_service (wired_dm sample_site)) gone sample_env g =
      (Ok (), g\<lparr>trace := trace g @ evs\<rparr>)"
    using hw.remove_phase by blast
  let ?g1 = "g\<lparr>trace := trace g @ evs\<rparr>"
  let ?g = "?g1\<lparr>nodeCache := index_by NodeName sample_inventory\<rparr>"
  have "length (index_by NodeName sample_inventory) \<le> 2 ^ 51"
    by (simp add: sample_inventory_def hsm_nodes_def sample_rfs_def sample_comps_def zero_rf_def map_filter_simps
      node_of_def bmc_of_def index_by_def paradise_set_def hsm_class_def has_key_def Let_def)
  then have "at_work ?g" using assms by (simp add: at_work_def sane_config_def)
  moreover have "sys_step sample_env sample_site (st g (Uploaded cnt sample_inventory True new gone) b c)
      (st ?g1 (Removed cnt sample_inventory True new) b c)"
    using run by (intro hw_remove) simp
  moreover have "sys_step sample_env sample_site (st ?g1 (Removed cnt sample_inventory True new) b c)
      (st ?g (Stored cnt True new) b c)"
    by (intro hw_store) (simp add: store_cache_run)
  ultimately show ?thesis by fastforce
qed

lemma sample_size:
  assumes "at_work g" and "nodeCache g = index_by NodeName sample_inventory"
  shows "\<exists>g'. sys_step sample_env sample_site (st g (Stored cnt True new) b c)
      (st g' (Sending cnt True (filter isMountain new)) b c) \<and>
    at_work g' \<and> nodeCache g' = nodeCache g \<and> mountainCredsUpdateChannel g' = mountainCredsUpdateChannel g \<and>
    catalog sample_env g' = catalog sample_env g"
proof -
  obtain toSend g' where run: "size_and_keys (NewNodeManager (K8Manager_service sample_site)) True new sample_env g =
      (Ok (True, toSend), g')" and sane: "sane_config g'"
    using healthy_size [OF sample_healthy] assms(1) unfolding at_work_def by blast
  note f = hw.size_and_keys_ok [OF run]
  have "toSend = filter isMountain new" using f(4) sample_mtn(1) assms(2) by simp
  moreover have "sys_step sample_env sample_site (st g (Stored cnt True new) b c) (st g' (Sending cnt True toSend) b c)"
    using run by (intro hw_size) simp
  moreover have "catalog sample_env g' = catalog sample_env g" by (rule quiet_catalog [OF size_quiet(1) [OF run]])
  ultimately show ?thesis using f(1,2) sane assms(1) by (auto simp: same_cache_def at_work_def)
qed

text \<open>The first update of an operator on the sample site, without interference from the start.\<close>

lemma undisturbed_step: "sys_step e k8s x (st g h b []) \<Longrightarrow> undisturbed e k8s x (st g h b [])"
  by (simp add: undisturbed_def)

lemma sample_mtn_single: "\<exists>n. filter isMountain sample_inventory = [n]"
  by (simp add: sample_inventory_def hsm_nodes_def sample_rfs_def sample_comps_def zero_rf_def map_filter_simps
      node_of_def bmc_of_def index_by_def paradise_set_def hsm_class_def has_key_def Let_def isMountain_def)

lemma sample_update_undisturbed:
  "\<exists>g. (undisturbed sample_env sample_site)\<^sup>*\<^sup>* (st init_state (Idle 0) [] [])
       (st g (Sending 0 True (filter isMountain sample_inventory)) [] []) \<and>
     at_work g \<and> nodeCache g = index_by NodeName sample_inventory \<and> mountainCredsUpdateChannel g = []"
proof -
  have init: "at_work init_state" "nodeCache init_state = []" "mountainCredsUpdateChannel init_state = []"
    using init_sane by (simp_all add: at_work_def init_state_def)
  then obtain g1 where s1: "undisturbed sample_env sample_site (st init_state (Idle 0) [] []) (st g1 (Fetched 0 sample_inventory) [] [])"
    and g1: "at_work g1" "nodeCache g1 = []" "mountainCredsUpdateChannel g1 = []"
    using sample_fetch [of init_state 0 "[]" "[]"] undisturbed_step by metis
  have new: "filter (\<lambda>n. \<not> has_key (nodeCache g1) (NodeName n)) sample_inventory = sample_inventory"
    by (simp add: g1 has_key_def)
  obtain g2 gone where s2: "undisturbed sample_env sample_site (st g1 (Fetched 0 sample_inventory) [] [])
      (st g2 (Uploaded 0 sample_inventory True sample_inventory gone) [] [])"
    and g2: "at_work g2" "mountainCredsUpdateChannel g2 = []"
    using sample_upload [OF g1(1), of 0 "[]" "[]"] undisturbed_step unfolding new g1(3) by blast
  obtain g2' g3 where s3: "undisturbed sample_env sample_site (st g2 (Uploaded 0 sample_inventory True sample_inventory gone) [] [])
      (st g2' (Removed 0 sample_inventory True sample_inventory) [] [])"
      "undisturbed sample_env sample_site (st g2' (Removed 0 sample_inventory True sample_inventory) [] [])
      (st g3 (Stored 0 True sample_inventory) [] [])"
    and g3: "at_work g3" "nodeCache g3 = index_by NodeName sample_inventory" "mountainCredsUpdateChannel g3 = []"
    using sample_store [OF g2(1), of 0 sample_inventory gone "[]" "[]"] undisturbed_step unfolding g2(2) by blast
  obtain g4 where s4: "undisturbed sample_env sample_site (st g3 (Stored 0 True sample_inventory) [] [])
      (st g4 (Sending 0 True (filter isMountain sample_inventory)) [] [])"
    and g4: "at_work g4" "nodeCache g4 = index_by NodeName sample_inventory" "mountainCredsUpdateChannel g4 = []"
    using sample_size [OF g3(1,2), of 0 sample_inventory "[]" "[]"] undisturbed_step unfolding g3(2,3) by blast
  from s1 s2 s3 s4 have "(undisturbed sample_env sample_site)\<^sup>*\<^sup>* (st init_state (Idle 0) [] [])
       (st g4 (Sending 0 True (filter isMountain sample_inventory)) [] [])"
    by (meson converse_rtranclp_into_rtranclp r_into_rtranclp)
  with g4 show ?thesis by blast
qed

lemma sample_idle_undisturbed:
  "\<exists>g b. (undisturbed sample_env sample_site)\<^sup>*\<^sup>* (st init_state (Idle 0) [] []) (st g (Idle 10) b []) \<and>
     at_work g \<and> nodeCache g = index_by NodeName sample_inventory"
proof -
  obtain n where n: "filter isMountain sample_inventory = [n]" using sample_mtn_single by blast
  obtain g where s: "(undisturbed sample_env sample_site)\<^sup>*\<^sup>* (st init_state (Idle 0) [] []) (st g (Sending 0 True [n]) [] [])"
    and g: "at_work g" "nodeCache g = index_by NodeName sample_inventory" "mountainCredsUpdateChannel g = []"
    using sample_update_undisturbed unfolding n by blast
  let ?g1 = "g\<lparr>mountainCredsUpdateChannel := mountainCredsUpdateChannel g @ [n]\<rparr>"
  have "undisturbed sample_env sample_site (st g (Sending 0 True [n]) [] []) (st ?g1 (Sending 0 True []) [] [])"
    by (intro undisturbed_step hw_send send_run) (simp_all add: g channel_capacity_def)
  moreover have "undisturbed sample_env sample_site (st ?g1 (Sending 0 True []) [] []) (st (sleep_event ?g1) (Idle 10) [] [])"
    using undisturbed_step [OF hw_sleep [of sample_env sample_site ?g1 0 True "[]" "[]"]] by (simp add: next_force_def)
  ultimately have "(undisturbed sample_env sample_site)\<^sup>*\<^sup>* (st init_state (Idle 0) [] []) (st (sleep_event ?g1) (Idle 10) [] [])"
    using s by (meson rtranclp.rtrancl_into_rtrancl)
  moreover have "at_work (sleep_event ?g1)" "nodeCache (sleep_event ?g1) = index_by NodeName sample_inventory"
    using g by (simp_all add: at_work_def sane_config_def sleep_event_def)
  ultimately show ?thesis by blast
qed

lemma sample_update:
  "\<exists>g. reachable sample_env sample_site (st g (Sending 0 True (filter isMountain sample_inventory)) [] []) \<and>
     mountainCredsUpdateChannel g = []"
  using sample_update_undisturbed reachable_steps [OF reachable.start [OF sample_start] undisturbed_steps] by blast

lemma sample_idle:
  "\<exists>g b. reachable sample_env sample_site (st g (Idle 10) b []) \<and> at_work g \<and>
     nodeCache g = index_by NodeName sample_inventory"
  using sample_idle_undisturbed reachable_steps [OF reachable.start [OF sample_start] undisturbed_steps] by blast

lemma sample_cached: "nodeCache g = index_by NodeName sample_inventory \<Longrightarrow> cached g = names sample_inventory"
  using has_key_index_by [of NodeName sample_inventory] by (auto simp: has_key_iff)

text \<open>The second update, which finds nothing new.\<close>

lemma sample_second_upload:
  "\<exists>g b gone. reachable sample_env sample_site (st g (Uploaded 10 sample_inventory True [] gone) b []) \<and>
     at_work g \<and> nodeCache g = index_by NodeName sample_inventory"
proof -
  obtain g b where r: "reachable sample_env sample_site (st g (Idle 10) b [])" and g: "at_work g"
    "nodeCache g = index_by NodeName sample_inventory"
    using sample_idle by blast
  obtain g1 where r1: "reachable sample_env sample_site (st g1 (Fetched 10 sample_inventory) b [])"
    and g1: "at_work g1" "nodeCache g1 = index_by NodeName sample_inventory"
    using sample_fetch [OF g(1), of 10 b "[]"] reachable.step [OF r] unfolding g(2) by blast
  have "filter (\<lambda>n. \<not> has_key (index_by NodeName sample_inventory) (NodeName n)) sample_inventory = []"
    by (simp add: filter_empty_conv)
  then show ?thesis
    using sample_upload [OF g1(1), of 10 b "[]"] reachable.step [OF r1] unfolding g1(2) by metis
qed

lemma sample_distinct: "distinct (map NodeName sample_inventory)"
  by (simp add: sample_inventory_def hsm_nodes_def sample_rfs_def sample_comps_def zero_rf_def map_filter_simps
      node_of_def bmc_of_def index_by_def paradise_set_def hsm_class_def has_key_def Let_def)

lemma sample_from_hsm: "from_hsm sample_env n \<longleftrightarrow> n \<in> set sample_inventory"
  by (simp add: from_hsm_def sample_view sample_inventory_def)

lemma sample_class_stable: "class_stable sample_env"
  unfolding class_stable_def sample_from_hsm
  using sample_distinct by (metis distinct_map inj_onD)

lemma sample_values: "n \<in> set sample_inventory \<Longrightarrow> n \<in> set (map_values (index_by NodeName sample_inventory))"
  using index_by_distinct [OF sample_distinct, of "NodeName n" n]
  by (simp only: keyed_by_value_iff [OF keyed_by_index] simp_thms)

text \<open>A clear request during the second update.\<close>

lemma sample_clear:
  assumes "at_work g"
  shows "\<exists>x1 x2 x3 y. sys_step sample_env sample_site (st g (Uploaded 10 sample_inventory True [] gone) b []) x1 \<and>
    clearing x1 \<noteq> [] \<and> sys_step sample_env sample_site x1 x2 \<and> clearing x2 = [] \<and>
    sys_step sample_env sample_site x2 x3 \<and> hw_state x3 \<noteq> hw_state x2 \<and>
    sys_step sample_env sample_site x3 y \<and> hw_state y \<noteq> hw_state x3"
proof -
  let ?h = "Uploaded 10 sample_inventory True [] gone" and ?rn = "map_values (nodeCache g)" and ?g1 = "g\<lparr>nodeCache := []\<rparr>"
  obtain evs where cl: "ds_dataRemoveNodes (DataManager_service (wired_dm sample_site)) ?rn sample_env ?g1 =
      (Ok (), ?g1\<lparr>trace := trace ?g1 @ evs\<rparr>)"
    using dsm.remove_nodes by blast
  let ?g2 = "?g1\<lparr>trace := trace ?g1 @ evs\<rparr>"
  have "at_work ?g2" using assms by (simp add: at_work_def sane_config_def)
  then obtain g3 g4 where "sys_step sample_env sample_site (st ?g2 ?h b []) (st g3 (Removed 10 sample_inventory True []) b [])"
    and "sys_step sample_env sample_site (st g3 (Removed 10 sample_inventory True []) b []) (st g4 (Stored 10 True []) b [])"
    using sample_store by blast
  moreover have "sys_step sample_env sample_site (st g ?h b []) (st ?g1 ?h b [?rn])" by (rule clear_start [OF clear_start_run])
  moreover have "sys_step sample_env sample_site (st ?g1 ?h b ([] @ ?rn # [])) (st ?g2 ?h b ([] @ []))"
    using cl by (intro clear_finish) simp
  ultimately show ?thesis
    by (intro exI [of _ "st ?g1 ?h b [?rn]"] exI [of _ "st ?g2 ?h b []"]
        exI [of _ "st g3 (Removed 10 sample_inventory True []) b []"] exI [of _ "st g4 (Stored 10 True []) b []"]) simp
qed

end
