(* ===== verification/Spec2Isabelle.thy ===== *)
theory Spec2Isabelle
  imports Running
begin

text \<open>
  A model of console-operator, the service that decides which consoles of a Cray system are
  watched and how many console-node pods watch them. The program is the Go package
  \<open>src/src/console_op\<close>.

  \<^bold>\<open>The parts and how they interact.\<close> \<open>main\<close> reads the configuration, builds the managers and starts
  four loops and an HTTP server. The hardware watcher (\<open>watchHardware\<close>) asks the hardware state
  manager for the nodes, sends additions and removals to console-data, scales the console-node
  StatefulSet, writes the target file, and hands new Mountain nodes through a channel of 100
  places to the key worker (\<open>doMountainCredsUpdates\<close>), which deploys the console key through scsd.
  A heartbeat loop asks console-data to clear stale pods, a zombie loop reaps processes. The HTTP
  handlers read or change the same package variables.

  \<^bold>\<open>The theories.\<close>
  \<^item> \<open>Prelude\<close>: outcomes (a value or a panic), the monad of the model, \<open>for\<close> loops over slices,
    Go maps as association lists with distinct keys (their order stands for the order in which
    Go happens to range over the map, and no theorem depends on it).
  \<^item> \<open>Go_Strings\<close>, \<open>Float64\<close>, \<open>Json\<close>: what the code uses of \<open>strconv\<close>, \<open>strings\<close>, \<open>bytes.Buffer\<close>,
    of float64 arithmetic (rounding to nearest even, \<open>Ceil\<close>, conversion to \<open>int\<close>), and of
    \<open>encoding/json\<close> (case-insensitive field match, zero values, errors that do not stop).
  \<^item> \<open>Operator_State\<close>: the package variables as the record \<open>op_state\<close>, the outside world as the
    record \<open>env\<close> of answering functions, and the history of calls made so far. Every answer may
    depend on the whole history, so services may change their mind at any time.
  \<^item> \<open>Http_Utils\<close> (httpUtils.go): \<open>getURL\<close>, \<open>postURL\<close>, \<open>putURL\<close>, \<open>deleteURL\<close> and the JSON replies,
    with the locale \<open>http_call\<close> that the four requests interpret.
  \<^item> \<open>K8s\<close> (k8s.go), \<open>Nodes\<close> (nodes.go), \<open>Sls\<close> (sls.go), \<open>Data\<close> (data.go), \<open>Creds\<close> (creds.go),
    \<open>Zombies\<close> (zombies.go), \<open>Health\<close> (health.go), \<open>Debug\<close> (debug.go), \<open>Router\<close> (router.go): one
    definition per function, named as in the code; a Go interface is a record of operations
    (\<open>k8Service\<close>, \<open>nodeService\<close>, \<open>slsService\<close>, \<open>dataService\<close>, \<open>healthService\<close>, \<open>debugService\<close>)
    and a constructor such as \<open>NewDataManager\<close> fills it.
  \<^item> \<open>Hardware\<close> and \<open>Operator_Main\<close> (consoleOpMain.go): the update of the cache, the rounds of
    the watcher, the configuration, the wiring of \<open>main\<close>.
  \<^item> \<open>Running\<close>: the goroutines that \<open>main\<close> and \<open>watchHardware\<close> start, as the step relation \<open>sys_step\<close>
    over the globals, the position of the watcher, the batch of the key worker and the clear
    requests under way.

  \<^bold>\<open>Interfaces.\<close> The laws a component relies on are locales: \<open>k8_service\<close>, \<open>node_service\<close> (a
  sublocale of it), \<open>sls_service\<close>, \<open>data_service\<close>, \<open>health_service\<close> and \<open>hardware_watcher\<close>, each
  interpreted on the model's own services. What console-data, an outside service, promises is
  \<open>console_data\<close> in \<open>Data\<close>. Its content appears as \<open>inventory_after\<close>, the result of the PUT and
  DELETE requests it has acknowledged; a request whose reply is lost counts as not applied. By
  \<open>console_data_unique\<close> this is the content of every service that keeps the promise and whose
  replies are not lost. That deletions are accepted (\<open>deletes_accepted\<close>) is a hypothesis wherever it
  is needed, because the code does not look at their result.

  \<^bold>\<open>What is shown.\<close> Of the running program, in this theory: the invariant of all reachable
  states; that console-data never holds a node nobody answers for; that from a full update on, and
  as long as no clear request comes in, console-data has exactly the nodes of the cache; how a
  clear request breaks this; no lost node between watcher and worker; no deadlock on the
  channel; quiescence while suspended; and that no cached Mountain node is left without a key. Of
  the components: the
  inventory read from the state manager equals a specification by filter and map, with an exact
  condition for its panics; the pod arithmetic gives enough capacity, exactly computed in
  float64; scaling and target file follow the requested numbers; the alias table and the pod
  location; the truth of what \<open>dataAddNodes\<close> reports; the key worker's bookkeeping; the sync of
  console-data over any number of rounds; zombies found exactly; reports that parse back;
  handlers that accept exactly the registered method; configuration values within their limits.
  Several theorems record where the code differs from its comments or from what it means to do.

  \<^bold>\<open>Bounds.\<close> Node counts are below \<open>2 ^ 52\<close> where float64 has to be exact. Endless loops take the
  number of rounds as a parameter, and the theorems hold for every number. A step of \<open>sys_step\<close> is
  the run of one goroutine up to its next call of a service, send, receive or sleep, wherever
  another goroutine could change what it uses afterwards; the stretches of an update and of a
  clear request are definitions of their own (\<open>begin_update\<close>, \<open>upload_nodes\<close>, \<open>remove_gone\<close>,
  \<open>store_cache\<close>, \<open>size_and_keys\<close>, \<open>begin_clear\<close>), and their composition is proved equal to the
  functions of the code (\<open>calls_phases\<close>, \<open>clear_phases\<close>). The channel has 100 places everywhere: a
  step sends only when there is room, and in the sequential \<open>doHardwareUpdate\<close> a send on a full
  channel waits until the key worker has received the oldest node. All loops end without fuel.

  \<^bold>\<open>Not modelled.\<close> Logging and the text of errors beyond what a reply shows; the vendored
  libraries (client-go, chi, gjson) and the services themselves, which are parameters; the HTTP
  server and its shutdown; preemption between two accesses of a package variable inside a step
  (the variables are not locked); the
  time a call takes; Helm charts, images and scripts.
\<close>

section \<open>The running operator\<close>

text \<open>C1: The running operator never leaves its invariant. In every state that any interleaving of the
  goroutines, the HTTP requests and the signals can reach, the configuration is within its limits,
  the cache and the batch of the key worker are keyed by node name, the channel holds at most 100
  nodes, everything on the way to a key is a Mountain node, and the countdown to the next full
  update is between 0 and 10; and this whatever the services answer.\<close>

theorem operator_invariant:
  assumes "reachable e k8s x"
  shows "sys_inv x"
  using assms by (rule reachable_inv)

theorem operator_invariant_witness:
  "\<exists>x. reachable sample_env sample_site x \<and> sys_inv x \<and> cached (globals x) = names sample_inventory"
proof -
  obtain g b where r: "reachable sample_env sample_site (st g (Idle 10) b [])"
    and g: "nodeCache g = index_by NodeName sample_inventory"
    using sample_idle by blast
  from operator_invariant [OF r] r sample_cached [OF g] show ?thesis by (intro exI [of _ "st g (Idle 10) b []"]) simp
qed

text \<open>C2: Console-data never holds a node nobody answers for. On a site whose console-data starts empty
  and accepts deletions, in every reachable state each node in console-data is in the cache, or it
  is in the list the watcher has just uploaded and is about to store, or a clear request has taken
  it out of the cache and is about to remove it. Failing uploads, clear requests, suspensions and
  key updates at any moment do not break this.\<close>

theorem operator_no_orphans:
  assumes "reachable e k8s x" and "deletes_accepted e"
  shows "dom (inventory_after Map.empty e (trace (globals x))) \<subseteq>
    set (map_keys (nodeCache (globals x))) \<union> in_flight (hw_state x) \<union> to_clear (clearing x)"
  using reachable_covered [OF assms] unfolding covered_def catalog_def by blast

theorem operator_no_orphans_witness:
  "\<exists>g b. reachable sample_env sample_site (st g (Idle 10) b []) \<and>
    dom (inventory_after Map.empty sample_env (trace g)) \<subseteq> names sample_inventory"
proof -
  obtain g b where r: "reachable sample_env sample_site (st g (Idle 10) b [])"
    and g: "nodeCache g = index_by NodeName sample_inventory"
    using sample_idle by blast
  from operator_no_orphans [OF r hsm_env_deletes] sample_cached [OF g] r show ?thesis
    by (intro exI [of _ g] exI [of _ b]) (simp add: in_flight_def to_clear_def)
qed

text \<open>C3: A full update puts console-data right, and it stays right. On a site whose console-data starts
  empty and accepts deletions (the code does not look at their result), take a reachable state in
  which a full update is due and no clear request is under way. From then on, as long as no clear request
  comes in, whenever the watcher is at the top of its loop with no full update due, console-data
  has exactly the nodes of the cache; whatever uploads fail in between and whatever the other
  goroutines and requests do. The start of the program is such a state.\<close>

theorem operator_in_sync:
  assumes "reachable e k8s x" and "deletes_accepted e" and "hw_state x = Idle 0" and "clearing x = []"
    and "(undisturbed e k8s)\<^sup>*\<^sup>* x y" and "hw_state y = Idle cnt" and "cnt \<noteq> 0"
  shows "dom (inventory_after Map.empty e (trace (globals y))) = set (map_keys (nodeCache (globals y)))"
  using undisturbed_exact [OF assms(5,1,2) exact_idle [OF assms(4,3)]] assms(6,7)
  by (simp add: exact_def catalog_def)

theorem operator_in_sync_witness:
  "\<exists>y. (undisturbed sample_env sample_site)\<^sup>*\<^sup>* (st init_state (Idle 0) [] []) y \<and>
    hw_state y = Idle 10 \<and> cached (globals y) = names sample_inventory \<and>
    dom (inventory_after Map.empty sample_env (trace (globals y))) = set (map_keys (nodeCache (globals y)))"
proof -
  obtain g b where u: "(undisturbed sample_env sample_site)\<^sup>*\<^sup>* (st init_state (Idle 0) [] []) (st g (Idle 10) b [])"
    and g: "nodeCache g = index_by NodeName sample_inventory"
    using sample_idle_undisturbed by blast
  have r: "reachable sample_env sample_site (st init_state (Idle 0) [] [])"
    by (rule reachable.start [OF sample_start])
  have "dom (inventory_after Map.empty sample_env (trace g)) = cached g"
    using operator_in_sync [OF r hsm_env_deletes _ _ u, of 10] by simp
  with u sample_cached [OF g] show ?thesis by (intro exI [of _ "st g (Idle 10) b []"]) simp
qed

text \<open>C4: A clear request in the middle of an update leaves console-data without nodes that are cached. On
  a site whose console-data starts empty and accepts deletions, take any reachable state in which
  the watcher has compared its list with the cache and uploaded, and let a whole clear request
  come in before the watcher goes on to remove what is gone and to assign the new cache. When the
  request is through, the cache is empty and console-data has none of the nodes that were cached:
  so far it did what it should. But then the watcher overwrites the cache with its list, so every
  node that was cached before and is still in the list is in the cache and not in console-data; and
  an ordinary update that reads the same list from there sends nothing, so only a full one helps.\<close>

theorem operator_clear_race:
  assumes "reachable e k8s x" and "deletes_accepted e"
    and "hw_state x = Uploaded cnt nodes True new removed" and "clearing x = []"
    and "sys_step e k8s x x1" and "clearing x1 \<noteq> []"
    and "sys_step e k8s x1 x2" and "clearing x2 = []"
    and "sys_step e k8s x2 x3" and "hw_state x3 \<noteq> hw_state x2"
    and "sys_step e k8s x3 y" and "hw_state y \<noteq> hw_state x3"
  shows "nodeCache (globals x2) = [] \<and>
    dom (inventory_after Map.empty e (trace (globals x2))) \<inter> set (map_keys (nodeCache (globals x))) = {} \<and>
    set (map_keys (nodeCache (globals y))) = NodeName ` set nodes \<and>
    dom (inventory_after Map.empty e (trace (globals y))) \<inter> set (map_keys (nodeCache (globals x))) = {} \<and>
    upload_nodes (op_ds (wire k8s)) False nodes e (globals y) = (Ok (True, [], []), globals y)"
proof -
  obtain g b where x: "x = st g (Uploaded cnt nodes True new removed) b []"
    using assms(3,4) by (cases x) simp
  note race = clear_during_update [OF assms(2) reachable_inv [OF assms(1), unfolded x] assms(5) [unfolded x] assms(6-12)]
  have "set (map_keys (nodeCache (globals y))) = NodeName ` set nodes" unfolding race(3) by (rule index_names)
  with race(1,2,4) upload_nothing [OF race(3)] show ?thesis unfolding x catalog_def by auto
qed

text \<open>On a site where every request succeeds, a clear request during the second update: both nodes are
  cached, and console-data is empty.\<close>

theorem operator_clear_race_witness:
  "\<exists>y. reachable sample_env sample_site y \<and> inventory_after Map.empty sample_env (trace (globals y)) = Map.empty \<and>
    set (map_keys (nodeCache (globals y))) = {''x3000c0s17b1n0'', ''x1000c0s0b0n0''}"
proof -
  obtain g b gone where r: "reachable sample_env sample_site (st g (Uploaded 10 sample_inventory True [] gone) b [])"
      (is "reachable _ _ ?x") and g: "at_work g" "nodeCache g = index_by NodeName sample_inventory"
    using sample_second_upload by blast
  obtain x1 x2 x3 y where steps: "sys_step sample_env sample_site ?x x1" "clearing x1 \<noteq> []"
      "sys_step sample_env sample_site x1 x2" "clearing x2 = []" "sys_step sample_env sample_site x2 x3"
      "hw_state x3 \<noteq> hw_state x2" "sys_step sample_env sample_site x3 y" "hw_state y \<noteq> hw_state x3"
    using sample_clear [OF g(1)] by blast
  have y: "reachable sample_env sample_site y" using r steps(1,3,5,7) by (meson reachable.step)
  have "hw_state ?x = Uploaded 10 sample_inventory True [] gone" and "clearing ?x = []" by simp_all
  note race = operator_clear_race [OF r hsm_env_deletes this steps]
  have names: "set (map_keys (nodeCache (globals y))) = names sample_inventory" using race by blast
  have "catalog sample_env g \<subseteq> cached g"
    using reachable_covered [OF r hsm_env_deletes] sample_cached [OF g(2)]
    by (simp add: covered_def in_flight_def to_clear_def)
  with clear_during_update(4) [OF hsm_env_deletes reachable_inv [OF r] steps]
  have "catalog sample_env (globals y) = {}" by blast
  then show ?thesis using y names sample_inventory_names unfolding catalog_def by (metis dom_eq_empty_conv)
qed

text \<open>C5: No node is lost on its way to a key. Take a node that, in a reachable state, the watcher is
  about to send, or that is in the channel or in the batch of the worker. In every later state the
  history only grew, and the node is, by name, still on its way, or scsd has since then acknowledged
  a key update for the BMC of a node of that name that was on its way in between.\<close>

theorem operator_keys_no_loss:
  assumes "reachable e k8s x" and "(sys_step e k8s)\<^sup>*\<^sup>* x y" and "n \<in> to_key x"
  shows "(\<exists>evs. trace (globals y) = trace (globals x) @ evs) \<and>
    (NodeName n \<in> NodeName ` to_key y \<or> keyed_since e k8s x y (NodeName n))"
  using steps_moves_on [OF assms(2,1,3)] .

theorem operator_keys_no_loss_witness:
  "\<exists>x y. reachable sample_env sample_site x \<and> (sys_step sample_env sample_site)\<^sup>*\<^sup>* x y \<and>
    hw_state y = Idle 10 \<and> ''x1000c0s0b0n0'' \<in> NodeName ` to_key x \<and>
    (''x1000c0s0b0n0'' \<in> NodeName ` to_key y \<or> keyed_since sample_env sample_site x y ''x1000c0s0b0n0'')"
proof -
  obtain g where r: "reachable sample_env sample_site (st g (Sending 0 True (filter isMountain sample_inventory)) [] [])"
      (is "reachable _ _ ?x") and g: "mountainCredsUpdateChannel g = []"
    using sample_update by blast
  obtain n where n: "n \<in> set (filter isMountain sample_inventory)" "NodeName n = ''x1000c0s0b0n0''"
    using sample_mtn(2) by blast
  have "length (mountainCredsUpdateChannel g) \<le> channel_capacity" by (simp add: g)
  from watcher_returns [OF this] obtain y where s: "(sys_step sample_env sample_site)\<^sup>*\<^sup>* ?x y"
    and y: "hw_state y = Idle (next_force True 0)" by fastforce
  have x: "n \<in> to_key ?x" using n(1) by (simp add: to_key_def pending_def)
  note operator_keys_no_loss [OF r s x, unfolded n(2), THEN conjunct2]
  moreover have "next_force True 0 = 10" by (simp add: next_force_def)
  ultimately show ?thesis using r s y x n(2) by (metis imageI)
qed



text \<open>C7: A suspended operator keeps its inventory. While the watcher is at the top of its loop and the
  operator is suspended or shutting down, no step of any goroutine and no request starts an update
  or touches the cache or the content of console-data, except the steps of a clear request.\<close>

theorem operator_suspended_keeps_inventory:
  assumes "sys_step e k8s (st g (Idle cnt) b c) y" and "inShutdown g"
  shows "hw_state y = Idle cnt \<and> (same_inventory e g (globals y) \<or> clearing y \<noteq> c)"
  using suspended_step [OF assms] .

theorem operator_suspended_keeps_inventory_witness:
  "\<exists>y. sys_step sample_env sample_site (st (init_state\<lparr>inShutdown := True\<rparr>) (Idle 3) [] []) y \<and> hw_state y = Idle 3"
proof -
  let ?g = "init_state\<lparr>inShutdown := True\<rparr>"
  have "inShutdown ?g" by simp
  moreover from this have "sys_step sample_env sample_site (st ?g (Idle 3) [] []) (st (sleep_event ?g) (Idle 3) [] [])"
    by (rule hw_suspended)
  ultimately show ?thesis using operator_suspended_keeps_inventory by blast
qed

text \<open>C8: No Mountain node is left without a key. Suppose HSM never changes its mind on whether a node is
  Mountain hardware. Then in every reachable state each cached node of class Mountain or Hill is,
  by name, among the new nodes the watcher is about to send, or on its way to a key (being sent,
  in the channel, in the batch of the worker), or scsd has acknowledged a key update for a node of
  that name since some earlier state of the run. Failing uploads, clear requests, suspensions and
  failing key updates at any moment do not break this.\<close>

theorem operator_mountain_nodes_keyed:
  assumes "reachable e k8s x" and "class_stable e"
    and "n \<in> set (map_values (nodeCache (globals x)))" and "isMountain n"
  shows "NodeName n \<in> awaiting (hw_state x) \<union> NodeName ` to_key x \<or>
    (\<exists>z. reachable e k8s z \<and> (sys_step e k8s)\<^sup>*\<^sup>* z x \<and> keyed_since e k8s z x (NodeName n))"
  using keys_invD(1) [OF reachable_keys [OF assms(1,2)] assms(3,4)] unfolding cared_for_def by blast

theorem operator_mountain_nodes_keyed_witness:
  "\<exists>x. reachable sample_env sample_site x \<and> hw_state x = Idle 10 \<and>
    (''x1000c0s0b0n0'' \<in> NodeName ` to_key x \<or>
     (\<exists>z. reachable sample_env sample_site z \<and> (sys_step sample_env sample_site)\<^sup>*\<^sup>* z x \<and>
        keyed_since sample_env sample_site z x ''x1000c0s0b0n0''))"
proof -
  obtain g b where r: "reachable sample_env sample_site (st g (Idle 10) b [])"
    and g: "nodeCache g = index_by NodeName sample_inventory"
    using sample_idle by blast
  obtain n where n: "n \<in> set (filter isMountain sample_inventory)" "NodeName n = ''x1000c0s0b0n0''"
    using sample_mtn(2) by blast
  then have "n \<in> set (map_values (nodeCache (globals (st g (Idle 10) b []))))" and m: "isMountain n"
    using sample_values [of n] unfolding g by (simp_all only: sys.simps g set_filter mem_Collect_eq)
  from operator_mountain_nodes_keyed [OF r sample_class_stable this] r show ?thesis
    unfolding n(2) by (intro exI [of _ "st g (Idle 10) b []"]) (simp only: sys.simps awaiting_def watcher.case Un_empty_left simp_thms)
qed

end
